(* ===== verification/Prelude.thy ===== *)
theory Prelude
  imports Main "HOL-Library.Char_ord" "HOL-Library.List_Lexorder"
begin

text \<open>
  The runtime the Shuup sources run on, as far as they use it: Python exceptions
  as values of \<open>exc\<close>, decoded JSON as \<open>jval\<close>, the builtins \<open>int()\<close> and
  \<open>str()\<close> on decoded JSON, Python dictionary access, and the Django query-set
  operations \<open>get(pk=...)\<close> and \<open>first()\<close> on a table held as a list of rows in
  primary-key order. Every component theory imports it; the shared lemmas are
  collected in \<open>exc_simps\<close> (sequencing of fallible steps) and \<open>qs_simps\<close>
  (query-set lookups).
\<close>

named_theorems exc_simps "rules for sequencing fallible steps"
named_theorems qs_simps "rules for query-set lookups"

section \<open>Exceptions\<close>

text \<open>
  The exceptions the modelled code raises or catches. \<open>DoesNotExist\<close> carries the
  model name (Django's message is "<Model> matching query does not exist."),
  \<open>Problem\<close> is \<open>shuup.utils.excs.Problem\<close> with its message.
\<close>

datatype exc =
    DoesNotExist string
  | MultipleObjectsReturned string
  | KeyError string
  | ValueError
  | TypeError
  | IntegrityError string
  | Problem string
  | NoReverseMatch string
  | AttributeError string

fun exc_str :: "exc \<Rightarrow> string" where
  "exc_str (DoesNotExist m) = m @ '' matching query does not exist.''"
| "exc_str (MultipleObjectsReturned m) = ''get() returned more than one '' @ m"
| "exc_str (KeyError k) = CHR 0x27 # k @ [CHR 0x27]"
| "exc_str ValueError = ''invalid literal for int() with base 10''"
| "exc_str TypeError = ''int() argument must be a string, a bytes-like object or a number''"
| "exc_str (IntegrityError m) = m"
| "exc_str (Problem m) = m"
| "exc_str (NoReverseMatch v) = ''Reverse for '' @ CHR 0x27 # v @ CHR 0x27 # '' not found.''"
| "exc_str (AttributeError m) = m"

text \<open>Sequencing of code that may raise: the first exception propagates.\<close>

fun ebind :: "'e + 'a \<Rightarrow> ('a \<Rightarrow> 'e + 'b) \<Rightarrow> 'e + 'b" where
  "ebind (Inl e) f = Inl e"
| "ebind (Inr x) f = f x"

lemma ebind_eq_Inr [exc_simps]:
  "ebind m f = Inr y \<longleftrightarrow> (\<exists>x. m = Inr x \<and> f x = Inr y)"
  by (cases m) auto

lemma ebind_eq_Inl [exc_simps]:
  "ebind m f = Inl e \<longleftrightarrow> m = Inl e \<or> (\<exists>x. m = Inr x \<and> f x = Inl e)"
  by (cases m) auto

lemma map_sum_Some_eq_Inr [exc_simps]:
  "map_sum id Some m = Inr y \<longleftrightarrow> (\<exists>x. m = Inr x \<and> y = Some x)"
  by (cases m) auto

section \<open>Decoded JSON and the Python builtins on it\<close>

datatype jval =
    JNull
  | JBool bool
  | JInt int
  | JStr string
  | JList "jval list"
  | JObj "(string \<times> jval) list"

text \<open>A decoded JSON object, or a Django \<open>QueryDict\<close>, as the pairs in the order they
  arrive. A key given twice keeps its last value: \<open>json.loads\<close> overwrites earlier
  entries, and \<open>QueryDict.get\<close> and \<open>__getitem__\<close> return the last value of a key.\<close>

type_synonym jdict = "(string \<times> jval) list"

definition dict_get :: "jdict \<Rightarrow> string \<Rightarrow> jval option" where
  "dict_get d k = map_of (rev d) k"

definition dict_get_default :: "jdict \<Rightarrow> string \<Rightarrow> jval \<Rightarrow> jval" where
  "dict_get_default d k v = (case map_of (rev d) k of None \<Rightarrow> v | Some x \<Rightarrow> x)"

definition dict_index :: "jdict \<Rightarrow> string \<Rightarrow> exc + jval" where
  "dict_index d k = (case map_of (rev d) k of None \<Rightarrow> Inl (KeyError k) | Some x \<Rightarrow> Inr x)"

text \<open>Python truthiness, and \<open>a or b\<close> on optional dictionary values.\<close>

fun py_truthy :: "jval \<Rightarrow> bool" where
  "py_truthy JNull = False"
| "py_truthy (JBool b) = b"
| "py_truthy (JInt i) = (i \<noteq> 0)"
| "py_truthy (JStr s) = (s \<noteq> [])"
| "py_truthy (JList xs) = (xs \<noteq> [])"
| "py_truthy (JObj xs) = (xs \<noteq> [])"

definition py_or :: "jval option \<Rightarrow> jval option \<Rightarrow> jval option" where
  "py_or a b = (case a of Some x \<Rightarrow> if py_truthy x then Some x else b | None \<Rightarrow> b)"

subsection \<open>Decimal digits\<close>

definition digit_char :: "nat \<Rightarrow> char" where
  "digit_char d = char_of (48 + d)"

fun nat_str :: "nat \<Rightarrow> string" where
  "nat_str n = (if n < 10 then [digit_char n] else nat_str (n div 10) @ [digit_char (n mod 10)])"

declare nat_str.simps [simp del]

definition int_str :: "int \<Rightarrow> string" where
  "int_str i = (if i < 0 then CHR ''-'' # nat_str (nat (- i)) else nat_str (nat i))"

definition is_digit :: "char \<Rightarrow> bool" where
  "is_digit c = ((48::nat) \<le> of_char c \<and> of_char c < (58::nat))"

text \<open>Value of a digit string, most significant digit first (accumulator form).\<close>

fun digits_acc :: "nat \<Rightarrow> string \<Rightarrow> nat option" where
  "digits_acc acc [] = Some acc"
| "digits_acc acc (c # cs) =
     (if is_digit c then digits_acc (10 * acc + (of_char c - (48::nat))) cs else None)"

definition digits_val :: "string \<Rightarrow> nat option" where
  "digits_val s = (if s = [] then None else digits_acc 0 s)"

text \<open>\<open>str.isspace()\<close> on the code points below 256: tab to carriage return, the
  separators U+001C to U+001F, space, U+0085 and the no-break space U+00A0.\<close>

definition is_py_space :: "char \<Rightarrow> bool" where
  "is_py_space c = (let n = (of_char c :: nat) in (9 \<le> n \<and> n \<le> 13) \<or> (28 \<le> n \<and> n \<le> 32) \<or> n = 133 \<or> n = 160)"

definition py_strip :: "string \<Rightarrow> string" where
  "py_strip s = rev (dropWhile is_py_space (rev (dropWhile is_py_space s)))"

text \<open>
  \<open>int(s)\<close> on a string: surrounding white space, an optional sign, decimal digits;
  anything else raises \<open>ValueError\<close>. (Python also accepts underscores between
  digits and non-ASCII digits; the model does not.)
\<close>

definition py_int_of_string :: "string \<Rightarrow> exc + int" where
  "py_int_of_string s =
     (let t = py_strip s;
          r = (case t of
                 c # ds \<Rightarrow> if c = CHR ''-'' then map_option (\<lambda>n. - int n) (digits_val ds)
                           else if c = CHR ''+'' then map_option int (digits_val ds)
                           else map_option int (digits_val t)
               | [] \<Rightarrow> None)
      in case r of None \<Rightarrow> Inl ValueError | Some i \<Rightarrow> Inr i)"

fun py_int :: "jval \<Rightarrow> exc + int" where
  "py_int (JInt i) = Inr i"
| "py_int (JBool b) = Inr (if b then 1 else 0)"
| "py_int (JStr s) = py_int_of_string s"
| "py_int JNull = Inl TypeError"
| "py_int (JList xs) = Inl TypeError"
| "py_int (JObj xs) = Inl TypeError"

text \<open>Python's \<open>sep.join(parts)\<close>.\<close>

fun py_join :: "string \<Rightarrow> string list \<Rightarrow> string" where
  "py_join sep [] = []"
| "py_join sep [x] = x"
| "py_join sep (x # y # zs) = x @ sep @ py_join sep (y # zs)"

text \<open>\<open>str()\<close> of a decoded JSON value (containers rendered as Python's repr).\<close>

fun py_repr :: "jval \<Rightarrow> string" where
  "py_repr JNull = ''None''"
| "py_repr (JBool b) = (if b then ''True'' else ''False'')"
| "py_repr (JInt i) = int_str i"
| "py_repr (JStr s) = CHR 0x27 # s @ [CHR 0x27]"
| "py_repr (JList xs) = ''['' @ py_join '', '' (map py_repr xs) @ '']''"
| "py_repr (JObj kvs) =
     ''{'' @ py_join '', ''
        (map (\<lambda>kv. CHR 0x27 # fst kv @ CHR 0x27 # '': '' @ py_repr (snd kv)) kvs) @ ''}''"

fun py_str :: "jval \<Rightarrow> string" where
  "py_str (JStr s) = s"
| "py_str v = py_repr v"

text \<open>Python's \<open>s.split(sep)\<close> with a one-character separator: every field, empty ones too.\<close>

fun py_split :: "char \<Rightarrow> string \<Rightarrow> string list" where
  "py_split c [] = [[]]"
| "py_split c (x # xs) =
     (if x = c then [] # py_split c xs
      else (let r = py_split c xs in (x # hd r) # tl r))"

section \<open>Django query sets over a table\<close>

text \<open>
  A table is the list of its rows in primary-key order; \<open>pk\<close> reads a row's key.
  \<open>qs_get\<close> is \<open>QuerySet.get(pk=v)\<close>: no row raises \<open>DoesNotExist\<close>, two raise
  \<open>MultipleObjectsReturned\<close>. A lookup value of \<open>None\<close> (SQL \<open>IS NULL\<close>) matches
  no row.
\<close>

definition qs_get :: "string \<Rightarrow> ('a \<Rightarrow> nat) \<Rightarrow> 'a list \<Rightarrow> int option \<Rightarrow> exc + 'a" where
  "qs_get model pk rows v =
     (case filter (\<lambda>r. v = Some (int (pk r))) rows of
        [] \<Rightarrow> Inl (DoesNotExist model)
      | [r] \<Rightarrow> Inr r
      | _ \<Rightarrow> Inl (MultipleObjectsReturned model))"

text \<open>
  The value Django compares a primary key with: \<open>int()\<close> of the request value,
  \<open>None\<close> for JSON \<open>null\<close>.
\<close>

definition pk_value :: "jval \<Rightarrow> exc + int option" where
  "pk_value v = (case v of JNull \<Rightarrow> Inr None | _ \<Rightarrow> (case py_int v of Inl e \<Rightarrow> Inl e | Inr i \<Rightarrow> Inr (Some i)))"

section \<open>Shared lemmas\<close>

lemma filter_eq_single_distinct:
  assumes "distinct (map pk rows)" and "r \<in> set rows"
  shows "filter (\<lambda>x. pk x = pk r) rows = [r]"
  using assms by (induction rows) (auto simp: filter_empty_conv rev_image_eqI)

lemma qs_get_Inr [qs_simps]:
  "qs_get model pk rows v = Inr r \<Longrightarrow> r \<in> set rows \<and> v = Some (int (pk r))"
proof -
  assume "qs_get model pk rows v = Inr r"
  then have "filter (\<lambda>r. v = Some (int (pk r))) rows = [r]"
    by (auto simp: qs_get_def split: list.splits)
  then have "r \<in> set (filter (\<lambda>r. v = Some (int (pk r))) rows)" by simp
  then show ?thesis by simp
qed

lemma qs_get_distinct [qs_simps]:
  assumes "distinct (map pk rows)" and "r \<in> set rows"
  shows "qs_get model pk rows (Some (int (pk r))) = Inr r"
proof -
  have "filter (\<lambda>x. Some (int (pk r)) = Some (int (pk x))) rows = filter (\<lambda>x. pk x = pk r) rows"
    by (rule filter_cong) auto
  with filter_eq_single_distinct [OF assms] show ?thesis
    by (simp add: qs_get_def)
qed

lemma qs_get_none [qs_simps]:
  "(\<forall>r \<in> set rows. v \<noteq> Some (int (pk r))) \<Longrightarrow> qs_get model pk rows v = Inl (DoesNotExist model)"
  by (simp add: qs_get_def filter_empty_conv)

lemma qs_get_cases:
  "qs_get model pk rows v = Inl (DoesNotExist model) \<or> qs_get model pk rows v = Inl (MultipleObjectsReturned model)
   \<or> (\<exists>r. qs_get model pk rows v = Inr r)"
  by (auto simp: qs_get_def split: list.splits)

lemma qs_get_not_Inl_other [qs_simps]:
  "qs_get model pk rows v = Inl e \<Longrightarrow> e = DoesNotExist model \<or> e = MultipleObjectsReturned model"
  by (auto simp: qs_get_def split: list.splits)

lemma find_Some_in:
  "find P xs = Some x \<Longrightarrow> x \<in> set xs \<and> P x"
  by (induction xs) (auto split: if_splits)

lemma find_distinct_key:
  "distinct (map key xs) \<Longrightarrow> x \<in> set xs \<Longrightarrow> find (\<lambda>y. key y = key x) xs = Some x"
  by (induction xs) (auto simp: image_iff)

lemma pred_option_iff_all: "pred_option P x \<longleftrightarrow> (\<forall>y. x = Some y \<longrightarrow> P y)"
  by (cases x) auto

lemma distinct_map_filter [simp]:
  "distinct (map f xs) \<Longrightarrow> distinct (map f (filter P xs))"
  by (induction xs) auto

lemma map_id_preserving [simp]:
  "(\<And>x. f (g x) = f x) \<Longrightarrow> map f (map g xs) = map f xs"
  by (induction xs) auto

section \<open>Splitting and joining\<close>

lemma py_split_nonempty: "py_split c s \<noteq> []"
  by (induction s) (auto simp: Let_def)

lemma py_split_single: "c \<notin> set s \<Longrightarrow> py_split c s = [s]"
  by (induction s) auto

lemma py_split_append: "c \<notin> set a \<Longrightarrow> py_split c (a @ c # b) = a # py_split c b"
  by (induction a) (auto simp: Let_def)

lemma py_join_Cons: "ws \<noteq> [] \<Longrightarrow> py_join sep (w # ws) = w @ sep @ py_join sep ws"
  by (cases ws) auto

lemma py_join_split: "py_join [c] (py_split c s) = s"
proof (induction s)
  case Nil
  then show ?case by simp
next
  case (Cons x xs)
  have ne: "py_split c xs \<noteq> []" by (rule py_split_nonempty)
  show ?case
  proof (cases "x = c")
    case True
    with ne Cons.IH show ?thesis by (simp add: py_join_Cons)
  next
    case False
    obtain w ws where split: "py_split c xs = w # ws"
      using ne by (cases "py_split c xs") auto
    with Cons.IH have "py_join [c] (w # ws) = xs" by simp
    with False split show ?thesis by (cases ws) simp_all
  qed
qed

lemma py_split_no_sep: "w \<in> set (py_split c s) \<Longrightarrow> c \<notin> set w"
proof (induction s arbitrary: w)
  case Nil
  then show ?case by simp
next
  case (Cons x xs)
  have ne: "py_split c xs \<noteq> []" by (rule py_split_nonempty)
  then obtain v vs where split: "py_split c xs = v # vs" by (cases "py_split c xs") auto
  show ?case
  proof (cases "x = c")
    case True
    with Cons show ?thesis by auto
  next
    case False
    with Cons.prems split have "w = x # v \<or> w \<in> set vs" by (simp add: Let_def)
    with False Cons.IH split show ?thesis by auto
  qed
qed

section \<open>Digits round trip\<close>

lemma is_digit_digit_char: "d < 10 \<Longrightarrow> is_digit (digit_char d)"
  by (simp add: is_digit_def digit_char_def)

lemma of_char_digit_char: "d < 10 \<Longrightarrow> of_char (digit_char d) - 48 = (d::nat)"
  by (simp add: digit_char_def)

lemma digits_acc_append:
  "digits_acc acc (xs @ ys) = (case digits_acc acc xs of None \<Rightarrow> None | Some a \<Rightarrow> digits_acc a ys)"
  by (induction acc xs rule: digits_acc.induct) auto

lemma digits_acc_nat_str: "digits_acc acc (nat_str n) = Some (acc * 10 ^ length (nat_str n) + n)"
proof (induction n arbitrary: acc rule: nat_str.induct)
  case (1 n)
  show ?case
  proof (cases "n < 10")
    case True
    then show ?thesis
      by (simp add: nat_str.simps [of n] is_digit_digit_char of_char_digit_char)
  next
    case False
    have IH: "digits_acc acc (nat_str (n div 10)) = Some (acc * 10 ^ length (nat_str (n div 10)) + n div 10)"
      using "1" False by blast
    have "n mod 10 < 10" by simp
    with False IH show ?thesis
      by (simp add: nat_str.simps [of n] digits_acc_append is_digit_digit_char of_char_digit_char
          algebra_simps)
qed
qed

lemma nat_str_nonempty: "nat_str n \<noteq> []"
  by (subst nat_str.simps) simp

lemma digits_val_nat_str: "digits_val (nat_str n) = Some n"
  by (simp add: digits_val_def nat_str_nonempty digits_acc_nat_str)

lemma nat_str_digits: "list_all is_digit (nat_str n)"
proof (induction n rule: nat_str.induct)
  case (1 n)
  then show ?case by (subst nat_str.simps) (simp add: is_digit_digit_char)
qed

lemma digit_not_special:
  "is_digit c \<Longrightarrow> \<not> is_py_space c \<and> c \<noteq> CHR ''-'' \<and> c \<noteq> CHR ''+'' \<and> c \<noteq> CHR 0x00 \<and> of_char c < (128::nat)"
  by (auto simp: is_digit_def is_py_space_def)

lemma py_strip_no_space:
  "list_all (\<lambda>c. \<not> is_py_space c) s \<Longrightarrow> py_strip s = s"
proof -
  assume a: "list_all (\<lambda>c. \<not> is_py_space c) s"
  have d: "dropWhile is_py_space xs = xs" if "list_all (\<lambda>c. \<not> is_py_space c) xs" for xs
    using that by (cases xs) auto
  from a have "dropWhile is_py_space s = s" by (rule d)
  moreover from a have "dropWhile is_py_space (rev s) = rev s" by (intro d) (simp add: list_all_iff)
  ultimately show ?thesis by (simp add: py_strip_def)
qed

lemma py_int_of_string_nat_str: "py_int_of_string (nat_str n) = Inr (int n)"
proof -
  have dg: "list_all is_digit (nat_str n)" by (rule nat_str_digits)
  then have "list_all (\<lambda>c. \<not> is_py_space c) (nat_str n)"
    by (simp add: list_all_iff digit_not_special)
  then have s: "py_strip (nat_str n) = nat_str n" by (rule py_strip_no_space)
  obtain c cs where cs: "nat_str n = c # cs" using nat_str_nonempty by (cases "nat_str n") auto
  with dg have "c \<noteq> CHR ''-''" "c \<noteq> CHR ''+''" by (simp_all add: digit_not_special)
  with s cs show ?thesis
    using digits_val_nat_str [of n] by (simp add: py_int_of_string_def)
qed

end
