(* ===== verification/Media_Store.thy ===== *)
theory Media_Store
  imports Prelude
begin

text \<open>
  The data the media browser of \<open>src/shuup/admin/modules/media/views.py\<close> works on,
  and the query helpers at the top of that file. The database is a record of
  tables, each a list of rows in primary-key order: filer's \<open>Folder\<close> and \<open>File\<close>
  (an \<open>Image\<close> is a \<open>File\<close> with \<open>fl_is_image\<close>), Shuup's \<open>MediaFolder\<close> and
  \<open>MediaFile\<close> (a one-to-one link to a folder or file with a many-to-many set of
  shops), the primary-key sequences, and the files that another table references
  with a protecting foreign key (deleting them raises \<open>IntegrityError\<close>).
  Beside the view's own helpers (\<open>_is_folder_shared\<close>, \<open>_get_folder_query_filter\<close>,
  \<open>_get_folder_query\<close>, \<open>_is_file_shared\<close>, \<open>_get_file_query\<close>,
  \<open>get_folder_name\<close>) the theory models the library calls the views make:
  Django's \<open>create\<close> and \<open>get_or_create\<close>, filer's \<open>move_to\<close>, and Shuup's
  \<open>ensure_media_folder\<close>, \<open>ensure_media_file\<close> and \<open>delete_folder\<close>. Filer's
  \<open>Folder\<close> is \<open>unique_together (parent, name)\<close>: a save that gives a folder the
  name of a sibling raises \<open>IntegrityError\<close> (\<open>folder_name_taken\<close>), except at
  the root, where the parent is SQL \<open>NULL\<close> and rows never conflict; \<open>move_to\<close>
  and \<open>delete_folder\<close> (which moves subfolders up) raise it as the database does,
  and \<open>delete_folder_effect\<close> is the deletion once no clash is found. The invariant
  \<open>wf_db\<close> (keys unique and below their sequence, foreign keys resolve, a folder's
  parent has a smaller key) holds initially and every operation keeps it.
\<close>

section \<open>Tables\<close>

record folder_row =
  fd_id :: nat
  fd_name :: string
  fd_parent :: "nat option"

record file_row =
  fl_id :: nat
  fl_name :: string
  fl_folder :: "nat option"
  fl_is_public :: bool
  fl_is_image :: bool

text \<open>A \<open>MediaFolder\<close> or \<open>MediaFile\<close> row: the folder or file it belongs to and its shops.\<close>

record media_link =
  ml_target :: nat
  ml_shops :: "nat set"

record media_db =
  folders :: "folder_row list"
  files :: "file_row list"
  media_folders :: "media_link list"
  media_files :: "media_link list"
  next_folder_id :: nat
  next_file_id :: nat
  protected_files :: "nat list"

type_synonym shop = nat

section \<open>The query helpers of the view\<close>

text \<open>\<open>_is_folder_shared\<close>: never with a single shop; otherwise shared unless its
  \<open>MediaFolder\<close> exists and has exactly one shop.\<close>

definition is_folder_shared :: "bool \<Rightarrow> media_db \<Rightarrow> folder_row \<Rightarrow> bool" where
  "is_folder_shared multi db folder =
     (if \<not> multi then False
      else (case find (\<lambda>m. ml_target m = fd_id folder) (media_folders db) of
              None \<Rightarrow> True
            | Some mf \<Rightarrow> card (ml_shops mf) \<noteq> 1))"

text \<open>
  \<open>_get_folder_query_filter\<close>: the \<open>Q\<close> object over the outer join of the folder with
  its \<open>MediaFolder\<close> and that row's shops: no media folder, a media folder without
  shops, or one of its shops is the current one.
\<close>

definition get_folder_query_filter :: "shop \<Rightarrow> media_db \<Rightarrow> folder_row \<Rightarrow> bool" where
  "get_folder_query_filter shop db f =
     (let ms = filter (\<lambda>m. ml_target m = fd_id f) (media_folders db)
      in ms = [] \<or> list_ex (\<lambda>m. ml_shops m = {} \<or> shop \<in> ml_shops m) ms)"

definition get_folder_query :: "shop \<Rightarrow> media_db \<Rightarrow> folder_row option \<Rightarrow> folder_row list" where
  "get_folder_query shop db folder =
     filter (\<lambda>f. get_folder_query_filter shop db f
                 \<and> (case folder of None \<Rightarrow> True | Some g \<Rightarrow> fd_id f = fd_id g))
       (folders db)"

definition is_file_shared :: "bool \<Rightarrow> media_db \<Rightarrow> file_row \<Rightarrow> bool" where
  "is_file_shared multi db file =
     (if \<not> multi then False
      else (case find (\<lambda>m. ml_target m = fl_id file) (media_files db) of
              None \<Rightarrow> True
            | Some mf \<Rightarrow> card (ml_shops mf) \<noteq> 1))"

definition file_query_filter :: "shop \<Rightarrow> media_db \<Rightarrow> file_row \<Rightarrow> bool" where
  "file_query_filter shop db x =
     (fl_is_public x \<and>
      (let ms = filter (\<lambda>m. ml_target m = fl_id x) (media_files db)
       in ms = [] \<or> list_ex (\<lambda>m. ml_shops m = {} \<or> shop \<in> ml_shops m) ms))"

definition get_file_query :: "shop \<Rightarrow> media_db \<Rightarrow> folder_row option \<Rightarrow> file_row list" where
  "get_file_query shop db folder =
     filter (\<lambda>x. file_query_filter shop db x
                 \<and> (case folder of None \<Rightarrow> True | Some g \<Rightarrow> fl_folder x = Some (fd_id g)))
       (files db)"

definition get_folder_name :: "folder_row option \<Rightarrow> string" where
  "get_folder_name folder = (case folder of Some f \<Rightarrow> fd_name f | None \<Rightarrow> ''Root'')"

text \<open>Reading a row's foreign key back as a row (\<open>file.folder\<close>, \<open>folder.parent\<close>).\<close>

definition folder_by_id :: "media_db \<Rightarrow> nat option \<Rightarrow> folder_row option" where
  "folder_by_id db k = (case k of None \<Rightarrow> None | Some i \<Rightarrow> find (\<lambda>f. fd_id f = i) (folders db))"

text \<open>
  filer's \<open>Folder\<close> is \<open>unique_together = (("parent", "name"),)\<close>: the database
  refuses a second folder of the same name under one parent. Under the root the
  parent is \<open>NULL\<close>, and SQL does not compare \<open>NULL\<close>s, so root folders may share
  a name. \<open>folder_name_taken db k parent name\<close>: writing the folder with key \<open>k\<close>
  under \<open>parent\<close> with \<open>name\<close> breaks the constraint.
\<close>

definition folder_name_taken :: "media_db \<Rightarrow> nat \<Rightarrow> nat option \<Rightarrow> string \<Rightarrow> bool" where
  "folder_name_taken db k parent name =
     (parent \<noteq> None \<and> list_ex (\<lambda>g. fd_id g \<noteq> k \<and> fd_parent g = parent \<and> fd_name g = name) (folders db))"

definition unique_folder_error :: exc where
  "unique_folder_error = IntegrityError ''UNIQUE constraint failed: filer_folder.parent_id, filer_folder.name''"

text \<open>The value written into \<open>Folder.name\<close> from decoded JSON: \<open>null\<close> is \<open>NULL\<close>,
  which the \<open>NOT NULL\<close> column refuses; other values are stored as their \<open>str()\<close>.\<close>

definition folder_name_value :: "jval \<Rightarrow> exc + string" where
  "folder_name_value v =
     (case v of JNull \<Rightarrow> Inl (IntegrityError ''NOT NULL constraint failed: filer_folder.name'')
      | _ \<Rightarrow> Inr (py_str v))"

section \<open>Library operations the views call\<close>

definition update_folder :: "nat \<Rightarrow> (folder_row \<Rightarrow> folder_row) \<Rightarrow> media_db \<Rightarrow> media_db" where
  "update_folder k g db = db\<lparr>folders := map (\<lambda>f. if fd_id f = k then g f else f) (folders db)\<rparr>"

definition update_file :: "nat \<Rightarrow> (file_row \<Rightarrow> file_row) \<Rightarrow> media_db \<Rightarrow> media_db" where
  "update_file k g db = db\<lparr>files := map (\<lambda>x. if fl_id x = k then g x else x) (files db)\<rparr>"

text \<open>\<open>Folder.objects.create(name=..., parent=...)\<close>: the next key of the sequence.\<close>

definition folder_create :: "string \<Rightarrow> nat option \<Rightarrow> media_db \<Rightarrow> folder_row \<times> media_db" where
  "folder_create name parent db =
     (let f = \<lparr>fd_id = next_folder_id db, fd_name = name, fd_parent = parent\<rparr>
      in (f, db\<lparr>folders := folders db @ [f], next_folder_id := Suc (next_folder_id db)\<rparr>))"

text \<open>\<open>folder.move_to(parent, "last-child"); folder.save()\<close>.\<close>

definition folder_move_to :: "folder_row \<Rightarrow> folder_row \<Rightarrow> media_db \<Rightarrow> exc + folder_row \<times> media_db" where
  "folder_move_to folder parent db =
     (if folder_name_taken db (fd_id folder) (Some (fd_id parent)) (fd_name folder) then Inl unique_folder_error
      else Inr (folder\<lparr>fd_parent := Some (fd_id parent)\<rparr>,
                update_folder (fd_id folder) (\<lambda>f. f\<lparr>fd_parent := Some (fd_id parent)\<rparr>) db))"

text \<open>\<open>Folder.objects.get_or_create(parent=parent, name=name)\<close>.\<close>

definition folder_get_or_create ::
  "nat option \<Rightarrow> string \<Rightarrow> media_db \<Rightarrow> exc + (folder_row \<times> bool) \<times> media_db" where
  "folder_get_or_create parent name db =
     (case filter (\<lambda>f. fd_parent f = parent \<and> fd_name f = name) (folders db) of
        [] \<Rightarrow> (let (f, db') = folder_create name parent db in Inr ((f, True), db'))
      | [f] \<Rightarrow> Inr ((f, False), db)
      | _ \<Rightarrow> Inl (MultipleObjectsReturned ''Folder''))"

text \<open>
  \<open>shuup.utils.filer.ensure_media_folder\<close> and \<open>ensure_media_file\<close>: get or create
  the media row of the object and add the shop to its shops.
\<close>

definition ensure_media_folder :: "shop \<Rightarrow> nat \<Rightarrow> media_db \<Rightarrow> media_db" where
  "ensure_media_folder shop k db =
     (case find (\<lambda>m. ml_target m = k) (media_folders db) of
        None \<Rightarrow> db\<lparr>media_folders := media_folders db @ [\<lparr>ml_target = k, ml_shops = {shop}\<rparr>]\<rparr>
      | Some _ \<Rightarrow> db\<lparr>media_folders := map (\<lambda>m. if ml_target m = k
                                         then m\<lparr>ml_shops := insert shop (ml_shops m)\<rparr> else m)
                                       (media_folders db)\<rparr>)"

definition ensure_media_file :: "shop \<Rightarrow> nat \<Rightarrow> media_db \<Rightarrow> media_db" where
  "ensure_media_file shop k db =
     (case find (\<lambda>m. ml_target m = k) (media_files db) of
        None \<Rightarrow> db\<lparr>media_files := media_files db @ [\<lparr>ml_target = k, ml_shops = {shop}\<rparr>]\<rparr>
      | Some _ \<Rightarrow> db\<lparr>media_files := map (\<lambda>m. if ml_target m = k
                                       then m\<lparr>ml_shops := insert shop (ml_shops m)\<rparr> else m)
                                     (media_files db)\<rparr>)"

text \<open>
  \<open>shuup.admin.modules.media.utils.delete_folder\<close>: the subfolders and the files of
  the folder move up to its parent, then the folder (and, by cascade, its
  \<open>MediaFolder\<close>) is deleted; the message lists what moved. \<open>delete_folder_effect\<close>
  is what the function does when no move breaks the unique constraint.
\<close>

definition delete_folder_effect :: "folder_row \<Rightarrow> media_db \<Rightarrow> string \<times> media_db" where
  "delete_folder_effect folder db =
     (let k = fd_id folder;
          parent_folder = folder_by_id db (fd_parent folder);
          parent_name = get_folder_name parent_folder;
          new_parent = map_option fd_id parent_folder;
          subfolders = filter (\<lambda>f. fd_parent f = Some k) (folders db);
          n_files = length (filter (\<lambda>x. fl_folder x = Some k) (files db));
          bits = (if subfolders \<noteq> [] then [nat_str (length subfolders) @ '' subfolders moved to ''
                                               @ parent_name @ ''.''] else [])
                 @ (if n_files \<noteq> 0 then [nat_str n_files @ '' files moved to '' @ parent_name @ ''.'']
                    else []);
          db' = db\<lparr>folders := filter (\<lambda>f. fd_id f \<noteq> k)
                                (map (\<lambda>f. if fd_parent f = Some k then f\<lparr>fd_parent := new_parent\<rparr> else f)
                                   (folders db)),
                   files := map (\<lambda>x. if fl_folder x = Some k then x\<lparr>fl_folder := new_parent\<rparr> else x)
                              (files db),
                   media_folders := filter (\<lambda>m. ml_target m \<noteq> k) (media_folders db)\<rparr>
      in (py_join [CHR 0x0A] ((''Folder '' @ fd_name folder @ '' deleted.'') # bits), db'))"

text \<open>The moves of the subfolders, one \<open>move_to(parent_folder, "last-child")\<close> after
  the other, break the constraint when the folder has a parent and a subfolder's
  name is taken there (by the folder itself, another child of the parent, or a
  subfolder moved before it); the first such move raises \<open>IntegrityError\<close>.
  Subfolders moving to the root never clash.\<close>

definition subfolders_clash :: "folder_row \<Rightarrow> media_db \<Rightarrow> bool" where
  "subfolders_clash folder db =
     (let p = map_option fd_id (folder_by_id db (fd_parent folder))
      in p \<noteq> None \<and>
         list_ex (\<lambda>s. fd_parent s = Some (fd_id folder)
                     \<and> list_ex (\<lambda>g. fd_id g \<noteq> fd_id s \<and> (fd_parent g = p \<or> fd_parent g = Some (fd_id folder))
                                   \<and> fd_name g = fd_name s) (folders db))
                 (folders db))"

definition delete_folder :: "folder_row \<Rightarrow> media_db \<Rightarrow> exc + string \<times> media_db" where
  "delete_folder folder db =
     (if subfolders_clash folder db then Inl unique_folder_error else Inr (delete_folder_effect folder db))"

text \<open>\<open>file.delete()\<close>: refused by the database while another row protects the file;
  otherwise the file goes, and its \<open>MediaFile\<close> with it.\<close>

definition file_delete :: "file_row \<Rightarrow> media_db \<Rightarrow> exc + media_db" where
  "file_delete file db =
     (if fl_id file \<in> set (protected_files db)
      then Inl (IntegrityError ''FOREIGN KEY constraint failed'')
      else Inr (db\<lparr>files := filter (\<lambda>x. fl_id x \<noteq> fl_id file) (files db),
                   media_files := filter (\<lambda>m. ml_target m \<noteq> fl_id file) (media_files db)\<rparr>))"

section \<open>Well-formed databases\<close>

definition folder_keys :: "media_db \<Rightarrow> nat set" where
  "folder_keys db = fd_id ` set (folders db)"

definition file_keys :: "media_db \<Rightarrow> nat set" where
  "file_keys db = fl_id ` set (files db)"

definition wf_db :: "media_db \<Rightarrow> bool" where
  "wf_db db \<longleftrightarrow>
     distinct (map fd_id (folders db)) \<and> distinct (map fl_id (files db))
   \<and> distinct (map ml_target (media_folders db)) \<and> distinct (map ml_target (media_files db))
   \<and> list_all (\<lambda>f. fd_id f < next_folder_id db) (folders db)
   \<and> list_all (\<lambda>x. fl_id x < next_file_id db) (files db)
   \<and> list_all (\<lambda>f. pred_option (\<lambda>p. p \<in> folder_keys db \<and> p < fd_id f) (fd_parent f)) (folders db)
   \<and> list_all (\<lambda>x. pred_option (\<lambda>p. p \<in> folder_keys db) (fl_folder x)) (files db)
   \<and> list_all (\<lambda>t. t \<in> folder_keys db) (map ml_target (media_folders db))
   \<and> list_all (\<lambda>t. t \<in> file_keys db) (map ml_target (media_files db))"

definition empty_db :: media_db where
  "empty_db = \<lparr>folders = [], files = [], media_folders = [], media_files = [],
               next_folder_id = 1, next_file_id = 1, protected_files = []\<rparr>"

section \<open>Sharing and visibility through the media rows\<close>

text \<open>The shops of the media row of an object, when it has one (the row \<open>first()\<close> finds).\<close>

definition media_shops :: "media_link list \<Rightarrow> nat \<Rightarrow> nat set option" where
  "media_shops ms k = map_option ml_shops (find (\<lambda>m. ml_target m = k) ms)"

fun visible_to :: "shop \<Rightarrow> nat set option \<Rightarrow> bool" where
  "visible_to shop None = True"
| "visible_to shop (Some S) = (S = {} \<or> shop \<in> S)"

fun shared_set :: "nat set option \<Rightarrow> bool" where
  "shared_set None = True"
| "shared_set (Some S) = (card S \<noteq> 1)"

lemma filter_target_distinct:
  "distinct (map ml_target ms) \<Longrightarrow>
   filter (\<lambda>m. ml_target m = k) ms = (case find (\<lambda>m. ml_target m = k) ms of None \<Rightarrow> [] | Some m \<Rightarrow> [m])"
  by (induction ms) (auto simp: filter_empty_conv find_None_iff image_iff dest!: find_Some_in split: option.splits)

lemma link_filter_visible:
  assumes "distinct (map ml_target ms)"
  shows "(let xs = filter (\<lambda>m. ml_target m = k) ms
          in xs = [] \<or> list_ex (\<lambda>m. ml_shops m = {} \<or> shop \<in> ml_shops m) xs)
         = visible_to shop (media_shops ms k)"
  using filter_target_distinct [OF assms, of k]
  by (auto simp: media_shops_def split: option.splits)

lemma folder_filter_visible:
  "wf_db db \<Longrightarrow> get_folder_query_filter shop db f = visible_to shop (media_shops (media_folders db) (fd_id f))"
  unfolding get_folder_query_filter_def wf_db_def by (rule link_filter_visible) simp

lemma file_filter_visible:
  "wf_db db \<Longrightarrow> file_query_filter shop db x =
     (fl_is_public x \<and> visible_to shop (media_shops (media_files db) (fl_id x)))"
  unfolding file_query_filter_def wf_db_def using link_filter_visible by auto

lemma is_folder_shared_eq:
  "is_folder_shared multi db f = (multi \<and> shared_set (media_shops (media_folders db) (fd_id f)))"
  by (simp add: is_folder_shared_def media_shops_def split: option.splits)

lemma is_file_shared_eq:
  "is_file_shared multi db x = (multi \<and> shared_set (media_shops (media_files db) (fl_id x)))"
  by (simp add: is_file_shared_def media_shops_def split: option.splits)

text \<open>Visible and not shared: the media row has exactly the current shop.\<close>

lemma visible_unshared_owned:
  "visible_to shop S \<Longrightarrow> \<not> shared_set S \<Longrightarrow> S = Some {shop}"
  by (cases S) (auto simp: card_Suc_eq)

lemma owned_visible_unshared:
  "visible_to shop (Some {shop}) \<and> \<not> shared_set (Some {shop})"
  by simp

section \<open>The invariant is kept\<close>

lemma wf_empty_db: "wf_db empty_db"
  by (simp add: wf_db_def empty_db_def)

lemma update_folder_fields [simp]:
  "files (update_folder k g db) = files db"
  "media_folders (update_folder k g db) = media_folders db"
  "media_files (update_folder k g db) = media_files db"
  "next_folder_id (update_folder k g db) = next_folder_id db"
  "next_file_id (update_folder k g db) = next_file_id db"
  "protected_files (update_folder k g db) = protected_files db"
  by (simp_all add: update_folder_def)

lemma update_file_fields [simp]:
  "folders (update_file k g db) = folders db"
  "media_folders (update_file k g db) = media_folders db"
  "media_files (update_file k g db) = media_files db"
  "next_folder_id (update_file k g db) = next_folder_id db"
  "next_file_id (update_file k g db) = next_file_id db"
  "protected_files (update_file k g db) = protected_files db"
  by (simp_all add: update_file_def)

lemma folders_update_folder:
  "folders (update_folder k g db) = map (\<lambda>f. if fd_id f = k then g f else f) (folders db)"
  by (simp add: update_folder_def)

lemma files_update_file:
  "files (update_file k g db) = map (\<lambda>x. if fl_id x = k then g x else x) (files db)"
  by (simp add: update_file_def)

lemma map_fd_id_update_folder:
  "(\<And>f. fd_id (g f) = fd_id f) \<Longrightarrow> map fd_id (folders (update_folder k g db)) = map fd_id (folders db)"
  by (simp add: folders_update_folder)

lemma map_fl_id_update_file:
  "(\<And>x. fl_id (g x) = fl_id x) \<Longrightarrow> map fl_id (files (update_file k g db)) = map fl_id (files db)"
  by (simp add: files_update_file)

lemma folder_keys_update [simp]:
  "(\<And>f. fd_id (g f) = fd_id f) \<Longrightarrow> folder_keys (update_folder k g db) = folder_keys db"
  unfolding folder_keys_def by (metis map_fd_id_update_folder set_map)

lemma file_keys_update [simp]:
  "(\<And>x. fl_id (g x) = fl_id x) \<Longrightarrow> file_keys (update_file k g db) = file_keys db"
  unfolding file_keys_def by (metis map_fl_id_update_file set_map)

lemma folder_keys_update_file [simp]: "folder_keys (update_file k g db) = folder_keys db"
  by (simp add: folder_keys_def)

lemma file_keys_update_folder [simp]: "file_keys (update_folder k g db) = file_keys db"
  by (simp add: file_keys_def)

lemma list_all_map_if:
  "(\<And>x. x \<in> set xs \<Longrightarrow> key x = k \<Longrightarrow> P (g x)) \<Longrightarrow> (\<And>x. x \<in> set xs \<Longrightarrow> key x \<noteq> k \<Longrightarrow> P x) \<Longrightarrow>
   list_all P (map (\<lambda>x. if key x = k then g x else x) xs)"
  by (auto simp: list_all_iff)

lemma wf_update_folder:
  assumes wf: "wf_db db" and ids: "\<And>f. fd_id (g f) = fd_id f"
    and par: "\<And>f. f \<in> set (folders db) \<Longrightarrow> fd_id f = k \<Longrightarrow>
                 pred_option (\<lambda>p. p \<in> folder_keys db \<and> p < fd_id f) (fd_parent (g f))"
  shows "wf_db (update_folder k g db)"
proof -
  have ids': "map fd_id (folders (update_folder k g db)) = map fd_id (folders db)"
    by (rule map_fd_id_update_folder) (rule ids)
  have "list_all (\<lambda>f. fd_id f < next_folder_id db) (folders (update_folder k g db))"
    unfolding folders_update_folder using wf ids by (auto intro!: list_all_map_if simp: wf_db_def list_all_iff)
  moreover have "list_all (\<lambda>f. pred_option (\<lambda>p. p \<in> folder_keys db \<and> p < fd_id f) (fd_parent f))
                   (folders (update_folder k g db))"
    unfolding folders_update_folder
  proof (rule list_all_map_if)
    fix f assume f: "f \<in> set (folders db)" "fd_id f = k"
    have "pred_option (\<lambda>p. p \<in> folder_keys db \<and> p < fd_id f) (fd_parent (g f))"
      by (rule par [OF f])
    then show "pred_option (\<lambda>p. p \<in> folder_keys db \<and> p < fd_id (g f)) (fd_parent (g f))"
      by (simp only: ids)
  next
    fix f assume "f \<in> set (folders db)"
    then show "pred_option (\<lambda>p. p \<in> folder_keys db \<and> p < fd_id f) (fd_parent f)"
      using wf by (simp add: wf_db_def list_all_iff)
  qed
  ultimately show ?thesis
    using wf ids ids' by (simp add: wf_db_def)
qed

lemma wf_rename_folder:
  "wf_db db \<Longrightarrow> wf_db (update_folder k (\<lambda>f. f\<lparr>fd_name := n\<rparr>) db)"
  by (rule wf_update_folder) (auto simp: wf_db_def list_all_iff)

lemma wf_update_file:
  assumes wf: "wf_db db" and ids: "\<And>x. fl_id (g x) = fl_id x"
    and fol: "\<And>x. x \<in> set (files db) \<Longrightarrow> fl_id x = k \<Longrightarrow>
                 pred_option (\<lambda>p. p \<in> folder_keys db) (fl_folder (g x))"
  shows "wf_db (update_file k g db)"
proof -
  have ids': "map fl_id (files (update_file k g db)) = map fl_id (files db)"
    by (rule map_fl_id_update_file) (rule ids)
  have "list_all (\<lambda>x. fl_id x < next_file_id db) (files (update_file k g db))"
    unfolding files_update_file using wf ids by (auto intro!: list_all_map_if simp: wf_db_def list_all_iff)
  moreover have "list_all (\<lambda>x. pred_option (\<lambda>p. p \<in> folder_keys db) (fl_folder x))
                   (files (update_file k g db))"
    unfolding files_update_file
    using wf fol by (intro list_all_map_if) (auto simp: wf_db_def list_all_iff)
  ultimately show ?thesis
    using wf ids ids' by (simp add: wf_db_def)
qed

lemma wf_rename_file:
  "wf_db db \<Longrightarrow> wf_db (update_file k (\<lambda>x. x\<lparr>fl_name := n\<rparr>) db)"
  by (rule wf_update_file) (auto simp: wf_db_def list_all_iff)

lemma wf_move_file:
  "wf_db db \<Longrightarrow> pred_option (\<lambda>q. q \<in> folder_keys db) p \<Longrightarrow>
   wf_db (update_file k (\<lambda>x. x\<lparr>fl_folder := p\<rparr>) db)"
  by (rule wf_update_file) auto

lemma wf_folder_key_lt:
  "wf_db db \<Longrightarrow> k \<in> folder_keys db \<Longrightarrow> k < next_folder_id db"
  by (auto simp: wf_db_def folder_keys_def list_all_iff)

lemma wf_folder_create:
  assumes wf: "wf_db db" and par: "pred_option (\<lambda>q. q \<in> folder_keys db) p"
    and cr: "folder_create n p db = (f, db')"
  shows "wf_db db' \<and> f \<in> set (folders db') \<and> fd_id f = next_folder_id db \<and> fd_name f = n
         \<and> fd_parent f = p \<and> folder_keys db' = insert (fd_id f) (folder_keys db)"
proof -
  have f: "f = \<lparr>fd_id = next_folder_id db, fd_name = n, fd_parent = p\<rparr>"
    and db': "db' = db\<lparr>folders := folders db @ [f], next_folder_id := Suc (next_folder_id db)\<rparr>"
    using cr by (auto simp: folder_create_def Let_def)
  have fresh: "next_folder_id db \<notin> folder_keys db"
    using wf_folder_key_lt [OF wf] by blast
  have keys: "folder_keys db' = insert (fd_id f) (folder_keys db)"
    by (auto simp: folder_keys_def db' f)
  have "pred_option (\<lambda>q. q \<in> folder_keys db \<and> q < next_folder_id db) p"
    using par wf_folder_key_lt [OF wf] by (cases p) auto
  with wf fresh show ?thesis
    by (auto simp: wf_db_def db' f keys list_all_iff folder_keys_def file_keys_def
             elim!: option.pred_mono_strong)
qed

lemma wf_folder_move_to:
  assumes wf: "wf_db db" and P: "fd_id P \<in> folder_keys db" and lt: "fd_id P < fd_id F"
  shows "wf_db (update_folder (fd_id F) (\<lambda>f. f\<lparr>fd_parent := Some (fd_id P)\<rparr>) db)"
  by (rule wf_update_folder [OF wf]) (use P lt in auto)

lemma map_key_if_update:
  "(\<And>x. key (g x) = key x) \<Longrightarrow> map key (map (\<lambda>x. if key x = k then g x else x) xs) = map key xs"
  by simp

lemma ensure_media_folder_fields:
  "folders (ensure_media_folder shop k db) = folders db"
  "files (ensure_media_folder shop k db) = files db"
  "media_files (ensure_media_folder shop k db) = media_files db"
  "next_folder_id (ensure_media_folder shop k db) = next_folder_id db"
  "next_file_id (ensure_media_folder shop k db) = next_file_id db"
  "map ml_target (media_folders (ensure_media_folder shop k db)) =
     (if k \<in> set (map ml_target (media_folders db)) then map ml_target (media_folders db)
      else map ml_target (media_folders db) @ [k])"
  by (auto simp: ensure_media_folder_def find_None_iff split: option.splits dest!: find_Some_in)

lemma ensure_media_file_fields:
  "folders (ensure_media_file shop k db) = folders db"
  "files (ensure_media_file shop k db) = files db"
  "media_folders (ensure_media_file shop k db) = media_folders db"
  "next_folder_id (ensure_media_file shop k db) = next_folder_id db"
  "next_file_id (ensure_media_file shop k db) = next_file_id db"
  "map ml_target (media_files (ensure_media_file shop k db)) =
     (if k \<in> set (map ml_target (media_files db)) then map ml_target (media_files db)
      else map ml_target (media_files db) @ [k])"
  by (auto simp: ensure_media_file_def find_None_iff split: option.splits dest!: find_Some_in)

lemma wf_ensure_media_folder:
  "wf_db db \<Longrightarrow> k \<in> folder_keys db \<Longrightarrow> wf_db (ensure_media_folder shop k db)"
  by (simp add: wf_db_def ensure_media_folder_fields folder_keys_def file_keys_def)

lemma wf_ensure_media_file:
  "wf_db db \<Longrightarrow> k \<in> file_keys db \<Longrightarrow> wf_db (ensure_media_file shop k db)"
  by (simp add: wf_db_def ensure_media_file_fields folder_keys_def file_keys_def)

lemma folder_by_id_key:
  assumes wf: "wf_db db" and k: "pred_option (\<lambda>p. p \<in> folder_keys db) k"
  shows "map_option fd_id (folder_by_id db k) = k"
proof (cases k)
  case None
  then show ?thesis by (simp add: folder_by_id_def)
next
  case (Some p)
  with k obtain f where f: "f \<in> set (folders db)" "fd_id f = p"
    by (auto simp: folder_keys_def)
  with wf have "find (\<lambda>g. fd_id g = p) (folders db) = Some f"
    using find_distinct_key [of fd_id "folders db" f] by (simp add: wf_db_def)
  with Some f show ?thesis by (simp add: folder_by_id_def)
qed

lemma folder_by_id_in:
  "folder_by_id db k = Some f \<Longrightarrow> f \<in> set (folders db) \<and> k = Some (fd_id f)"
  by (auto simp: folder_by_id_def split: option.splits dest!: find_Some_in)

text \<open>The state \<open>delete_folder_effect\<close> leaves, with the parent the subfolders and files move to.\<close>

lemma delete_folder_state:
  assumes wf: "wf_db db" and f: "f \<in> set (folders db)"
  shows "snd (delete_folder_effect f db) =
     db\<lparr>folders := filter (\<lambda>g. fd_id g \<noteq> fd_id f)
                    (map (\<lambda>g. if fd_parent g = Some (fd_id f) then g\<lparr>fd_parent := fd_parent f\<rparr> else g)
                       (folders db)),
        files := map (\<lambda>x. if fl_folder x = Some (fd_id f) then x\<lparr>fl_folder := fd_parent f\<rparr> else x)
                   (files db),
        media_folders := filter (\<lambda>m. ml_target m \<noteq> fd_id f) (media_folders db)\<rparr>"
proof -
  have "pred_option (\<lambda>p. p \<in> folder_keys db) (fd_parent f)"
    using wf f by (auto simp: wf_db_def list_all_iff elim: option.pred_mono_strong)
  then have eq: "map_option fd_id (folder_by_id db (fd_parent f)) = fd_parent f"
    by (rule folder_by_id_key [OF wf])
  show ?thesis unfolding delete_folder_effect_def Let_def eq by simp
qed

lemma wf_delete_folder:
  assumes wf: "wf_db db" and f: "f \<in> set (folders db)"
  shows "wf_db (snd (delete_folder_effect f db))"
proof -
  let ?k = "fd_id f"
  let ?re = "\<lambda>g. if fd_parent g = Some ?k then g\<lparr>fd_parent := fd_parent f\<rparr> else g"
  let ?fs = "filter (\<lambda>g. fd_id g \<noteq> ?k) (map ?re (folders db))"
  let ?mv = "\<lambda>x. if fl_folder x = Some ?k then x\<lparr>fl_folder := fd_parent f\<rparr> else x"
  let ?db' = "snd (delete_folder_effect f db)"
  note st = delete_folder_state [OF wf f]
  have ids: "map fd_id (map ?re (folders db)) = map fd_id (folders db)" by simp
  have "fd_id ` set ?fs = fd_id ` set (map ?re (folders db)) - {?k}" by auto
  also have "\<dots> = folder_keys db - {?k}" using ids unfolding folder_keys_def by (metis set_map)
  finally have K: "folder_keys ?db' = folder_keys db - {?k}"
    by (simp add: st folder_keys_def)
  have fmap: "map fl_id (map ?mv (files db)) = map fl_id (files db)" by simp
  have "files ?db' = map ?mv (files db)" by (simp add: st)
  then have FK: "file_keys ?db' = file_keys db"
    unfolding file_keys_def by (metis fmap set_map)
  have pf: "pred_option (\<lambda>p. p \<in> folder_keys db \<and> p < ?k) (fd_parent f)"
    using wf f by (simp add: wf_db_def list_all_iff)
  have par: "pred_option (\<lambda>p. p \<in> folder_keys db - {?k} \<and> p < fd_id g) (fd_parent g)"
    if g: "g \<in> set ?fs" for g
  proof -
    obtain g0 where g0: "g0 \<in> set (folders db)" "g = ?re g0" "fd_id g0 \<noteq> ?k"
      using g by auto
    have p0: "pred_option (\<lambda>p. p \<in> folder_keys db \<and> p < fd_id g0) (fd_parent g0)"
      using wf g0(1) by (simp add: wf_db_def list_all_iff)
    show ?thesis
    proof (cases "fd_parent g0 = Some ?k")
      case True
      with p0 have "?k < fd_id g0" by simp
      with pf True g0 show ?thesis by (cases "fd_parent f") auto
    next
      case False
      with p0 g0 show ?thesis by (cases "fd_parent g0") auto
    qed
  qed
  have fil: "pred_option (\<lambda>p. p \<in> folder_keys db - {?k}) (fl_folder (?mv x))"
    if x: "x \<in> set (files db)" for x
  proof -
    have "pred_option (\<lambda>p. p \<in> folder_keys db) (fl_folder x)"
      using wf x by (simp add: wf_db_def list_all_iff)
    with pf show ?thesis by (cases "fl_folder x"; cases "fd_parent f") auto
  qed
  have med: "t \<in> folder_keys db - {?k}"
    if "t \<in> set (map ml_target (filter (\<lambda>m. ml_target m \<noteq> ?k) (media_folders db)))" for t
    using that wf by (auto simp: wf_db_def list_all_iff)
  have "distinct (map fd_id (map ?re (folders db)))"
    using wf unfolding ids by (simp add: wf_db_def)
  then have "distinct (map fd_id ?fs)" by (rule distinct_map_filter)
  moreover have "distinct (map ml_target (filter (\<lambda>m. ml_target m \<noteq> ?k) (media_folders db)))"
    using wf by (simp add: wf_db_def)
  moreover have "list_all (\<lambda>g. fd_id g < next_folder_id db) ?fs"
    using wf by (auto simp: wf_db_def list_all_iff)
  moreover have "distinct (map fl_id (map ?mv (files db)))"
    using wf unfolding fmap by (simp add: wf_db_def)
  moreover have "list_all (\<lambda>x. fl_id x < next_file_id db) (map ?mv (files db))"
    using wf by (auto simp: wf_db_def list_all_iff)
  moreover have "list_all (\<lambda>g. pred_option (\<lambda>p. p \<in> folder_keys db - {?k} \<and> p < fd_id g) (fd_parent g)) ?fs"
    using par by (simp only: list_all_iff) blast
  moreover have "list_all (\<lambda>x. pred_option (\<lambda>p. p \<in> folder_keys db - {?k}) (fl_folder x)) (map ?mv (files db))"
    using fil by (simp only: list_all_iff set_map) blast
  moreover have "list_all (\<lambda>t. t \<in> folder_keys db - {?k}) (map ml_target (filter (\<lambda>m. ml_target m \<noteq> ?k) (media_folders db)))"
    using med by (simp only: list_all_iff) blast
  ultimately show ?thesis
    using wf unfolding wf_db_def K FK by (simp only: st media_db.simps) (simp add: list_all_iff)
qed

lemma wf_file_delete:
  assumes wf: "wf_db db" and del: "file_delete x db = Inr db'"
  shows "wf_db db'"
proof -
  have db': "db' = db\<lparr>files := filter (\<lambda>y. fl_id y \<noteq> fl_id x) (files db),
                   media_files := filter (\<lambda>m. ml_target m \<noteq> fl_id x) (media_files db)\<rparr>"
    using del by (simp add: file_delete_def split: if_splits)
  have "t \<in> fl_id ` set (filter (\<lambda>y. fl_id y \<noteq> fl_id x) (files db))"
    if "t \<in> set (map ml_target (filter (\<lambda>m. ml_target m \<noteq> fl_id x) (media_files db)))" for t
    using that wf by (auto simp: wf_db_def list_all_iff file_keys_def)
  with wf show ?thesis
    by (simp add: db' wf_db_def list_all_iff folder_keys_def file_keys_def)
qed

lemma wf_folder_get_or_create:
  assumes wf: "wf_db db" and par: "pred_option (\<lambda>q. q \<in> folder_keys db) p"
    and goc: "folder_get_or_create p n db = Inr ((f, created), db')"
  shows "wf_db db' \<and> f \<in> set (folders db') \<and> fd_parent f = p \<and> fd_name f = n
         \<and> folder_keys db \<subseteq> folder_keys db'"
proof (cases "filter (\<lambda>g. fd_parent g = p \<and> fd_name g = n) (folders db)")
  case Nil
  then have "folder_create n p db = (f, db')"
    using goc by (auto simp: folder_get_or_create_def split: prod.splits)
  with wf_folder_create [OF wf par] show ?thesis by auto
next
  case (Cons g gs)
  then have "gs = [] \<and> f = g \<and> db' = db"
    using goc by (auto simp: folder_get_or_create_def split: list.splits)
  moreover have "g \<in> set (filter (\<lambda>g. fd_parent g = p \<and> fd_name g = n) (folders db))"
    using Cons by simp
  ultimately show ?thesis using wf by auto
qed

section \<open>Fresh keys\<close>

lemma fd_id_filter_reparent:
  "fd_id ` set (filter (\<lambda>g. fd_id g \<noteq> k) (map (\<lambda>g. if P g then g\<lparr>fd_parent := q\<rparr> else g) xs))
   = fd_id ` set xs - {k}"
  by (induction xs) auto

lemma ensure_media_folder_fresh:
  "k \<notin> set (map ml_target (media_folders db)) \<Longrightarrow>
   media_folders (ensure_media_folder shop k db) = media_folders db @ [\<lparr>ml_target = k, ml_shops = {shop}\<rparr>]"
  by (auto simp: ensure_media_folder_def find_None_iff split: option.splits dest!: find_Some_in)

lemma ensure_media_file_fresh:
  "k \<notin> set (map ml_target (media_files db)) \<Longrightarrow>
   media_files (ensure_media_file shop k db) = media_files db @ [\<lparr>ml_target = k, ml_shops = {shop}\<rparr>]"
  by (auto simp: ensure_media_file_def find_None_iff split: option.splits dest!: find_Some_in)

lemma media_shops_append_fresh:
  "k \<notin> set (map ml_target ms) \<Longrightarrow> media_shops (ms @ [\<lparr>ml_target = k, ml_shops = S\<rparr>]) k = Some S"
  by (induction ms) (auto simp: media_shops_def)

lemma wf_next_folder_fresh:
  "wf_db db \<Longrightarrow> next_folder_id db \<notin> set (map ml_target (media_folders db))"
  using wf_folder_key_lt [of db "next_folder_id db"] by (auto simp: wf_db_def list_all_iff)

lemma wf_next_file_fresh:
  "wf_db db \<Longrightarrow> next_file_id db \<notin> set (map ml_target (media_files db))"
proof
  assume "wf_db db" and "next_file_id db \<in> set (map ml_target (media_files db))"
  then have "next_file_id db \<in> file_keys db" by (auto simp: wf_db_def list_all_iff)
  with \<open>wf_db db\<close> show False by (auto simp: wf_db_def file_keys_def list_all_iff)
qed

text \<open>What \<open>delete_folder_effect\<close> does to the files and the folder keys.\<close>

lemma delete_folder_files_kept:
  assumes "wf_db db" and "f \<in> set (folders db)"
  shows "map fl_id (files (snd (delete_folder_effect f db))) = map fl_id (files db)
       \<and> map fl_name (files (snd (delete_folder_effect f db))) = map fl_name (files db)
       \<and> list_all (\<lambda>x. fl_folder x \<noteq> Some (fd_id f)) (files (snd (delete_folder_effect f db)))
       \<and> folder_keys (snd (delete_folder_effect f db)) = folder_keys db - {fd_id f}"
proof -
  have "pred_option (\<lambda>q. q \<in> folder_keys db \<and> q < fd_id f) (fd_parent f)"
    using assms by (simp add: wf_db_def list_all_iff)
  then have np: "fd_parent f \<noteq> Some (fd_id f)" by auto
  have keys: "folder_keys (snd (delete_folder_effect f db)) = folder_keys db - {fd_id f}"
    unfolding delete_folder_state [OF assms] folder_keys_def
    by (simp del: set_filter add: fd_id_filter_reparent)
  have "list_all (\<lambda>x. fl_folder x \<noteq> Some (fd_id f)) (files (snd (delete_folder_effect f db)))"
    using np by (auto simp: delete_folder_state [OF assms] list_all_iff)
  with keys show ?thesis by (simp add: delete_folder_state [OF assms])
qed

section \<open>Shops added to an existing media row\<close>

lemma media_shops_map_insert:
  "media_shops (map (\<lambda>m. if ml_target m = k then m\<lparr>ml_shops := insert shop (ml_shops m)\<rparr> else m) ms) k
     = map_option (insert shop) (media_shops ms k)"
  by (induction ms) (auto simp: media_shops_def)

lemma media_shops_ensure_existing:
  assumes "media_shops (media_folders db) k = Some S"
  shows "media_shops (media_folders (ensure_media_folder shop k db)) k = Some (insert shop S)"
proof -
  have "find (\<lambda>m. ml_target m = k) (media_folders db) \<noteq> None"
    using assms by (auto simp: media_shops_def)
  then show ?thesis
    by (auto simp: ensure_media_folder_def media_shops_map_insert assms split: option.split)
qed

section \<open>When deleting a folder breaks the unique constraint\<close>

lemma subfolders_clash_iff:
  assumes wf: "wf_db db" and f: "f \<in> set (folders db)"
  shows "subfolders_clash f db \<longleftrightarrow>
           fd_parent f \<noteq> None
         \<and> (\<exists>s \<in> set (folders db). fd_parent s = Some (fd_id f)
              \<and> (\<exists>g \<in> set (folders db). fd_id g \<noteq> fd_id s
                    \<and> (fd_parent g = fd_parent f \<or> fd_parent g = Some (fd_id f)) \<and> fd_name g = fd_name s))"
proof -
  have "pred_option (\<lambda>p. p \<in> folder_keys db) (fd_parent f)"
    using wf f by (auto simp: wf_db_def list_all_iff elim: option.pred_mono_strong)
  then have "map_option fd_id (folder_by_id db (fd_parent f)) = fd_parent f"
    by (rule folder_by_id_key [OF wf])
  then show ?thesis by (simp add: subfolders_clash_def list_ex_iff Let_def)
qed

end
