(* ===== verification/Media_Handlers.thy ===== *)
theory Media_Handlers
  imports Media_Store
begin

text \<open>
  The JSON handlers of \<open>MediaBrowserView\<close> (\<open>src/shuup/admin/modules/media/views.py\<close>):
  \<open>handle_get_folder\<close> and the five \<open>handle_post_*\<close> methods that change the media
  tables. Each takes the shop of the request (\<open>get_shop(self.request)\<close>), the
  setting \<open>SHUUP_ENABLE_MULTIPLE_SHOPS\<close> (\<open>multi\<close>), the request data and the
  database, and returns the \<open>JsonResponse\<close> with the database after it, or the
  exception it raises. The response dictionaries of filer's objects
  (\<open>filer_folder_to_json_dict\<close>, \<open>filer_file_to_json_dict\<close>) are modelled by their
  identifying fields.
\<close>

section \<open>Responses\<close>

record json_response =
  status :: nat
  body :: jdict

definition JsonResponse :: "jdict \<Rightarrow> nat \<Rightarrow> json_response" where
  "JsonResponse d st = \<lparr>status = st, body = d\<rparr>"

definition apos :: char where
  "apos = CHR 0x27"

definition filer_folder_to_json_dict :: "folder_row option \<Rightarrow> jval" where
  "filer_folder_to_json_dict folder =
     JObj [(''id'', JInt (case folder of None \<Rightarrow> 0 | Some f \<Rightarrow> int (fd_id f))),
           (''name'', JStr (get_folder_name folder)),
           (''children'', JList [])]"

definition filer_file_to_json_dict :: "file_row \<Rightarrow> jval" where
  "filer_file_to_json_dict file = JObj [(''id'', JInt (int (fl_id file))), (''name'', JStr (fl_name file))]"

definition success_response :: "bool \<Rightarrow> string \<Rightarrow> json_response" where
  "success_response ok msg = JsonResponse [(''success'', JBool ok), (''message'', JStr msg)] 200"

type_synonym post_handler = "bool \<Rightarrow> shop \<Rightarrow> jdict \<Rightarrow> media_db \<Rightarrow> exc + json_response \<times> media_db"

section \<open>Browsing a folder\<close>

text \<open>
  The \<open>try\<close> block of \<open>handle_get_folder\<close>: the folder, its visible subfolders and
  the visible files in it; folder \<open>0\<close> is the root.
\<close>

definition get_folder_contents ::
  "shop \<Rightarrow> int \<Rightarrow> media_db \<Rightarrow> exc + folder_row option \<times> folder_row list \<times> file_row list" where
  "get_folder_contents shop folder_id db =
     (if folder_id \<noteq> 0 then
        ebind (qs_get ''Folder'' fd_id (get_folder_query shop db None) (Some folder_id)) (\<lambda>folder.
          Inr (Some folder,
               filter (\<lambda>g. fd_parent g = Some (fd_id folder) \<and> get_folder_query_filter shop db g) (folders db),
               get_file_query shop db (Some folder)))
      else Inr (None,
                filter (\<lambda>g. fd_parent g = None) (get_folder_query shop db None),
                filter (\<lambda>x. fl_folder x = None) (get_file_query shop db None)))"

definition handle_get_folder :: "jval option \<Rightarrow> shop \<Rightarrow> jdict \<Rightarrow> media_db \<Rightarrow> exc + json_response" where
  "handle_get_folder filt shop data db =
     ebind (py_int (dict_get_default data ''id'' (JInt 0))) (\<lambda>folder_id.
       case get_folder_contents shop folder_id db of
         Inl (DoesNotExist m) \<Rightarrow>
           Inr (JsonResponse [(''folder'', JNull), (''error'', JStr ''Error! Folder does not exist.'')] 200)
       | Inl e \<Rightarrow> Inl e
       | Inr (folder, subfolders, fs) \<Rightarrow>
           (let fs = (if filt = Some (JStr ''images'') then filter fl_is_image fs else fs)
            in Inr (JsonResponse [(''folder'', JObj
                  [(''id'', JInt (case folder of None \<Rightarrow> 0 | Some f \<Rightarrow> int (fd_id f))),
                   (''name'', JStr (get_folder_name folder)),
                   (''files'', JList (map filer_file_to_json_dict (filter fl_is_public fs))),
                   (''folders'', JList (map (\<lambda>s. filer_folder_to_json_dict (Some s))
                                          (sort_key fd_name subfolders)))])] 200)))"

section \<open>The POST handlers\<close>

definition handle_post_new_folder :: post_handler where
  "handle_post_new_folder multi shop data db =
     ebind (py_int (dict_get_default data ''parent'' (JInt 0))) (\<lambda>parent_id.
     ebind (if 0 < parent_id
            then map_sum id Some (qs_get ''Folder'' fd_id (get_folder_query shop db None) (Some parent_id))
            else Inr None) (\<lambda>parent.
     ebind (dict_index data ''name'') (\<lambda>name. ebind (folder_name_value name) (\<lambda>nm.
       (let (folder, db1) = folder_create nm None db
        in ebind (case parent of Some p \<Rightarrow> folder_move_to folder p db1 | None \<Rightarrow> Inr (folder, db1))
             (\<lambda>(folder, db2).
                Inr (JsonResponse [(''success'', JBool True),
                                   (''folder'', filer_folder_to_json_dict (Some folder))] 200,
                     ensure_media_folder shop (fd_id folder) db2)))))))"

definition handle_post_rename_folder :: post_handler where
  "handle_post_rename_folder multi shop data db =
     ebind (dict_index data ''id'') (\<lambda>v. ebind (pk_value v) (\<lambda>pk.
     ebind (qs_get ''Folder'' fd_id (get_folder_query shop db None) pk) (\<lambda>folder.
       if is_folder_shared multi db folder
       then Inr (success_response False (''Can'' @ apos # ''t rename a shared folder.''), db)
       else ebind (dict_index data ''name'') (\<lambda>name. ebind (folder_name_value name) (\<lambda>nm.
              if folder_name_taken db (fd_id folder) (fd_parent folder) nm then Inl unique_folder_error
              else Inr (success_response True ''Folder was renamed.'',
                        update_folder (fd_id folder) (\<lambda>f. f\<lparr>fd_name := nm\<rparr>) db))))))"

definition handle_post_delete_folder :: post_handler where
  "handle_post_delete_folder multi shop data db =
     ebind (dict_index data ''id'') (\<lambda>v. ebind (pk_value v) (\<lambda>pk.
     ebind (qs_get ''Folder'' fd_id (get_folder_query shop db None) pk) (\<lambda>folder.
       if is_folder_shared multi db folder
       then Inr (success_response False (''Can'' @ apos # ''t delete a shared folder.''), db)
       else (let new_selected_folder_id = fd_parent folder
             in ebind (delete_folder folder db) (\<lambda>(message, db').
                  Inr (JsonResponse [(''success'', JBool True), (''message'', JStr message),
                         (''newFolderId'', case new_selected_folder_id of None \<Rightarrow> JNull
                                            | Some k \<Rightarrow> JInt (int k))] 200, db'))))))"

definition handle_post_rename_file :: post_handler where
  "handle_post_rename_file multi shop data db =
     ebind (dict_index data ''id'') (\<lambda>v. ebind (pk_value v) (\<lambda>pk.
     ebind (qs_get ''File'' fl_id (get_file_query shop db None) pk) (\<lambda>file.
       if is_file_shared multi db file
       then Inr (success_response False ''Can not rename a shared file.'', db)
       else ebind (dict_index data ''name'') (\<lambda>name.
              Inr (success_response True ''File was renamed.'',
                   update_file (fl_id file) (\<lambda>x. x\<lparr>fl_name := py_str name\<rparr>) db)))))"

definition handle_post_delete_file :: post_handler where
  "handle_post_delete_file multi shop data db =
     ebind (dict_index data ''id'') (\<lambda>v. ebind (pk_value v) (\<lambda>pk.
     ebind (qs_get ''File'' fl_id (get_file_query shop db None) pk) (\<lambda>file.
       if is_file_shared multi db file
       then Inr (success_response False ''Can not delete a shared file.'', db)
       else (case file_delete file db of
               Inl ie \<Rightarrow> Inl (Problem (exc_str ie))
             | Inr db' \<Rightarrow> Inr (success_response True ''File was deleted.'', db')))))"

definition handle_post_move_file :: post_handler where
  "handle_post_move_file multi shop data db =
     ebind (dict_index data ''file_id'') (\<lambda>v. ebind (pk_value v) (\<lambda>pk.
     ebind (qs_get ''File'' fl_id (get_file_query shop db None) pk) (\<lambda>file.
       if is_file_shared multi db file
       then Inr (success_response False (''Can'' @ apos # ''t move a shared file.''), db)
       else ebind (dict_index data ''folder_id'') (\<lambda>fv. ebind (py_int fv) (\<lambda>folder_id.
            ebind (if folder_id \<noteq> 0
                   then ebind (pk_value fv) (\<lambda>pk'.
                          map_sum id Some (qs_get ''Folder'' fd_id (get_folder_query shop db None) pk'))
                   else Inr None) (\<lambda>folder.
              (let old_folder = folder_by_id db (fl_folder file);
                   db' = update_file (fl_id file) (\<lambda>x. x\<lparr>fl_folder := map_option fd_id folder\<rparr>) db
               in Inr (success_response True (fl_name file @ '' moved from '' @ get_folder_name old_folder
                                             @ '' to '' @ get_folder_name folder @ ''.''), db'))))))))"

section \<open>What the lookups return\<close>

lemma get_folder_query_in:
  "f \<in> set (get_folder_query shop db None) \<longleftrightarrow> f \<in> set (folders db) \<and> get_folder_query_filter shop db f"
  by (simp add: get_folder_query_def)

lemma get_file_query_in:
  "x \<in> set (get_file_query shop db None) \<longleftrightarrow> x \<in> set (files db) \<and> file_query_filter shop db x"
  by (simp add: get_file_query_def)

lemma lookup_folder_visible:
  assumes wf: "wf_db db" and q: "qs_get m fd_id (get_folder_query shop db None) pk = Inr f"
  shows "f \<in> set (folders db) \<and> pk = Some (int (fd_id f))
         \<and> visible_to shop (media_shops (media_folders db) (fd_id f))"
  using qs_get_Inr [OF q] folder_filter_visible [OF wf] by (simp add: get_folder_query_in)

lemma lookup_file_visible:
  assumes wf: "wf_db db" and q: "qs_get m fl_id (get_file_query shop db None) pk = Inr x"
  shows "x \<in> set (files db) \<and> pk = Some (int (fl_id x)) \<and> fl_is_public x
         \<and> visible_to shop (media_shops (media_files db) (fl_id x))"
  using qs_get_Inr [OF q] file_filter_visible [OF wf] by (simp add: get_file_query_in)

text \<open>A folder the shop looked up and found unshared is the shop's own folder.\<close>

lemma lookup_folder_owned:
  assumes "wf_db db" and "qs_get m fd_id (get_folder_query shop db None) pk = Inr f"
    and "multi" and "\<not> is_folder_shared multi db f"
  shows "media_shops (media_folders db) (fd_id f) = Some {shop}"
  using assms lookup_folder_visible [OF assms(1,2)] visible_unshared_owned
  by (simp add: is_folder_shared_eq)

lemma lookup_file_owned:
  assumes "wf_db db" and "qs_get m fl_id (get_file_query shop db None) pk = Inr x"
    and "multi" and "\<not> is_file_shared multi db x"
  shows "media_shops (media_files db) (fl_id x) = Some {shop}"
  using assms lookup_file_visible [OF assms(1,2)] visible_unshared_owned
  by (simp add: is_file_shared_eq)

lemma lookup_folder_found:
  assumes "wf_db db" and "f \<in> set (folders db)" and "get_folder_query_filter shop db f"
  shows "qs_get m fd_id (get_folder_query shop db None) (Some (int (fd_id f))) = Inr f"
proof (rule qs_get_distinct)
  show "distinct (map fd_id (get_folder_query shop db None))"
    using assms(1) by (simp add: get_folder_query_def wf_db_def distinct_map_filter)
  show "f \<in> set (get_folder_query shop db None)" using assms(2,3) by (simp add: get_folder_query_in)
qed

lemma lookup_file_found:
  assumes "wf_db db" and "x \<in> set (files db)" and "file_query_filter shop db x"
  shows "qs_get m fl_id (get_file_query shop db None) (Some (int (fl_id x))) = Inr x"
proof (rule qs_get_distinct)
  show "distinct (map fl_id (get_file_query shop db None))"
    using assms(1) by (simp add: get_file_query_def wf_db_def distinct_map_filter)
  show "x \<in> set (get_file_query shop db None)" using assms(2,3) by (simp add: get_file_query_in)
qed

lemma folder_row_key: "f \<in> set (folders db) \<Longrightarrow> fd_id f \<in> folder_keys db"
  by (simp add: folder_keys_def)

lemma file_row_key: "x \<in> set (files db) \<Longrightarrow> fl_id x \<in> file_keys db"
  by (simp add: file_keys_def)

section \<open>Each handler keeps the invariant\<close>

lemma new_folder_cases:
  assumes "handle_post_new_folder multi shop data db = Inr (r, db')"
  shows "\<exists>nm. db' = ensure_media_folder shop (next_folder_id db) (snd (folder_create nm None db))
    \<or> (\<exists>p \<in> set (get_folder_query shop db None).
          db' = ensure_media_folder shop (next_folder_id db)
                  (update_folder (next_folder_id db) (\<lambda>g. g\<lparr>fd_parent := Some (fd_id p)\<rparr>)
                     (snd (folder_create nm None db))))"
  using assms unfolding handle_post_new_folder_def
  by (auto simp: ebind_eq_Inr folder_create_def folder_move_to_def Let_def map_sum_def
      split: if_splits sum.splits option.splits dest: qs_get_Inr)

lemma wf_new_folder:
  assumes wf: "wf_db db" and h: "handle_post_new_folder multi shop data db = Inr (r, db')"
  shows "wf_db db'"
proof -
  obtain nm where db': "db' = ensure_media_folder shop (next_folder_id db) (snd (folder_create nm None db))
    \<or> (\<exists>p \<in> set (get_folder_query shop db None).
          db' = ensure_media_folder shop (next_folder_id db)
                  (update_folder (next_folder_id db) (\<lambda>g. g\<lparr>fd_parent := Some (fd_id p)\<rparr>)
                     (snd (folder_create nm None db))))"
    using new_folder_cases [OF h] by blast
  obtain f db1 where cr: "folder_create nm None db = (f, db1)" by fastforce
  from wf_folder_create [OF wf _ cr] have c1: "wf_db db1" "fd_id f = next_folder_id db"
    "folder_keys db1 = insert (fd_id f) (folder_keys db)" by auto
  from db' show ?thesis
  proof (elim disjE bexE)
    assume "db' = ensure_media_folder shop (next_folder_id db) (snd (folder_create nm None db))"
    with cr c1 show ?thesis by (simp add: wf_ensure_media_folder)
  next
    fix p
    assume par: "p \<in> set (get_folder_query shop db None)"
      and d: "db' = ensure_media_folder shop (next_folder_id db)
                  (update_folder (next_folder_id db) (\<lambda>g. g\<lparr>fd_parent := Some (fd_id p)\<rparr>)
                     (snd (folder_create nm None db)))"
    from par have p: "p \<in> set (folders db)" by (simp add: get_folder_query_in)
    then have pk: "fd_id p \<in> folder_keys db1" "fd_id p < fd_id f"
      using c1 wf_folder_key_lt [OF wf] folder_row_key [OF p] by auto
    have "wf_db (update_folder (fd_id f) (\<lambda>g. g\<lparr>fd_parent := Some (fd_id p)\<rparr>) db1)"
      by (rule wf_folder_move_to [OF c1(1) pk])
    moreover have "next_folder_id db \<in> folder_keys (update_folder (fd_id f) (\<lambda>g. g\<lparr>fd_parent := Some (fd_id p)\<rparr>) db1)"
      using c1 by simp
    ultimately show ?thesis using d cr c1 by (simp add: wf_ensure_media_folder)
  qed
qed

lemma rename_folder_cases:
  assumes "handle_post_rename_folder multi shop data db = Inr (r, db')"
  shows "db' = db \<or> (\<exists>pk f n. qs_get ''Folder'' fd_id (get_folder_query shop db None) pk = Inr f
            \<and> \<not> is_folder_shared multi db f \<and> db' = update_folder (fd_id f) (\<lambda>g. g\<lparr>fd_name := n\<rparr>) db)"
  using assms unfolding handle_post_rename_folder_def
  by (auto simp: ebind_eq_Inr split: if_splits)

lemma delete_folder_cases:
  assumes "handle_post_delete_folder multi shop data db = Inr (r, db')"
  shows "db' = db \<or> (\<exists>pk f. qs_get ''Folder'' fd_id (get_folder_query shop db None) pk = Inr f
            \<and> \<not> is_folder_shared multi db f \<and> db' = snd (delete_folder_effect f db))"
  using assms unfolding handle_post_delete_folder_def
  by (auto simp: ebind_eq_Inr Let_def split_beta delete_folder_def split: if_splits) (metis snd_conv)

lemma rename_file_cases:
  assumes "handle_post_rename_file multi shop data db = Inr (r, db')"
  shows "db' = db \<or> (\<exists>pk x n. qs_get ''File'' fl_id (get_file_query shop db None) pk = Inr x
            \<and> \<not> is_file_shared multi db x \<and> db' = update_file (fl_id x) (\<lambda>y. y\<lparr>fl_name := n\<rparr>) db)"
  using assms unfolding handle_post_rename_file_def
  by (auto simp: ebind_eq_Inr split: if_splits)

lemma delete_file_cases:
  assumes "handle_post_delete_file multi shop data db = Inr (r, db')"
  shows "db' = db \<or> (\<exists>pk x. qs_get ''File'' fl_id (get_file_query shop db None) pk = Inr x
            \<and> \<not> is_file_shared multi db x \<and> file_delete x db = Inr db')"
  using assms unfolding handle_post_delete_file_def
  by (auto simp: ebind_eq_Inr split: if_splits sum.splits)

lemma move_file_cases:
  assumes "handle_post_move_file multi shop data db = Inr (r, db')"
  shows "db' = db \<or> (\<exists>pk x. qs_get ''File'' fl_id (get_file_query shop db None) pk = Inr x
            \<and> \<not> is_file_shared multi db x
            \<and> (db' = update_file (fl_id x) (\<lambda>y. y\<lparr>fl_folder := None\<rparr>) db
               \<or> (\<exists>p \<in> set (get_folder_query shop db None).
                     db' = update_file (fl_id x) (\<lambda>y. y\<lparr>fl_folder := Some (fd_id p)\<rparr>) db)))"
  using assms unfolding handle_post_move_file_def
  by (auto simp: ebind_eq_Inr map_sum_Some_eq_Inr Let_def split: if_splits) (metis qs_get_Inr)+

lemma wf_handle_rename_folder:
  "wf_db db \<Longrightarrow> handle_post_rename_folder multi shop data db = Inr (r, db') \<Longrightarrow> wf_db db'"
  by (auto dest!: rename_folder_cases intro: wf_rename_folder)

lemma wf_handle_delete_folder:
  "wf_db db \<Longrightarrow> handle_post_delete_folder multi shop data db = Inr (r, db') \<Longrightarrow> wf_db db'"
  by (auto dest!: delete_folder_cases intro!: wf_delete_folder dest: lookup_folder_visible)

lemma wf_handle_rename_file:
  "wf_db db \<Longrightarrow> handle_post_rename_file multi shop data db = Inr (r, db') \<Longrightarrow> wf_db db'"
  by (auto dest!: rename_file_cases intro: wf_rename_file)

lemma wf_handle_delete_file:
  "wf_db db \<Longrightarrow> handle_post_delete_file multi shop data db = Inr (r, db') \<Longrightarrow> wf_db db'"
  by (auto dest!: delete_file_cases intro: wf_file_delete)

lemma wf_handle_move_file:
  "wf_db db \<Longrightarrow> handle_post_move_file multi shop data db = Inr (r, db') \<Longrightarrow> wf_db db'"
  by (drule move_file_cases) (auto simp: get_folder_query_in intro!: wf_move_file folder_row_key)

section \<open>Tenant isolation of the handlers\<close>

text \<open>
  An object is the shop's own when its media row names exactly that shop.
  \<open>foreign_intact shop db db'\<close>: every folder and every file of \<open>db\<close> that is not
  the shop's own is still in \<open>db'\<close>, under the same key and name.
\<close>

definition owned_folder :: "shop \<Rightarrow> media_db \<Rightarrow> nat \<Rightarrow> bool" where
  "owned_folder shop db k = (media_shops (media_folders db) k = Some {shop})"

definition owned_file :: "shop \<Rightarrow> media_db \<Rightarrow> nat \<Rightarrow> bool" where
  "owned_file shop db k = (media_shops (media_files db) k = Some {shop})"

definition foreign_intact :: "shop \<Rightarrow> media_db \<Rightarrow> media_db \<Rightarrow> bool" where
  "foreign_intact shop db db' \<longleftrightarrow>
     list_all (\<lambda>f. owned_folder shop db (fd_id f)
                   \<or> list_ex (\<lambda>g. fd_id g = fd_id f \<and> fd_name g = fd_name f) (folders db')) (folders db)
   \<and> list_all (\<lambda>x. owned_file shop db (fl_id x)
                   \<or> list_ex (\<lambda>y. fl_id y = fl_id x \<and> fl_name y = fl_name x) (files db')) (files db)"

lemma foreign_intact_refl: "foreign_intact shop db db"
  by (auto simp: foreign_intact_def list_all_iff list_ex_iff)

lemma foreign_intact_names:
  assumes "\<forall>f \<in> set (folders db). \<exists>g \<in> set (folders db'). fd_id g = fd_id f \<and> fd_name g = fd_name f"
    and "\<forall>x \<in> set (files db). \<exists>y \<in> set (files db'). fl_id y = fl_id x \<and> fl_name y = fl_name x"
  shows "foreign_intact shop db db'"
  using assms by (auto simp: foreign_intact_def list_all_iff list_ex_iff)

lemma foreign_intact_update_folder:
  assumes ids: "\<And>f. fd_id (g f) = fd_id f" and own: "owned_folder shop db k \<or> (\<forall>f. fd_name (g f) = fd_name f)"
  shows "foreign_intact shop db (update_folder k g db)"
proof -
  have "owned_folder shop db (fd_id f) \<or>
        (\<exists>f' \<in> set (folders (update_folder k g db)). fd_id f' = fd_id f \<and> fd_name f' = fd_name f)"
    if f: "f \<in> set (folders db)" for f
  proof (cases "fd_id f = k \<and> owned_folder shop db k")
    case True then show ?thesis by simp
  next
    case False
    let ?h = "\<lambda>f. if fd_id f = k then g f else f"
    have "?h f \<in> set (folders (update_folder k g db))"
      using f by (simp add: folders_update_folder)
    moreover have "fd_id (?h f) = fd_id f \<and> fd_name (?h f) = fd_name f"
      using False own ids by auto
    ultimately show ?thesis by blast
  qed
  then show ?thesis
    by (auto simp: foreign_intact_def list_all_iff list_ex_iff)
qed

lemma foreign_intact_update_file:
  assumes ids: "\<And>x. fl_id (g x) = fl_id x" and own: "owned_file shop db k \<or> (\<forall>x. fl_name (g x) = fl_name x)"
  shows "foreign_intact shop db (update_file k g db)"
proof -
  have "owned_file shop db (fl_id x) \<or>
        (\<exists>x' \<in> set (files (update_file k g db)). fl_id x' = fl_id x \<and> fl_name x' = fl_name x)"
    if x: "x \<in> set (files db)" for x
  proof (cases "fl_id x = k \<and> owned_file shop db k")
    case True then show ?thesis by simp
  next
    case False
    let ?h = "\<lambda>x. if fl_id x = k then g x else x"
    have "?h x \<in> set (files (update_file k g db))"
      using x by (simp add: files_update_file)
    moreover have "fl_id (?h x) = fl_id x \<and> fl_name (?h x) = fl_name x"
      using False own ids by auto
    ultimately show ?thesis by blast
  qed
  then show ?thesis
    by (auto simp: foreign_intact_def list_all_iff list_ex_iff)
qed

lemma keeps_name_map_if:
  assumes "\<And>y. key (g y) = key y" "\<And>y. nm (g y) = nm y" "x \<in> set xs"
  shows "\<exists>y \<in> set (map (\<lambda>y. if P y then g y else y) xs). key y = key x \<and> nm y = nm x"
  by (rule bexI [of _ "if P x then g x else x"]) (use assms in auto)

lemma update_folder_keeps_names:
  assumes "\<And>f. fd_id (g f) = fd_id f" "\<And>f. fd_name (g f) = fd_name f" "f \<in> set (folders db)"
  shows "\<exists>f' \<in> set (folders (update_folder k g db)). fd_id f' = fd_id f \<and> fd_name f' = fd_name f"
  unfolding folders_update_folder by (rule keeps_name_map_if) (use assms in auto)

lemma intact_new_folder:
  assumes h: "handle_post_new_folder multi shop data db = Inr (r, db')"
  shows "foreign_intact shop db db'"
proof -
  obtain nm where db': "db' = ensure_media_folder shop (next_folder_id db) (snd (folder_create nm None db))
    \<or> (\<exists>p \<in> set (get_folder_query shop db None).
          db' = ensure_media_folder shop (next_folder_id db)
                  (update_folder (next_folder_id db) (\<lambda>g. g\<lparr>fd_parent := Some (fd_id p)\<rparr>)
                     (snd (folder_create nm None db))))"
    using new_folder_cases [OF h] by blast
  let ?db1 = "snd (folder_create nm None db)"
  have f1: "set (folders db) \<subseteq> set (folders ?db1)" "files ?db1 = files db"
    by (auto simp: folder_create_def Let_def)
  have "(\<exists>g \<in> set (folders db'). fd_id g = fd_id f \<and> fd_name g = fd_name f) \<and> files db' = files db"
    if f: "f \<in> set (folders db)" for f
    using db'
  proof (elim disjE bexE)
    assume "db' = ensure_media_folder shop (next_folder_id db) ?db1"
    with f f1 show ?thesis by (auto simp: ensure_media_folder_fields)
  next
    fix p
    assume d: "db' = ensure_media_folder shop (next_folder_id db)
                  (update_folder (next_folder_id db) (\<lambda>g. g\<lparr>fd_parent := Some (fd_id p)\<rparr>) ?db1)"
    from f f1 have f': "f \<in> set (folders ?db1)" by auto
    show ?thesis using update_folder_keeps_names [OF _ _ f'] f1 by (simp add: d ensure_media_folder_fields)
  qed
  moreover have "files db' = files db"
    using db' f1 by (auto simp: ensure_media_folder_fields)
  ultimately show ?thesis by (intro foreign_intact_names) auto
qed

lemma intact_rename_folder:
  assumes wf: "wf_db db" and m: "multi" and h: "handle_post_rename_folder multi shop data db = Inr (r, db')"
  shows "foreign_intact shop db db'"
  using rename_folder_cases [OF h]
proof (elim disjE exE conjE)
  assume "db' = db" then show ?thesis by (simp add: foreign_intact_refl)
next
  fix pk f n
  assume q: "qs_get ''Folder'' fd_id (get_folder_query shop db None) pk = Inr f"
    and ns: "\<not> is_folder_shared multi db f" and db': "db' = update_folder (fd_id f) (\<lambda>g. g\<lparr>fd_name := n\<rparr>) db"
  have "owned_folder shop db (fd_id f)"
    using lookup_folder_owned [OF wf q m ns] by (simp add: owned_folder_def)
  then show ?thesis unfolding db' by (intro foreign_intact_update_folder) auto
qed

lemma intact_rename_file:
  assumes wf: "wf_db db" and m: "multi" and h: "handle_post_rename_file multi shop data db = Inr (r, db')"
  shows "foreign_intact shop db db'"
  using rename_file_cases [OF h]
proof (elim disjE exE conjE)
  assume "db' = db" then show ?thesis by (simp add: foreign_intact_refl)
next
  fix pk x n
  assume q: "qs_get ''File'' fl_id (get_file_query shop db None) pk = Inr x"
    and ns: "\<not> is_file_shared multi db x" and db': "db' = update_file (fl_id x) (\<lambda>y. y\<lparr>fl_name := n\<rparr>) db"
  have "owned_file shop db (fl_id x)"
    using lookup_file_owned [OF wf q m ns] by (simp add: owned_file_def)
  then show ?thesis unfolding db' by (intro foreign_intact_update_file) auto
qed

lemma intact_move_file:
  assumes h: "handle_post_move_file multi shop data db = Inr (r, db')"
  shows "foreign_intact shop db db'"
  using move_file_cases [OF h]
  by (auto simp: foreign_intact_refl intro!: foreign_intact_update_file)

lemma intact_delete_folder:
  assumes wf: "wf_db db" and m: "multi" and h: "handle_post_delete_folder multi shop data db = Inr (r, db')"
  shows "foreign_intact shop db db'"
  using delete_folder_cases [OF h]
proof (elim disjE exE conjE)
  assume "db' = db" then show ?thesis by (simp add: foreign_intact_refl)
next
  fix pk f
  assume q: "qs_get ''Folder'' fd_id (get_folder_query shop db None) pk = Inr f"
    and ns: "\<not> is_folder_shared multi db f" and db': "db' = snd (delete_folder_effect f db)"
  have own: "owned_folder shop db (fd_id f)"
    using lookup_folder_owned [OF wf q m ns] by (simp add: owned_folder_def)
  have fin: "f \<in> set (folders db)" using lookup_folder_visible [OF wf q] by simp
  have "owned_folder shop db (fd_id g) \<or>
        (\<exists>g' \<in> set (folders db'). fd_id g' = fd_id g \<and> fd_name g' = fd_name g)"
    if g: "g \<in> set (folders db)" for g
  proof (cases "fd_id g = fd_id f")
    case True with own show ?thesis by simp
  next
    case False
    let ?re = "\<lambda>h. if fd_parent h = Some (fd_id f) then h\<lparr>fd_parent := fd_parent f\<rparr> else h"
    have "\<exists>y \<in> set (map ?re (folders db)). fd_id y = fd_id g \<and> fd_name y = fd_name g"
      by (rule keeps_name_map_if) (use g in auto)
    then obtain y where y: "y \<in> set (map ?re (folders db))" "fd_id y = fd_id g" "fd_name y = fd_name g"
      by blast
    have "folders db' = filter (\<lambda>h. fd_id h \<noteq> fd_id f) (map ?re (folders db))"
      by (simp add: db' delete_folder_state [OF wf fin])
    with y False show ?thesis by auto
  qed
  moreover have "\<exists>y \<in> set (files db'). fl_id y = fl_id x \<and> fl_name y = fl_name x"
    if x: "x \<in> set (files db)" for x
  proof -
    have "files db' = map (\<lambda>x. if fl_folder x = Some (fd_id f) then x\<lparr>fl_folder := fd_parent f\<rparr> else x)
                        (files db)"
      by (simp add: db' delete_folder_state [OF wf fin])
    then show ?thesis by (simp only:) (rule keeps_name_map_if, use x in auto)
  qed
  ultimately show ?thesis by (auto simp: foreign_intact_def list_all_iff list_ex_iff)
qed

lemma intact_delete_file:
  assumes wf: "wf_db db" and m: "multi" and h: "handle_post_delete_file multi shop data db = Inr (r, db')"
  shows "foreign_intact shop db db'"
  using delete_file_cases [OF h]
proof (elim disjE exE conjE)
  assume "db' = db" then show ?thesis by (simp add: foreign_intact_refl)
next
  fix pk x
  assume q: "qs_get ''File'' fl_id (get_file_query shop db None) pk = Inr x"
    and ns: "\<not> is_file_shared multi db x" and del: "file_delete x db = Inr db'"
  have own: "owned_file shop db (fl_id x)"
    using lookup_file_owned [OF wf q m ns] by (simp add: owned_file_def)
  have db': "db' = db\<lparr>files := filter (\<lambda>y. fl_id y \<noteq> fl_id x) (files db),
                   media_files := filter (\<lambda>m. ml_target m \<noteq> fl_id x) (media_files db)\<rparr>"
    using del by (simp add: file_delete_def split: if_splits)
  show ?thesis
    unfolding foreign_intact_def db' using own by (force simp: list_all_iff list_ex_iff)
qed

end
