(* ===== verification/Media_Upload.thy ===== *)
theory Media_Upload
  imports Media_Handlers
begin

text \<open>
  The upload path of the media browser (\<open>src/shuup/admin/modules/media/views.py\<close>):
  \<open>get_or_create_folder\<close>, which walks a slash-separated path creating the missing
  folders, \<open>_process_form\<close>, which validates the uploaded file against filer's image
  and file forms and stores it, and \<open>media_upload\<close>, which resolves the target folder
  from \<open>folder_id\<close> or \<open>path\<close> and hands over to \<open>_process_form\<close>. Unlike the JSON
  handlers, these catch every exception themselves and answer with an error
  response; the folders \<open>get_or_create_folder\<close> created before an exception stay
  in the database, so the model returns the database beside the outcome.
\<close>

section \<open>Resolving a folder path\<close>

text \<open>The loop of \<open>get_or_create_folder\<close>: \<open>parent\<close> and \<open>child\<close> are the loop variables.\<close>

fun goc_loop ::
  "shop \<Rightarrow> string list \<Rightarrow> folder_row option \<Rightarrow> folder_row option \<Rightarrow> media_db
   \<Rightarrow> (exc + folder_row option) \<times> media_db" where
  "goc_loop shop [] parent child db = (Inr child, db)"
| "goc_loop shop (folder # rest) parent child db =
     (if folder \<noteq> [] then
        (case folder_get_or_create (map_option fd_id parent) folder db of
           Inl e \<Rightarrow> (Inl e, db)
         | Inr ((child, created), db1) \<Rightarrow>
             goc_loop shop rest (Some child) (Some child) (ensure_media_folder shop (fd_id child) db1))
      else goc_loop shop rest parent child db)"

definition get_or_create_folder :: "shop \<Rightarrow> string \<Rightarrow> media_db \<Rightarrow> (exc + folder_row option) \<times> media_db" where
  "get_or_create_folder shop path db = goc_loop shop (py_split CHR ''/'' path) None None db"

section \<open>Validating and storing the upload\<close>

text \<open>An uploaded file as Django sees it: name, declared content type, size, and
  whether Pillow can open it as an image.\<close>

record uploaded_file =
  up_name :: string
  up_content_type :: string
  up_size :: nat
  up_is_image :: bool

record upload_request =
  ur_post :: jdict
  ur_get :: jdict
  ur_file :: "uploaded_file option"

text \<open>\<open>UploadImageForm\<close> (an \<open>ImageField\<close>) and \<open>UploadFileForm\<close> (a \<open>FileField\<close>).\<close>

definition image_form_valid :: "uploaded_file \<Rightarrow> bool" where
  "image_form_valid u = (0 < up_size u \<and> up_is_image u)"

definition file_form_valid :: "uploaded_file \<Rightarrow> bool" where
  "file_form_valid u = (0 < up_size u)"

definition image_form_errors :: "uploaded_file \<Rightarrow> jval" where
  "image_form_errors u = JObj [(''file'', JList [JStr (if up_size u = 0 then ''The submitted file is empty.''
     else ''Upload a valid image. The file you uploaded was either not an image or a corrupted image.'')])]"

definition file_form_errors :: jval where
  "file_form_errors = JObj [(''file'', JList [JStr ''The submitted file is empty.''])]"

text \<open>\<open>filer_image_from_upload\<close> and \<open>filer_file_from_upload\<close>: a new public filer
  file (an \<open>Image\<close> for the first) in the folder.\<close>

definition filer_from_upload :: "bool \<Rightarrow> folder_row option \<Rightarrow> uploaded_file \<Rightarrow> media_db \<Rightarrow> file_row \<times> media_db" where
  "filer_from_upload is_image folder u db =
     (let x = \<lparr>fl_id = next_file_id db, fl_name = up_name u, fl_folder = map_option fd_id folder,
               fl_is_public = True, fl_is_image = is_image\<rparr>
      in (x, db\<lparr>files := files db @ [x], next_file_id := Suc (next_file_id db)\<rparr>))"

definition upload_stored :: "shop \<Rightarrow> folder_row option \<Rightarrow> file_row \<times> media_db \<Rightarrow> json_response \<times> media_db" where
  "upload_stored shop folder r =
     (let (filer_file, db1) = r
      in (JsonResponse [(''file'', filer_file_to_json_dict filer_file),
                        (''message'', JStr (fl_name filer_file @ '' uploaded to '' @ get_folder_name folder @ ''.''))] 200,
          ensure_media_file shop (fl_id filer_file) db1))"

definition process_form :: "shop \<Rightarrow> uploaded_file option \<Rightarrow> folder_row option \<Rightarrow> media_db \<Rightarrow> json_response \<times> media_db" where
  "process_form shop upload folder db =
     (case upload of
        None \<Rightarrow> (JsonResponse [(''error'', JStr (exc_str (KeyError ''file'')))] 500, db)
      | Some u \<Rightarrow>
          if image_form_valid u then upload_stored shop folder (filer_from_upload True folder u db)
          else if take 6 (up_content_type u) \<noteq> ''image/'' then
            (if file_form_valid u then upload_stored shop folder (filer_from_upload False folder u db)
             else (JsonResponse [(''error'', file_form_errors)] 400, db))
          else (JsonResponse [(''error'', image_form_errors u)] 400, db))"

section \<open>The upload request\<close>

text \<open>\<open>a or b or d\<close> on two optional request values with a default.\<close>

definition or_default :: "jval option \<Rightarrow> jval option \<Rightarrow> jval option \<Rightarrow> jval option" where
  "or_default a b d = (case py_or a b of Some v \<Rightarrow> if py_truthy v then Some v else d | None \<Rightarrow> d)"

definition media_upload :: "shop \<Rightarrow> upload_request \<Rightarrow> media_db \<Rightarrow> json_response \<times> media_db" where
  "media_upload shop req db =
     (let fid = or_default (dict_get (ur_post req) ''folder_id'') (dict_get (ur_get req) ''folder_id'') (Some (JInt 0));
          path = or_default (dict_get (ur_post req) ''path'') (dict_get (ur_get req) ''path'') None;
          resolved =
            (case py_int (case fid of Some v \<Rightarrow> v | None \<Rightarrow> JInt 0) of
               Inl e \<Rightarrow> (Inl e, db)
             | Inr folder_id \<Rightarrow>
                 if folder_id \<noteq> 0
                 then (map_sum id Some (qs_get ''Folder'' fd_id (get_folder_query shop db None) (Some folder_id)), db)
                 else (case path of Some p \<Rightarrow> get_or_create_folder shop (py_str p) db
                       | None \<Rightarrow> (Inr None, db)))
      in case resolved of
           (Inl e, db1) \<Rightarrow> (JsonResponse [(''error'', JStr (''Error! Invalid folder `'' @ exc_str e @ ''`.''))] 400, db1)
         | (Inr folder, db1) \<Rightarrow> process_form shop (ur_file req) folder db1)"

section \<open>The invariant is kept\<close>

lemma wf_goc_loop:
  assumes "wf_db db" and "pred_option (\<lambda>c. c \<in> set (folders db)) parent" and "child = parent"
    and "goc_loop shop segs parent child db = (res, db')"
  shows "wf_db db' \<and> (\<forall>f. res = Inr (Some f) \<longrightarrow> f \<in> set (folders db'))"
  using assms
proof (induction shop segs parent child db arbitrary: res rule: goc_loop.induct)
  case (1 shop parent child db)
  then show ?case by (cases parent) auto
next
  case (2 shop folder rest parent child db)
  show ?case
  proof (cases "folder \<noteq> []")
    case ne: True
    show ?thesis
    proof (cases "folder_get_or_create (map_option fd_id parent) folder db")
      case (Inl e)
      with ne "2.prems" show ?thesis by auto
    next
      case (Inr r)
      then obtain c created db1 where r: "r = ((c, created), db1)" by (cases r) auto
      have par: "pred_option (\<lambda>q. q \<in> folder_keys db) (map_option fd_id parent)"
        using "2.prems"(2) by (cases parent) (auto simp: folder_keys_def)
      have g: "wf_db db1 \<and> c \<in> set (folders db1)"
        using wf_folder_get_or_create [OF "2.prems"(1) par, of folder c created db1] Inr r by auto
      let ?db2 = "ensure_media_folder shop (fd_id c) db1"
      have wf2: "wf_db ?db2" using g by (simp add: wf_ensure_media_folder folder_row_key)
      have c2: "c \<in> set (folders ?db2)" using g by (simp add: ensure_media_folder_fields)
      have loop: "goc_loop shop rest (Some c) (Some c) ?db2 = (res, db')"
        using "2.prems"(4) ne Inr r by simp
      from "2.IH"(1) [OF ne Inr [unfolded r] refl refl wf2 _ refl loop] c2 show ?thesis
        by auto
    qed
  next
    case False
    with "2.prems" "2.IH"(2) [OF False] show ?thesis by auto
  qed
qed

lemma wf_filer_from_upload:
  assumes wf: "wf_db db" and fo: "pred_option (\<lambda>f. f \<in> set (folders db)) folder"
  shows "wf_db (snd (filer_from_upload b folder u db))
         \<and> fl_id (fst (filer_from_upload b folder u db)) \<in> file_keys (snd (filer_from_upload b folder u db))"
proof -
  have fresh: "next_file_id db \<notin> fl_id ` set (files db)"
    using wf by (auto simp: wf_db_def list_all_iff)
  have "pred_option (\<lambda>p. p \<in> folder_keys db) (map_option fd_id folder)"
    using fo by (cases folder) (auto simp: folder_keys_def)
  with wf fresh show ?thesis
    by (auto simp: filer_from_upload_def Let_def wf_db_def list_all_iff folder_keys_def file_keys_def)
qed

lemma wf_upload_stored:
  "wf_db db \<Longrightarrow> pred_option (\<lambda>f. f \<in> set (folders db)) folder \<Longrightarrow>
   wf_db (snd (upload_stored shop folder (filer_from_upload b folder u db)))"
  using wf_filer_from_upload [of db folder b u]
  by (auto simp: upload_stored_def split_beta intro: wf_ensure_media_file)

lemma wf_process_form:
  "wf_db db \<Longrightarrow> pred_option (\<lambda>f. f \<in> set (folders db)) folder \<Longrightarrow>
   wf_db (snd (process_form shop up folder db))"
  by (auto simp: process_form_def wf_upload_stored split: option.splits)

lemma wf_media_upload:
  assumes wf: "wf_db db"
  shows "wf_db (snd (media_upload shop req db))"
proof -
  have goc: "wf_db db' \<and> (\<forall>f. res = Inr (Some f) \<longrightarrow> f \<in> set (folders db'))"
    if "get_or_create_folder shop p db = (res, db')" for p res db'
    using wf_goc_loop [OF wf _ refl, of None shop "py_split CHR ''/'' p" res db'] that
    by (simp add: get_or_create_folder_def)
  have resolved: "wf_db db1 \<and> (\<forall>f. res = Inr (Some f) \<longrightarrow> f \<in> set (folders db1))"
    if r: "(case py_int v of
               Inl e \<Rightarrow> (Inl e, db)
             | Inr folder_id \<Rightarrow>
                 if folder_id \<noteq> 0
                 then (map_sum id Some (qs_get ''Folder'' fd_id (get_folder_query shop db None) (Some folder_id)), db)
                 else (case path of Some p \<Rightarrow> get_or_create_folder shop (py_str p) db
                       | None \<Rightarrow> (Inr None, db))) = (res, db1)" for v path res db1
  proof (cases "py_int v")
    case (Inl e)
    with r wf show ?thesis by auto
  next
    case (Inr folder_id)
    show ?thesis
    proof (cases "folder_id \<noteq> 0")
      case True
      with r Inr wf show ?thesis
        by (auto simp: map_sum_Some_eq_Inr get_folder_query_in dest!: qs_get_Inr split: sum.splits)
    next
      case False
      with r Inr wf goc show ?thesis by (cases path) auto
    qed
  qed
  show ?thesis
    unfolding media_upload_def Let_def
    apply (split prod.split)
    apply (intro allI impI)
    apply (drule resolved)
    apply (auto split: sum.split intro!: wf_process_form simp: pred_option_iff_all)
    done
qed

section \<open>Resolving a path and reading it back\<close>

text \<open>
  The names on the way from the root to a folder, following \<open>parent\<close> with fuel;
  a folder's own key is enough fuel, since a parent's key is smaller than its
  child's (\<open>folder_path_total\<close>).
\<close>

fun folder_names_up :: "nat \<Rightarrow> media_db \<Rightarrow> nat option \<Rightarrow> string list option" where
  "folder_names_up n db None = Some []"
| "folder_names_up 0 db (Some i) = None"
| "folder_names_up (Suc n) db (Some i) =
     (case folder_by_id db (Some i) of
        None \<Rightarrow> None
      | Some f \<Rightarrow> map_option (\<lambda>ns. ns @ [fd_name f]) (folder_names_up n db (fd_parent f)))"

definition folder_path :: "media_db \<Rightarrow> folder_row \<Rightarrow> string list option" where
  "folder_path db f = folder_names_up (Suc (fd_id f)) db (Some (fd_id f))"

lemma folder_by_id_row:
  "wf_db db \<Longrightarrow> f \<in> set (folders db) \<Longrightarrow> folder_by_id db (Some (fd_id f)) = Some f"
  using find_distinct_key [of fd_id "folders db" f] by (simp add: folder_by_id_def wf_db_def)

lemma folder_names_up_total:
  "wf_db db \<Longrightarrow> pred_option (\<lambda>k. k \<in> folder_keys db \<and> k < n) k \<Longrightarrow> \<exists>ns. folder_names_up n db k = Some ns"
proof (induction n db k rule: folder_names_up.induct)
  case (3 n db i)
  then obtain f where f: "f \<in> set (folders db)" "fd_id f = i" by (auto simp: folder_keys_def)
  with "3.prems" have "pred_option (\<lambda>p. p \<in> folder_keys db \<and> p < fd_id f) (fd_parent f)"
    by (auto simp: wf_db_def list_all_iff)
  with f "3.prems" have "pred_option (\<lambda>k. k \<in> folder_keys db \<and> k < n) (fd_parent f)"
    by (auto elim: option.pred_mono_strong)
  with "3.IH" [OF _ "3.prems"(1)] f folder_by_id_row [OF "3.prems"(1) f(1)] show ?case
    by auto
qed auto

lemma folder_path_total:
  "wf_db db \<Longrightarrow> f \<in> set (folders db) \<Longrightarrow> \<exists>ns. folder_path db f = Some ns"
  unfolding folder_path_def by (rule folder_names_up_total) (auto simp: folder_keys_def)

lemma folder_names_up_mono:
  "folder_names_up n db k = Some ns \<Longrightarrow> n \<le> m \<Longrightarrow> folder_names_up m db k = Some ns"
proof (induction n db k arbitrary: m ns rule: folder_names_up.induct)
  case (3 n db i)
  then obtain m' where m: "m = Suc m'" "n \<le> m'" by (cases m) auto
  from "3.prems"(1) obtain f ns0 where f: "folder_by_id db (Some i) = Some f"
    and ns0: "folder_names_up n db (fd_parent f) = Some ns0" and ns: "ns = ns0 @ [fd_name f]"
    by (auto split: option.splits)
  have "folder_names_up m' db (fd_parent f) = Some ns0" by (rule "3.IH" [OF f ns0 m(2)])
  with f ns m(1) show ?case by simp
qed auto

text \<open>Adding rows keeps the paths of the folders already there.\<close>

lemma folder_names_up_extend:
  assumes "folder_names_up n db k = Some ns" and "set (folders db) \<subseteq> set (folders db')"
    and "wf_db db'"
  shows "folder_names_up n db' k = Some ns"
  using assms
proof (induction n db k arbitrary: ns rule: folder_names_up.induct)
  case (3 n db i)
  from "3.prems"(1) obtain f ns0 where f: "folder_by_id db (Some i) = Some f"
    and ns0: "folder_names_up n db (fd_parent f) = Some ns0" and ns: "ns = ns0 @ [fd_name f]"
    by (auto split: option.splits)
  from f have "f \<in> set (folders db)" "i = fd_id f" by (auto dest: folder_by_id_in)
  with "3.prems" have f': "folder_by_id db' (Some i) = Some f"
    using folder_by_id_row [of db' f] by auto
  have "folder_names_up n db' (fd_parent f) = Some ns0"
    by (rule "3.IH" [OF f ns0 "3.prems"(2,3)])
  with f' ns show ?case by simp
qed auto

lemma folder_path_extend:
  "folder_path db p = Some ps \<Longrightarrow> set (folders db) \<subseteq> set (folders db') \<Longrightarrow> wf_db db' \<Longrightarrow>
   folder_path db' p = Some ps"
  unfolding folder_path_def by (rule folder_names_up_extend)

lemma folder_get_or_create_rows:
  "folder_get_or_create p n db = Inr ((c, created), db1) \<Longrightarrow> set (folders db) \<subseteq> set (folders db1)"
  by (auto simp: folder_get_or_create_def folder_create_def Let_def split: list.splits)

lemma folder_path_child:
  assumes wf: "wf_db db" and c: "c \<in> set (folders db)" and par: "fd_parent c = map_option fd_id parent"
    and pp: "case parent of None \<Rightarrow> ps = [] | Some p \<Rightarrow> p \<in> set (folders db) \<and> folder_path db p = Some ps"
  shows "folder_path db c = Some (ps @ [fd_name c])"
proof -
  have up: "folder_path db c = map_option (\<lambda>ns. ns @ [fd_name c]) (folder_names_up (fd_id c) db (fd_parent c))"
    by (simp add: folder_path_def folder_by_id_row [OF wf c])
  show ?thesis
  proof (cases parent)
    case None
    with pp par up show ?thesis by simp
  next
    case (Some p)
    with pp have p: "p \<in> set (folders db)" and pth: "folder_names_up (Suc (fd_id p)) db (Some (fd_id p)) = Some ps"
      by (auto simp: folder_path_def)
    have "pred_option (\<lambda>q. q \<in> folder_keys db \<and> q < fd_id c) (fd_parent c)"
      using wf c by (simp add: wf_db_def list_all_iff)
    with par Some have "fd_id p < fd_id c" by simp
    then have "folder_names_up (fd_id c) db (Some (fd_id p)) = Some ps"
      by (intro folder_names_up_mono [OF pth]) simp
    with up par Some show ?thesis by simp
  qed
qed

lemma goc_loop_path:
  assumes "wf_db db" and "child = parent"
    and "case parent of None \<Rightarrow> ps = [] | Some p \<Rightarrow> p \<in> set (folders db) \<and> folder_path db p = Some ps"
    and "goc_loop shop segs parent child db = (Inr (Some f), db')"
  shows "folder_path db' f = Some (ps @ filter (\<lambda>s. s \<noteq> []) segs)"
  using assms
proof (induction shop segs parent child db arbitrary: ps rule: goc_loop.induct)
  case (1 shop parent child db)
  then show ?case by (cases parent) auto
next
  case (2 shop folder rest parent child db)
  show ?case
  proof (cases "folder \<noteq> []")
    case ne: True
    obtain c created db1 where goc: "folder_get_or_create (map_option fd_id parent) folder db = Inr ((c, created), db1)"
      using "2.prems"(4) ne by (auto split: sum.splits)
    have par: "pred_option (\<lambda>q. q \<in> folder_keys db) (map_option fd_id parent)"
      using "2.prems"(3) by (cases parent) (auto simp: folder_keys_def)
    have g: "wf_db db1" "c \<in> set (folders db1)" "fd_parent c = map_option fd_id parent" "fd_name c = folder"
      using wf_folder_get_or_create [OF "2.prems"(1) par goc] by auto
    let ?db2 = "ensure_media_folder shop (fd_id c) db1"
    have wf2: "wf_db ?db2" using g by (simp add: wf_ensure_media_folder folder_row_key)
    have rows: "set (folders db) \<subseteq> set (folders ?db2)"
      using folder_get_or_create_rows [OF goc] by (simp add: ensure_media_folder_fields)
    have c2: "c \<in> set (folders ?db2)" using g by (simp add: ensure_media_folder_fields)
    have pp2: "case parent of None \<Rightarrow> ps = [] | Some p \<Rightarrow> p \<in> set (folders ?db2) \<and> folder_path ?db2 p = Some ps"
      using "2.prems"(3) rows folder_path_extend [OF _ rows wf2]
      by (cases parent) auto
    have cp: "folder_path ?db2 c = Some (ps @ [folder])"
      using folder_path_child [OF wf2 c2 g(3) pp2] g(4) by simp
    have loop: "goc_loop shop rest (Some c) (Some c) ?db2 = (Inr (Some f), db')"
      using "2.prems"(4) ne goc by simp
    have "folder_path db' f = Some ((ps @ [folder]) @ filter (\<lambda>s. s \<noteq> []) rest)"
      by (rule "2.IH"(1) [OF ne goc refl refl wf2 refl _ loop]) (use c2 cp in simp)
    with ne show ?thesis by simp
  next
    case False
    with "2.prems" "2.IH"(2) [OF False] show ?thesis by simp
  qed
qed

lemma process_form_image:
  "image_form_valid u \<Longrightarrow> process_form shop (Some u) folder db =
     upload_stored shop folder (filer_from_upload True folder u db)"
  by (simp add: process_form_def)

section \<open>Uploading by a one-segment path\<close>

text \<open>A request carrying only \<open>path\<close> goes to \<open>get_or_create_folder\<close>, and a path
  without \<open>/\<close> is a single get-or-create at the root.\<close>

lemma media_upload_path:
  "name \<noteq> [] \<Longrightarrow> media_upload shop \<lparr>ur_post = [(''path'', JStr name)], ur_get = [], ur_file = u\<rparr> db =
     (case get_or_create_folder shop name db of
        (Inl e, db1) \<Rightarrow> (JsonResponse [(''error'', JStr (''Error! Invalid folder `'' @ exc_str e @ ''`.''))] 400, db1)
      | (Inr folder, db1) \<Rightarrow> process_form shop u folder db1)"
  by (simp add: media_upload_def or_default_def py_or_def dict_get_def split: prod.split sum.split)

lemma goc_single:
  "name \<noteq> [] \<Longrightarrow> CHR ''/'' \<notin> set name \<Longrightarrow> get_or_create_folder shop name db =
     (case folder_get_or_create None name db of
        Inl e \<Rightarrow> (Inl e, db)
      | Inr ((c, created), db1) \<Rightarrow> (Inr (Some c), ensure_media_folder shop (fd_id c) db1))"
  by (simp add: get_or_create_folder_def py_split_single split: sum.splits prod.splits)

lemma process_form_folders:
  "folders (snd (process_form shop u fo db)) = folders db
   \<and> media_folders (snd (process_form shop u fo db)) = media_folders db"
  by (auto simp: process_form_def upload_stored_def filer_from_upload_def ensure_media_file_fields Let_def
           split: option.splits)

lemma process_form_empty:
  "up_size u = 0 \<Longrightarrow> \<exists>e. process_form shop (Some u) fo db = (JsonResponse [(''error'', e)] 400, db)"
  by (simp add: process_form_def image_form_valid_def file_form_valid_def JsonResponse_def)

end
