(* ===== verification/Base64_Codec.thy ===== *)
theory Base64_Codec
  imports Prelude
begin

text \<open>
  The base64 codec the password-reset link goes through. Django's
  \<open>urlsafe_base64_encode\<close> and \<open>urlsafe_base64_decode\<close> (\<open>django.utils.http\<close>) wrap
  Python's \<open>base64.urlsafe_b64encode\<close>/\<open>urlsafe_b64decode\<close>, which translate between
  the URL-safe and the standard alphabet around \<open>binascii.b2a_base64\<close> and
  \<open>binascii.a2b_base64\<close>. Bytes are naturals below 256; a Python \<open>str\<close> is a
  \<open>string\<close> of code points below 256, encoded to bytes as UTF-8. The decoder is
  the non-strict state machine of CPython's \<open>a2b_base64\<close> (3.7 and later): characters
  outside the alphabet are skipped, a complete pad sequence ends the input, and a
  final incomplete quad is an error. Its output bytes are written
  \<open>(leftchar << k) | (ch >> j)\<close> in C; the two operands occupy disjoint bits and the
  value is below 256, so the model adds them.
\<close>

type_synonym bytes = "nat list"

section \<open>The standard alphabet\<close>

definition b64_alphabet :: string where
  "b64_alphabet = ''ABCDEFGHIJKLMNOPQRSTUVWXYZabcdefghijklmnopqrstuvwxyz0123456789+/''"

definition b64_sym :: "nat \<Rightarrow> char" where
  "b64_sym n = b64_alphabet ! n"

text \<open>\<open>table_a2b_base64\<close>: the value of a byte, when it is a base64 digit.\<close>

definition b64_val :: "nat \<Rightarrow> nat option" where
  "b64_val b =
     (if 65 \<le> b \<and> b \<le> 90 then Some (b - 65)
      else if 97 \<le> b \<and> b \<le> 122 then Some (b - 71)
      else if 48 \<le> b \<and> b \<le> 57 then Some (b + 4)
      else if b = 43 then Some 62
      else if b = 47 then Some 63
      else None)"

section \<open>Encoding\<close>

text \<open>\<open>binascii.b2a_base64(s, newline=False)\<close>: three bytes to four digits, the last
  group padded with \<open>=\<close>.\<close>

fun b2a_base64 :: "bytes \<Rightarrow> string" where
  "b2a_base64 [] = []"
| "b2a_base64 [a] = [b64_sym (a div 4), b64_sym (a mod 4 * 16), CHR ''='', CHR ''='']"
| "b2a_base64 [a, b] =
     [b64_sym (a div 4), b64_sym (a mod 4 * 16 + b div 16), b64_sym (b mod 16 * 4), CHR ''='']"
| "b2a_base64 (a # b # c # rest) =
     [b64_sym (a div 4), b64_sym (a mod 4 * 16 + b div 16), b64_sym (b mod 16 * 4 + c div 64),
      b64_sym (c mod 64)] @ b2a_base64 rest"

definition urlsafe_encode_translate :: "char \<Rightarrow> char" where
  "urlsafe_encode_translate c = (if c = CHR ''+'' then CHR ''-'' else if c = CHR ''/'' then CHR ''_'' else c)"

definition urlsafe_decode_translate :: "nat \<Rightarrow> nat" where
  "urlsafe_decode_translate b = (if b = 45 then 43 else if b = 95 then 47 else b)"

definition urlsafe_b64encode :: "bytes \<Rightarrow> string" where
  "urlsafe_b64encode s = map urlsafe_encode_translate (b2a_base64 s)"

text \<open>\<open>str.rstrip(chars)\<close>.\<close>

definition py_rstrip :: "char list \<Rightarrow> string \<Rightarrow> string" where
  "py_rstrip cs s = rev (dropWhile (\<lambda>c. c \<in> set cs) (rev s))"

text \<open>\<open>urlsafe_base64_encode(s)\<close>: \<open>base64.urlsafe_b64encode(s).rstrip(b'\n=').decode('ascii')\<close>.\<close>

definition urlsafe_base64_encode :: "bytes \<Rightarrow> string" where
  "urlsafe_base64_encode s = py_rstrip [CHR 0x0A, CHR ''=''] (urlsafe_b64encode s)"

section \<open>Decoding\<close>

text \<open>\<open>str.encode()\<close> (UTF-8) of code points below 256.\<close>

definition utf8_encode :: "string \<Rightarrow> bytes" where
  "utf8_encode s = concat (map (\<lambda>c. let n = of_char c :: nat in
                              if n < 128 then [n] else [192 + n div 64, 128 + n mod 64]) s)"

text \<open>The loop of \<open>a2b_base64\<close>: quad position, the bits left over, the pads seen.\<close>

fun a2b_loop :: "nat \<Rightarrow> nat \<Rightarrow> nat \<Rightarrow> bytes \<Rightarrow> bytes \<Rightarrow> exc + bytes" where
  "a2b_loop q l p [] acc = (if q = 0 then Inr acc else Inl ValueError)"
| "a2b_loop q l p (c # cs) acc =
     (if c = 61 then
        (if 2 \<le> q then (if 4 \<le> q + Suc p then Inr acc else a2b_loop q l (Suc p) cs acc)
         else a2b_loop q l p cs acc)
      else case b64_val c of
        None \<Rightarrow> a2b_loop q l p cs acc
      | Some v \<Rightarrow>
          (if q = 0 then a2b_loop 1 v 0 cs acc
           else if q = 1 then a2b_loop 2 (v mod 16) 0 cs (acc @ [l * 4 + v div 16])
           else if q = 2 then a2b_loop 3 (v mod 4) 0 cs (acc @ [l * 16 + v div 4])
           else a2b_loop 0 0 0 cs (acc @ [l * 64 + v])))"

definition a2b_base64 :: "bytes \<Rightarrow> exc + bytes" where
  "a2b_base64 s = a2b_loop 0 0 0 s []"

definition urlsafe_b64decode :: "bytes \<Rightarrow> exc + bytes" where
  "urlsafe_b64decode s = a2b_base64 (map urlsafe_decode_translate s)"

text \<open>\<open>urlsafe_base64_decode(s)\<close>: pad with \<open>len(s) % 4\<close> signs \<open>=\<close>
  (\<open>s.ljust(len(s) + len(s) % 4, b'=')\<close>), decode, and turn a \<open>binascii.Error\<close>
  into \<open>ValueError\<close>.\<close>

definition urlsafe_base64_decode :: "string \<Rightarrow> exc + bytes" where
  "urlsafe_base64_decode s =
     (let b = utf8_encode s in urlsafe_b64decode (b @ replicate (length b mod 4) 61))"

text \<open>A character of an encoding read back as the byte the decoder sees.\<close>

definition b64_byte :: "char \<Rightarrow> nat" where
  "b64_byte c = urlsafe_decode_translate (of_char c)"

text \<open>The digits of an encoding without its pad signs.\<close>

fun b64_digits :: "bytes \<Rightarrow> nat list" where
  "b64_digits [] = []"
| "b64_digits [a] = [a div 4, a mod 4 * 16]"
| "b64_digits [a, b] = [a div 4, a mod 4 * 16 + b div 16, b mod 16 * 4]"
| "b64_digits (a # b # c # rest) =
     [a div 4, a mod 4 * 16 + b div 16, b mod 16 * 4 + c div 64, c mod 64] @ b64_digits rest"

section \<open>The round trip\<close>

lemma b64_table_check:
  "list_all (\<lambda>n. b64_val (b64_byte (urlsafe_encode_translate (b64_sym n))) = Some n
                 \<and> of_char (urlsafe_encode_translate (b64_sym n)) < (128::nat)
                 \<and> urlsafe_encode_translate (b64_sym n) \<noteq> CHR ''=''
                 \<and> urlsafe_encode_translate (b64_sym n) \<noteq> CHR 0x0A
                 \<and> \<not> is_py_space (urlsafe_encode_translate (b64_sym n))
                 \<and> urlsafe_encode_translate (b64_sym n) \<noteq> CHR 0x00) [0..<64]"
  by (simp add: upt_conv_Cons b64_byte_def b64_sym_def b64_alphabet_def b64_val_def
                urlsafe_encode_translate_def urlsafe_decode_translate_def is_py_space_def)

lemma b64_sym_props:
  assumes "n < 64"
  shows "b64_val (b64_byte (urlsafe_encode_translate (b64_sym n))) = Some n"
    and "of_char (urlsafe_encode_translate (b64_sym n)) < (128::nat)"
    and "urlsafe_encode_translate (b64_sym n) \<noteq> CHR ''=''"
    and "urlsafe_encode_translate (b64_sym n) \<noteq> CHR 0x0A"
    and "\<not> is_py_space (urlsafe_encode_translate (b64_sym n))"
    and "urlsafe_encode_translate (b64_sym n) \<noteq> CHR 0x00"
  using b64_table_check assms by (simp_all add: list_all_iff)

lemma b64_digits_lt:
  "list_all (\<lambda>b. b < 256) bs \<Longrightarrow> list_all (\<lambda>d. d < 64) (b64_digits bs)"
  by (induction bs rule: b64_digits.induct) auto

lemma b2a_base64_digits:
  "b2a_base64 bs = map b64_sym (b64_digits bs) @ replicate ((3 - length bs mod 3) mod 3) (CHR ''='')"
  by (induction bs rule: b64_digits.induct) (simp_all add: mod_Suc numeral_2_eq_2)

lemma py_rstrip_append:
  assumes "xs = [] \<or> last xs \<notin> set cs" and "set ys \<subseteq> set cs"
  shows "py_rstrip cs (xs @ ys) = xs"
proof -
  have "dropWhile (\<lambda>c. c \<in> set cs) (rev ys @ rev xs) = dropWhile (\<lambda>c. c \<in> set cs) (rev xs)"
    by (rule dropWhile_append2) (use assms(2) in auto)
  moreover have "dropWhile (\<lambda>c. c \<in> set cs) (rev xs) = rev xs"
    using assms(1) by (cases xs rule: rev_cases) auto
  ultimately show ?thesis by (simp add: py_rstrip_def)
qed

lemma urlsafe_base64_encode_digits:
  assumes "list_all (\<lambda>b. b < 256) bs"
  shows "urlsafe_base64_encode bs = map (\<lambda>d. urlsafe_encode_translate (b64_sym d)) (b64_digits bs)"
proof -
  let ?xs = "map (\<lambda>d. urlsafe_encode_translate (b64_sym d)) (b64_digits bs)"
  have lt: "list_all (\<lambda>d. d < 64) (b64_digits bs)" by (rule b64_digits_lt [OF assms])
  have "?xs = [] \<or> last ?xs \<notin> set [CHR 0x0A, CHR ''='']"
  proof (cases "b64_digits bs = []")
    case False
    then have "last (b64_digits bs) \<in> set (b64_digits bs)" by simp
    with lt have "last (b64_digits bs) < 64" by (simp add: list_all_iff)
    with False show ?thesis using b64_sym_props(3,4) by (simp add: last_map)
  qed simp
  moreover have "set (replicate ((3 - length bs mod 3) mod 3) (CHR ''='')) \<subseteq> set [CHR 0x0A, CHR ''='']"
    by auto
  moreover have "urlsafe_b64encode bs = ?xs @ replicate ((3 - length bs mod 3) mod 3) (CHR ''='')"
    by (simp add: urlsafe_b64encode_def b2a_base64_digits urlsafe_encode_translate_def)
  ultimately show ?thesis
    unfolding urlsafe_base64_encode_def by (simp only: py_rstrip_append)
qed

lemma utf8_encode_ascii:
  "list_all (\<lambda>c. of_char c < (128::nat)) s \<Longrightarrow> utf8_encode s = map of_char s"
  by (induction s) (simp_all add: utf8_encode_def)

lemma b64_sym_not_pad:
  "n < 64 \<Longrightarrow> b64_byte (urlsafe_encode_translate (b64_sym n)) \<noteq> 61"
  using b64_sym_props(1) by (fastforce simp: b64_val_def)

lemma b64_group:
  assumes "a < 256" "b < 256" "c < 256"
  shows "a2b_loop 0 0 0 (map (\<lambda>d. b64_byte (urlsafe_encode_translate (b64_sym d)))
            [a div 4, a mod 4 * 16 + b div 16, b mod 16 * 4 + c div 64, c mod 64] @ rest) acc
         = a2b_loop 0 0 0 rest (acc @ [a, b, c])"
proof -
  have d: "a div 4 < 64" "a mod 4 * 16 + b div 16 < 64" "b mod 16 * 4 + c div 64 < 64" "c mod 64 < 64"
    using assms by simp_all
  note ne = b64_sym_not_pad
  have "b div 16 < 16" "c div 64 < 4" using assms by simp_all
  then have "a div 4 * 4 + (a mod 4 * 16 + b div 16) div 16 = a" by simp
  moreover have "(a mod 4 * 16 + b div 16) mod 16 * 16 + (b mod 16 * 4 + c div 64) div 4 = b"
    using assms by simp
  moreover have "(b mod 16 * 4 + c div 64) mod 4 * 64 + c mod 64 = c"
    using assms by simp
  ultimately show ?thesis
    using d ne [OF d(1)] ne [OF d(2)] ne [OF d(3)] ne [OF d(4)]
    by (simp add: b64_sym_props(1))
qed

lemma replicate_pad2: "replicate 2 x = [x, x]"
  by (simp add: numeral_2_eq_2)

lemma replicate_pad3: "replicate 3 x = [x, x, x]"
  by (simp add: numeral_3_eq_3)

lemma a2b_tail1:
  assumes "a < 256"
  shows "a2b_loop 0 0 0 (map (\<lambda>d. b64_byte (urlsafe_encode_translate (b64_sym d))) [a div 4, a mod 4 * 16]
                         @ [61, 61]) acc = Inr (acc @ [a])"
proof -
  have d: "a div 4 < 64" "a mod 4 * 16 < 64" using assms by simp_all
  have "a div 4 * 4 + a mod 4 * 16 div 16 = a" by simp
  then show ?thesis
    using b64_sym_not_pad [OF d(1)] b64_sym_not_pad [OF d(2)] b64_sym_props(1) [OF d(1)] b64_sym_props(1) [OF d(2)]
    by simp
qed

lemma a2b_tail2:
  assumes "a < 256" "b < 256"
  shows "a2b_loop 0 0 0 (map (\<lambda>d. b64_byte (urlsafe_encode_translate (b64_sym d)))
                            [a div 4, a mod 4 * 16 + b div 16, b mod 16 * 4] @ [61, 61, 61]) acc
         = Inr (acc @ [a, b])"
proof -
  have "b div 16 < 16" using assms by (simp add: div_less_iff_less_mult)
  then have d: "a div 4 < 64" "a mod 4 * 16 + b div 16 < 64" "b mod 16 * 4 < 64"
    using assms by (simp_all add: div_less_iff_less_mult)
  have "(a mod 4 * 16 + b div 16) div 16 = a mod 4" "(a mod 4 * 16 + b div 16) mod 16 = b div 16"
    using \<open>b div 16 < 16\<close> by simp_all
  then have "a div 4 * 4 + (a mod 4 * 16 + b div 16) div 16 = a"
    and "(a mod 4 * 16 + b div 16) mod 16 * 16 + b mod 16 * 4 div 4 = b" by simp_all
  then show ?thesis
    using b64_sym_not_pad [OF d(1)] b64_sym_not_pad [OF d(2)] b64_sym_not_pad [OF d(3)]
      b64_sym_props(1) [OF d(1)] b64_sym_props(1) [OF d(2)] b64_sym_props(1) [OF d(3)]
    by simp
qed

lemma a2b_loop_digits:
  assumes "list_all (\<lambda>b. b < 256) bs"
  shows "a2b_loop 0 0 0 (map (\<lambda>d. b64_byte (urlsafe_encode_translate (b64_sym d))) (b64_digits bs)
                         @ replicate (length (b64_digits bs) mod 4) 61) acc = Inr (acc @ bs)"
  using assms
proof (induction bs arbitrary: acc rule: b64_digits.induct)
  case 1
  then show ?case by simp
next
  case (2 a)
  have e: "map (\<lambda>d. b64_byte (urlsafe_encode_translate (b64_sym d))) (b64_digits [a])
           @ replicate (length (b64_digits [a]) mod 4) 61
         = map (\<lambda>d. b64_byte (urlsafe_encode_translate (b64_sym d))) [a div 4, a mod 4 * 16] @ [61, 61]"
  proof -
    have "length (b64_digits [a]) mod 4 = 2" by simp
    then show ?thesis by (simp only: replicate_pad2) simp
  qed
  have "a < 256" using 2 by simp
  then show ?case unfolding e by (rule a2b_tail1)
next
  case (3 a b)
  have e: "map (\<lambda>d. b64_byte (urlsafe_encode_translate (b64_sym d))) (b64_digits [a, b])
           @ replicate (length (b64_digits [a, b]) mod 4) 61
         = map (\<lambda>d. b64_byte (urlsafe_encode_translate (b64_sym d)))
             [a div 4, a mod 4 * 16 + b div 16, b mod 16 * 4] @ [61, 61, 61]"
  proof -
    have "length (b64_digits [a, b]) mod 4 = 3" by simp
    then show ?thesis by (simp only: replicate_pad3) simp
  qed
  have "a < 256" "b < 256" using 3 by simp_all
  then show ?case unfolding e by (rule a2b_tail2)
next
  case (4 a b c rest)
  let ?f = "\<lambda>d. b64_byte (urlsafe_encode_translate (b64_sym d))"
  let ?g = "[a div 4, a mod 4 * 16 + b div 16, b mod 16 * 4 + c div 64, c mod 64]"
  have abc: "a < 256" "b < 256" "c < 256" and r: "list_all (\<lambda>b. b < 256) rest" using "4.prems" by simp_all
  have "length (b64_digits (a # b # c # rest)) mod 4 = length (b64_digits rest) mod 4" by simp
  then have e: "map ?f (b64_digits (a # b # c # rest)) @ replicate (length (b64_digits (a # b # c # rest)) mod 4) 61
           = map ?f ?g @ (map ?f (b64_digits rest) @ replicate (length (b64_digits rest) mod 4) 61)"
    by (simp only: b64_digits.simps map_append append_assoc)
  show ?case
    by (subst e, subst b64_group [OF abc], subst "4.IH" [OF r]) simp
qed

theorem urlsafe_base64_roundtrip:
  assumes "list_all (\<lambda>b. b < 256) bs"
  shows "urlsafe_base64_decode (urlsafe_base64_encode bs) = Inr bs"
proof -
  let ?ds = "b64_digits bs"
  let ?xs = "map (\<lambda>d. urlsafe_encode_translate (b64_sym d)) ?ds"
  have lt: "list_all (\<lambda>d. d < 64) ?ds" by (rule b64_digits_lt [OF assms])
  then have "list_all (\<lambda>c. of_char c < (128::nat)) ?xs"
    by (simp add: list_all_iff b64_sym_props(2))
  then have u: "utf8_encode ?xs = map of_char ?xs" by (rule utf8_encode_ascii)
  have "map urlsafe_decode_translate (map of_char ?xs @ replicate (length ?ds mod 4) 61)
        = map (\<lambda>d. b64_byte (urlsafe_encode_translate (b64_sym d))) ?ds @ replicate (length ?ds mod 4) 61"
    by (simp add: b64_byte_def urlsafe_decode_translate_def)
  then show ?thesis
    by (simp add: urlsafe_base64_encode_digits [OF assms] urlsafe_base64_decode_def u
                  urlsafe_b64decode_def a2b_base64_def a2b_loop_digits [OF assms] urlsafe_decode_translate_def
             del: map_map)
qed

section \<open>Decoded values are bytes\<close>

text \<open>The bits a quad position holds bound the byte it completes: after one digit
  six bits are left, after two four, after three two.\<close>

lemma b64_val_lt: "b64_val b = Some v \<Longrightarrow> v < 64"
  by (auto simp: b64_val_def split: if_splits)

lemma a2b_loop_bytes:
  "a2b_loop q l p s acc = Inr bs \<Longrightarrow> list_all (\<lambda>b. b < 256) acc \<Longrightarrow> l < 4 ^ (4 - q)
   \<Longrightarrow> list_all (\<lambda>b. b < 256) bs"
proof (induction q l p s acc rule: a2b_loop.induct)
  case (1 q l p acc)
  then show ?case by (simp split: if_splits)
next
  case (2 q l p c cs acc)
  show ?case
  proof (cases "c = 61")
    case True
    then show ?thesis using 2 by (simp split: if_splits)
  next
    case False
    show ?thesis
    proof (cases "b64_val c")
      case None
      then show ?thesis using 2 False by simp
    next
      case (Some v)
      have v: "v < 64" using b64_val_lt [OF Some] .
      consider "q = 0" | "q = 1" | "q = 2" | "3 \<le> q" by linarith
      then show ?thesis
      proof cases
        case 1
        then show ?thesis using "2.IH"(4) [OF False Some] "2.prems" False Some v by simp
      next
        case 2
        then show ?thesis using "2.IH"(5) [OF False Some] "2.prems" False Some v by simp
      next
        case 3
        then show ?thesis using "2.IH"(6) [OF False Some] "2.prems" False Some v by simp
      next
        case 4
        then have "l < 4" using "2.prems"(3) by (cases "q = 3") auto
        then show ?thesis using "2.IH"(7) [OF False Some] "2.prems" False Some v 4 by simp
      qed
    qed
  qed
qed

end
