(* ===== verification/Auth_Api.thy ===== *)
theory Auth_Api
  imports Base64_Codec
begin

text \<open>
  The password REST API of \<open>src/shuup/front/apps/auth/api.py\<close>:
  \<open>SetPasswordSerializer\<close> (four \<open>CharField\<close>s and \<open>validate\<close>),
  \<open>SetPasswordViewSet.create\<close>, \<open>PasswordResetViewSet.create\<close> and
  \<open>populate_api\<close>. The user table is a list of rows in key order; the token check
  (\<open>default_token_generator.check_token\<close>) and the password hasher
  (\<open>make_password\<close>, called by \<open>set_password\<close>) are parameters, as is the
  \<open>RecoverPasswordForm\<close> of the reset view, which lies outside the sources. The
  field validation of Django REST framework's \<open>CharField\<close> and
  \<open>Serializer.is_valid\<close> is modelled from the library: blank check, required,
  null, type, trimming, and the null-character validator, errors collected per field
  in declaration order.
\<close>

section \<open>Users and responses\<close>

record user_row =
  usr_id :: nat
  usr_password :: string

record auth_db =
  users :: "user_row list"

record drf_response =
  resp_status :: nat
  resp_data :: "jval option"

definition Response :: "jval option \<Rightarrow> nat \<Rightarrow> drf_response" where
  "Response d st = \<lparr>resp_status = st, resp_data = d\<rparr>"

section \<open>Field validation (Django REST framework)\<close>

text \<open>\<open>CharField.run_validation\<close> on the value of the field in the request, \<open>None\<close>
  when the key is missing (\<open>empty\<close>).\<close>

definition char_field :: "jval option \<Rightarrow> string + string" where
  "char_field v =
     (case v of
        None \<Rightarrow> Inl ''This field is required.''
      | Some x \<Rightarrow>
          if py_strip (py_str x) = [] then Inl ''This field may not be blank.''
          else if x = JNull then Inl ''This field may not be null.''
          else (case (case x of JStr s \<Rightarrow> Some s | JInt i \<Rightarrow> Some (int_str i) | _ \<Rightarrow> None) of
                  None \<Rightarrow> Inl ''Not a valid string.''
                | Some s \<Rightarrow> (let t = py_strip s in
                              if CHR 0x00 \<in> set t then Inl ''Null characters are not allowed.''
                              else Inr t)))"

record set_password_data =
  sp_uidb64 :: string
  sp_token :: string
  sp_new_password1 :: string
  sp_new_password2 :: string

definition field_error :: "string \<Rightarrow> string + string \<Rightarrow> jdict" where
  "field_error name r = (case r of Inl m \<Rightarrow> [(name, JList [JStr m])] | Inr _ \<Rightarrow> [])"

text \<open>\<open>Serializer.to_internal_value\<close> for the four declared fields.\<close>

definition set_password_fields :: "jdict \<Rightarrow> jdict + set_password_data" where
  "set_password_fields data =
     (let u = char_field (dict_get data ''uidb64'');
          t = char_field (dict_get data ''token'');
          p1 = char_field (dict_get data ''new_password1'');
          p2 = char_field (dict_get data ''new_password2'')
      in case (u, t, p1, p2) of
           (Inr u, Inr t, Inr p1, Inr p2) \<Rightarrow>
             Inr \<lparr>sp_uidb64 = u, sp_token = t, sp_new_password1 = p1, sp_new_password2 = p2\<rparr>
         | _ \<Rightarrow> Inl (field_error ''uidb64'' u @ field_error ''token'' t
                    @ field_error ''new_password1'' p1 @ field_error ''new_password2'' p2))"

section \<open>SetPasswordSerializer.validate\<close>

text \<open>The user key in the link: \<open>urlsafe_base64_decode(uidb64)\<close>, then the primary
  key lookup converts the bytes with \<open>int()\<close>.\<close>

definition uid_of :: "string \<Rightarrow> exc + int" where
  "uid_of uidb64 = ebind (urlsafe_base64_decode uidb64) (\<lambda>b. py_int_of_string (map char_of b))"

text \<open>\<open>user_model._default_manager.get(pk=uid)\<close>, with \<open>TypeError\<close>, \<open>ValueError\<close> and
  \<open>DoesNotExist\<close> caught as \<open>user = None\<close>.\<close>

definition link_user :: "auth_db \<Rightarrow> string \<Rightarrow> user_row option" where
  "link_user db uidb64 =
     (case uid_of uidb64 of
        Inl _ \<Rightarrow> None
      | Inr uid \<Rightarrow> (case qs_get ''User'' usr_id (users db) (Some uid) of Inr u \<Rightarrow> Some u | Inl _ \<Rightarrow> None))"

definition set_password_validate ::
  "(user_row \<Rightarrow> string \<Rightarrow> bool) \<Rightarrow> auth_db \<Rightarrow> set_password_data \<Rightarrow> string + set_password_data \<times> user_row" where
  "set_password_validate check_token db data =
     (if sp_new_password1 data \<noteq> sp_new_password2 data then Inl ''Passwords do not match''
      else (case link_user db (sp_uidb64 data) of
              None \<Rightarrow> Inl ''The recovery link is invalid.''
            | Some user \<Rightarrow>
                if \<not> check_token user (sp_token data) then Inl ''The recovery link is invalid.''
                else Inr (data, user)))"

text \<open>\<open>serializer.is_valid()\<close>: field errors, or the error of \<open>validate\<close> under
  \<open>non_field_errors\<close>.\<close>

definition set_password_is_valid ::
  "(user_row \<Rightarrow> string \<Rightarrow> bool) \<Rightarrow> auth_db \<Rightarrow> jdict \<Rightarrow> jdict + set_password_data \<times> user_row" where
  "set_password_is_valid check_token db data =
     (case set_password_fields data of
        Inl errs \<Rightarrow> Inl errs
      | Inr d \<Rightarrow> (case set_password_validate check_token db d of
                   Inl m \<Rightarrow> Inl [(''non_field_errors'', JList [JStr m])]
                 | Inr r \<Rightarrow> Inr r))"

section \<open>The view sets\<close>

text \<open>\<open>user.set_password(p); user.save()\<close>: the loaded row is written back with the
  new hash.\<close>

definition save_user :: "user_row \<Rightarrow> auth_db \<Rightarrow> auth_db" where
  "save_user u db = db\<lparr>users := map (\<lambda>v. if usr_id v = usr_id u then u else v) (users db)\<rparr>"

definition set_password_create ::
  "(string \<Rightarrow> string) \<Rightarrow> (user_row \<Rightarrow> string \<Rightarrow> bool) \<Rightarrow> jdict \<Rightarrow> auth_db \<Rightarrow> drf_response \<times> auth_db" where
  "set_password_create make_password check_token data db =
     (case set_password_is_valid check_token db data of
        Inr (d, user) \<Rightarrow>
          (Response (Some (JObj [(''success'', JBool True)])) 200,
           save_user (user\<lparr>usr_password := make_password (sp_new_password1 d)\<rparr>) db)
      | Inl errs \<Rightarrow> (Response (Some (JObj errs)) 400, db))"

text \<open>\<open>PasswordResetViewSet.create\<close> over the form's validity, errors and \<open>save\<close>.\<close>

definition password_reset_create ::
  "(jdict \<Rightarrow> bool) \<Rightarrow> (jdict \<Rightarrow> jdict) \<Rightarrow> (jdict \<Rightarrow> 's \<Rightarrow> 's) \<Rightarrow> jdict \<Rightarrow> 's \<Rightarrow> drf_response \<times> 's" where
  "password_reset_create form_valid form_errors form_save data st =
     (if form_valid data then (Response None 204, form_save data st)
      else (Response (Some (JObj (form_errors data))) 400, st))"

datatype viewset = SetPasswordViewSet | PasswordResetViewSet

text \<open>\<open>populate_api(router)\<close>: the registrations, in order, as (prefix, view set, basename).\<close>

definition populate_api :: "(string \<times> viewset \<times> string) list \<Rightarrow> (string \<times> viewset \<times> string) list" where
  "populate_api router =
     router @ [(''shuup/front/password'', SetPasswordViewSet, ''set_password''),
               (''shuup/front/password/reset'', PasswordResetViewSet, ''password_reset'')]"

section \<open>Lemmas\<close>

lemma urlsafe_base64_encode_chars:
  assumes "list_all (\<lambda>b. b < 256) bs"
  shows "list_all (\<lambda>c. \<not> is_py_space c \<and> c \<noteq> CHR 0x00) (urlsafe_base64_encode bs)"
  using b64_digits_lt [OF assms] b64_sym_props(5,6)
  by (simp add: urlsafe_base64_encode_digits [OF assms] list_all_iff)

lemma b64_digits_nonempty: "bs \<noteq> [] \<Longrightarrow> b64_digits bs \<noteq> []"
  by (induction bs rule: b64_digits.induct) auto

lemma urlsafe_base64_encode_nonempty:
  "list_all (\<lambda>b. b < 256) bs \<Longrightarrow> bs \<noteq> [] \<Longrightarrow> urlsafe_base64_encode bs \<noteq> []"
  by (simp add: urlsafe_base64_encode_digits b64_digits_nonempty)

text \<open>The link a reset mail carries for a user: \<open>urlsafe_base64_encode(force_bytes(user.pk))\<close>.\<close>

lemma uid_of_link: "uid_of (urlsafe_base64_encode (map of_char (nat_str n))) = Inr (int n)"
proof -
  have "list_all (\<lambda>b. b < 256) (map of_char (nat_str n) :: nat list)" by (simp add: list_all_iff)
  then show ?thesis
    by (simp add: uid_of_def urlsafe_base64_roundtrip py_int_of_string_nat_str)
qed

lemma link_user_found:
  assumes "distinct (map usr_id (users db))" and "u \<in> set (users db)"
  shows "link_user db (urlsafe_base64_encode (map of_char (nat_str (usr_id u)))) = Some u"
  using qs_get_distinct [OF assms, of "''User''"] by (simp add: link_user_def uid_of_link)

lemma char_field_str:
  "py_strip s = s \<Longrightarrow> s \<noteq> [] \<Longrightarrow> CHR 0x00 \<notin> set s \<Longrightarrow> char_field (Some (JStr s)) = Inr s"
  by (simp add: char_field_def)

lemma link_char_field:
  "char_field (Some (JStr (urlsafe_base64_encode (map of_char (nat_str n))))) =
     Inr (urlsafe_base64_encode (map of_char (nat_str n)))"
proof -
  let ?b = "map of_char (nat_str n) :: nat list"
  have b: "list_all (\<lambda>b. b < 256) ?b" by (simp add: list_all_iff)
  have "?b \<noteq> []" by (simp add: nat_str_nonempty)
  with b have "urlsafe_base64_encode ?b \<noteq> []" by (rule urlsafe_base64_encode_nonempty)
  moreover have ch: "list_all (\<lambda>c. \<not> is_py_space c \<and> c \<noteq> CHR 0x00) (urlsafe_base64_encode ?b)"
    by (rule urlsafe_base64_encode_chars [OF b])
  then have "py_strip (urlsafe_base64_encode ?b) = urlsafe_base64_encode ?b"
    by (intro py_strip_no_space) (simp add: list_all_iff)
  moreover have "CHR 0x00 \<notin> set (urlsafe_base64_encode ?b)"
    using ch unfolding list_all_iff by blast
  ultimately show ?thesis by (intro char_field_str)
qed

lemma set_password_create_ok:
  assumes "char_field (Some (JStr l)) = Inr l" and "link_user db l = Some u" and "check_token u t"
    and "char_field (Some (JStr t)) = Inr t" and "char_field (Some (JStr p)) = Inr p"
  shows "set_password_create make_password check_token
           [(''uidb64'', JStr l), (''token'', JStr t), (''new_password1'', JStr p), (''new_password2'', JStr p)] db
         = (Response (Some (JObj [(''success'', JBool True)])) 200,
            save_user (u\<lparr>usr_password := make_password p\<rparr>) db)"
proof -
  let ?d = "\<lparr>sp_uidb64 = l, sp_token = t, sp_new_password1 = p, sp_new_password2 = p\<rparr>"
  have f: "set_password_fields [(''uidb64'', JStr l), (''token'', JStr t), (''new_password1'', JStr p),
                                (''new_password2'', JStr p)] = Inr ?d"
    using assms(1,4,5) by (simp add: set_password_fields_def dict_get_def)
  have v: "set_password_validate check_token db ?d = Inr (?d, u)"
    using assms(2,3) by (simp add: set_password_validate_def)
  show ?thesis by (simp add: set_password_create_def set_password_is_valid_def f v)
qed

lemma link_user_in: "link_user db l = Some u \<Longrightarrow> u \<in> set (users db)"
  by (auto simp: link_user_def split: sum.splits dest!: qs_get_Inr)

lemma set_password_create_cases:
  "set_password_create make_password check_token data db = (r, db') \<Longrightarrow>
     (\<exists>errs. r = Response (Some (JObj errs)) 400 \<and> db' = db)
   \<or> (\<exists>d u. set_password_fields data = Inr d \<and> set_password_validate check_token db d = Inr (d, u)
        \<and> r = Response (Some (JObj [(''success'', JBool True)])) 200
        \<and> db' = save_user (u\<lparr>usr_password := make_password (sp_new_password1 d)\<rparr>) db)"
  by (auto simp: set_password_create_def set_password_is_valid_def set_password_validate_def
           split: sum.splits if_splits option.splits)

lemma set_password_fields_Inr:
  "set_password_fields data = Inr d \<Longrightarrow>
     char_field (dict_get data ''uidb64'') = Inr (sp_uidb64 d) \<and> char_field (dict_get data ''token'') = Inr (sp_token d)
   \<and> char_field (dict_get data ''new_password1'') = Inr (sp_new_password1 d)
   \<and> char_field (dict_get data ''new_password2'') = Inr (sp_new_password2 d)"
  by (auto simp: set_password_fields_def Let_def split: sum.splits)

lemma char_field_JStr: "char_field (Some (JStr s)) = Inr x \<Longrightarrow> x = py_strip s"
  by (auto simp: char_field_def Let_def split: if_splits)

lemma set_password_validate_Inr:
  "set_password_validate check_token db d = Inr (d', u) \<Longrightarrow>
     d' = d \<and> link_user db (sp_uidb64 d) = Some u \<and> u \<in> set (users db) \<and> check_token u (sp_token d)
   \<and> sp_new_password1 d = sp_new_password2 d"
  by (auto simp: set_password_validate_def split: if_splits option.splits intro: link_user_in)

end
