(* ===== verification/Url_Routing.thy ===== *)
theory Url_Routing
  imports Base64_Codec
begin

text \<open>
  Django's regex URL routing, as far as the routes of these sources use it
  (\<open>django.urls\<close> resolvers of Django 1.11/2.x, \<open>url()\<close> patterns). A route's regex
  is parsed into tokens: literal characters and named groups \<open>(?P<name>\d+)\<close>, after
  the leading \<open>^\<close> and with an optional trailing \<open>$\<close>; other regex syntax is outside
  the model and the parser rejects it. Matching is Python's backtracking search
  anchored at the start: a group takes the longest run of digits first and gives
  digits back on failure, and \<open>$\<close> matches at the end or before a final newline.
  Resolution tries the entries of a URL configuration in order and descends into
  includes; reversal follows \<open>django.urls.reverse\<close> and
  \<open>URLResolver._reverse_with_prefix\<close>: the namespace lookup first (an unknown
  namespace is \<open>NoReverseMatch\<close>), then the refusal of mixed positional and keyword
  arguments (\<open>ValueError\<close>), the candidates for a name with the last defined
  first, the parameter check, the substitution, the
  re-match of the candidate against its pattern, \<open>urlquote\<close> and
  \<open>escape_leading_slashes\<close>. The script prefix is \<open>/\<close>.
\<close>

section \<open>Patterns\<close>

datatype rtok = RLit char | RGroup string

record pattern =
  pt_toks :: "rtok list"
  pt_end :: bool

definition regex_special :: "char \<Rightarrow> bool" where
  "regex_special c = (c \<in> set (''.^$*+?{}[]|()'' @ [CHR 0x5C]))"

definition is_name_char :: "char \<Rightarrow> bool" where
  "is_name_char c = (c = CHR ''_'' \<or> is_digit c
                     \<or> (CHR ''a'' \<le> c \<and> c \<le> CHR ''z'') \<or> (CHR ''A'' \<le> c \<and> c \<le> CHR ''Z''))"

definition group_open :: string where
  "group_open = ''(?P<''"

definition group_close :: string where
  "group_close = CHR ''>'' # CHR 0x5C # ''d+)''"

function parse_body :: "string \<Rightarrow> (rtok list \<times> bool) option" where
  "parse_body s =
     (case s of
        [] \<Rightarrow> Some ([], False)
      | c # cs \<Rightarrow>
          if s = ''$'' then Some ([], True)
          else if take 4 s = group_open then
            (let name = takeWhile is_name_char (drop 4 s); after = drop (4 + length name) s
             in if name \<noteq> [] \<and> take 5 after = group_close
                then map_option (\<lambda>(ts, e). (RGroup name # ts, e)) (parse_body (drop 5 after))
                else None)
          else if regex_special c then None
          else map_option (\<lambda>(ts, e). (RLit c # ts, e)) (parse_body cs))"
  by pat_completeness auto
termination by (relation "measure length") auto

declare parse_body.simps [simp del]

definition parse_pattern :: "string \<Rightarrow> pattern option" where
  "parse_pattern s =
     (case s of
        c # cs \<Rightarrow> if c = CHR ''^'' then map_option (\<lambda>(ts, e). \<lparr>pt_toks = ts, pt_end = e\<rparr>) (parse_body cs)
                  else None
      | [] \<Rightarrow> None)"

fun print_toks :: "rtok list \<Rightarrow> string" where
  "print_toks [] = []"
| "print_toks (RLit c # ts) = c # print_toks ts"
| "print_toks (RGroup n # ts) = group_open @ n @ group_close @ print_toks ts"

definition print_pattern :: "pattern \<Rightarrow> string" where
  "print_pattern p = CHR ''^'' # print_toks (pt_toks p) @ (if pt_end p then ''$'' else [])"

fun wf_tok :: "rtok \<Rightarrow> bool" where
  "wf_tok (RLit c) = (\<not> regex_special c)"
| "wf_tok (RGroup n) = (n \<noteq> [] \<and> list_all is_name_char n)"

fun params :: "rtok list \<Rightarrow> string list" where
  "params [] = []"
| "params (RLit c # ts) = params ts"
| "params (RGroup n # ts) = n # params ts"

section \<open>Matching\<close>

type_synonym kwargs = "(string \<times> string) list"

text \<open>\<open>pattern.regex.search(path)\<close> for an anchored pattern: the keyword arguments
  and the unmatched rest of the path, first match in backtracking order.\<close>

fun rmatch :: "rtok list \<Rightarrow> bool \<Rightarrow> string \<Rightarrow> kwargs \<Rightarrow> (kwargs \<times> string) option"
and rgroup :: "string \<Rightarrow> rtok list \<Rightarrow> bool \<Rightarrow> string \<Rightarrow> kwargs \<Rightarrow> nat \<Rightarrow> (kwargs \<times> string) option" where
  "rmatch [] e s acc = (if \<not> e \<or> s = [] \<or> s = [CHR 0x0A] then Some (acc, s) else None)"
| "rmatch (RLit c # ts) e s acc = (case s of [] \<Rightarrow> None | x # xs \<Rightarrow> if x = c then rmatch ts e xs acc else None)"
| "rmatch (RGroup n # ts) e s acc = rgroup n ts e s acc (length (takeWhile is_digit s))"
| "rgroup n ts e s acc 0 = None"
| "rgroup n ts e s acc (Suc k) =
     (case rmatch ts e (drop (Suc k) s) (acc @ [(n, take (Suc k) s)]) of
        Some r \<Rightarrow> Some r
      | None \<Rightarrow> rgroup n ts e s acc k)"

section \<open>URL configurations\<close>

record url_route =
  ur_regex :: string
  ur_view :: string
  ur_name :: string

text \<open>An entry of a URL configuration: a route, or \<open>url(regex, include(routes,
  namespace=ns))\<close>.\<close>

datatype url_entry = Route url_route | Include string "string option" "url_route list"

definition route_match :: "url_route \<Rightarrow> string \<Rightarrow> kwargs option" where
  "route_match r path =
     (case parse_pattern (ur_regex r) of
        None \<Rightarrow> None
      | Some p \<Rightarrow> map_option fst (rmatch (pt_toks p) (pt_end p) path []))"

fun resolve_routes :: "url_route list \<Rightarrow> string \<Rightarrow> (string \<times> kwargs) option" where
  "resolve_routes [] path = None"
| "resolve_routes (r # rs) path =
     (case route_match r path of Some kw \<Rightarrow> Some (ur_view r, kw) | None \<Rightarrow> resolve_routes rs path)"

fun resolve_entries :: "url_entry list \<Rightarrow> string \<Rightarrow> (string \<times> kwargs) option" where
  "resolve_entries [] path = None"
| "resolve_entries (Route r # es) path =
     (case route_match r path of Some kw \<Rightarrow> Some (ur_view r, kw) | None \<Rightarrow> resolve_entries es path)"
| "resolve_entries (Include rx ns rs # es) path =
     (case parse_pattern rx of
        None \<Rightarrow> resolve_entries es path
      | Some p \<Rightarrow>
          (case rmatch (pt_toks p) (pt_end p) path [] of
             None \<Rightarrow> resolve_entries es path
           | Some (kw0, rest) \<Rightarrow>
               (case resolve_routes rs rest of
                  Some (v, kw) \<Rightarrow> Some (v, kw0 @ kw)
                | None \<Rightarrow> resolve_entries es path)))"

text \<open>\<open>resolve(path)\<close>: the root resolver's \<open>^/\<close>, then the entries.\<close>

definition resolve :: "url_entry list \<Rightarrow> string \<Rightarrow> (string \<times> kwargs) option" where
  "resolve conf path = (case path of c # p \<Rightarrow> if c = CHR ''/'' then resolve_entries conf p else None | [] \<Rightarrow> None)"

text \<open>The names of a route's groups, in order: the keyword arguments a match binds.\<close>

definition route_params :: "url_route \<Rightarrow> string list" where
  "route_params r = (case parse_pattern (ur_regex r) of Some p \<Rightarrow> params (pt_toks p) | None \<Rightarrow> [])"

section \<open>Reversing\<close>

text \<open>\<open>urlquote(url, safe=RFC3986_SUBDELIMS + '/~:@')\<close>.\<close>

definition url_safe :: "char \<Rightarrow> bool" where
  "url_safe c = (is_name_char c \<or> c \<in> set ''.-~!$&()*+,;=/:@'' \<or> c = CHR 0x27)"

definition hex_digit :: "nat \<Rightarrow> char" where
  "hex_digit n = (''0123456789ABCDEF'') ! n"

definition url_quote :: "string \<Rightarrow> string" where
  "url_quote s = concat (map (\<lambda>c. if url_safe c then [c]
                              else concat (map (\<lambda>b. [CHR ''%'', hex_digit (b div 16), hex_digit (b mod 16)])
                                               (utf8_encode [c]))) s)"

definition escape_leading_slashes :: "string \<Rightarrow> string" where
  "escape_leading_slashes url = (if take 2 url = ''//'' then ''/%2F'' @ drop 2 url else url)"

fun fill :: "rtok list \<Rightarrow> kwargs \<Rightarrow> string" where
  "fill [] subs = []"
| "fill (RLit c # ts) subs = c # fill ts subs"
| "fill (RGroup n # ts) subs = (case map_of subs n of Some v \<Rightarrow> v | None \<Rightarrow> []) @ fill ts subs"

text \<open>One candidate of \<open>_reverse_with_prefix\<close>: positional arguments must match the
  number of groups, keyword arguments their names; the substituted URL must match the
  pattern again.\<close>

definition try_candidate :: "pattern \<Rightarrow> string list \<Rightarrow> kwargs \<Rightarrow> string option" where
  "try_candidate p args kw =
     (let ps = params (pt_toks p);
          subs = (if args \<noteq> [] then (if length args = length ps then Some (zip ps args) else None)
                  else if set (map fst kw) = set ps then Some kw else None)
      in case subs of
           None \<Rightarrow> None
         | Some sb \<Rightarrow>
             (let cand = CHR ''/'' # fill (pt_toks p) sb
              in if rmatch (RLit (CHR ''/'') # pt_toks p) (pt_end p) cand [] \<noteq> None
                 then Some (escape_leading_slashes (url_quote cand)) else None))"

text \<open>A candidate: the route's pattern behind the regex of the include it sits in.\<close>

definition candidate_pattern :: "string \<Rightarrow> url_route \<Rightarrow> pattern option" where
  "candidate_pattern prefix r =
     (case (parse_pattern prefix, parse_pattern (ur_regex r)) of
        (Some p, Some q) \<Rightarrow> Some \<lparr>pt_toks = pt_toks p @ pt_toks q, pt_end = pt_end q\<rparr>
      | _ \<Rightarrow> None)"

text \<open>The reverse dictionary of the root resolver for a name: built over the entries
  in reverse order, non-namespaced includes contributing their routes (again last
  first) behind their prefix.\<close>

definition root_candidates :: "url_entry list \<Rightarrow> string \<Rightarrow> (string \<times> url_route) list" where
  "root_candidates conf n =
     concat (map (\<lambda>e. case e of
                         Route r \<Rightarrow> if ur_name r = n then [(''^'', r)] else []
                       | Include rx None rs \<Rightarrow> map (\<lambda>r. (rx, r)) (filter (\<lambda>r. ur_name r = n) (rev rs))
                       | Include rx (Some ns) rs \<Rightarrow> [])
                 (rev conf))"

text \<open>\<open>namespace_dict[ns]\<close>: the first include with that namespace.\<close>

definition ns_candidates :: "url_entry list \<Rightarrow> string \<Rightarrow> string \<Rightarrow> (string \<times> url_route) list option" where
  "ns_candidates conf ns n =
     (case find (\<lambda>e. case e of Include rx (Some m) rs \<Rightarrow> m = ns | _ \<Rightarrow> False) conf of
        Some (Include rx (Some m) rs) \<Rightarrow> Some (map (\<lambda>r. (rx, r)) (filter (\<lambda>r. ur_name r = n) (rev rs)))
      | _ \<Rightarrow> None)"

fun first_candidate :: "(string \<times> url_route) list \<Rightarrow> string list \<Rightarrow> kwargs \<Rightarrow> string option" where
  "first_candidate [] args kw = None"
| "first_candidate ((prefix, r) # cs) args kw =
     (case candidate_pattern prefix r of
        None \<Rightarrow> first_candidate cs args kw
      | Some p \<Rightarrow> (case try_candidate p args kw of Some u \<Rightarrow> Some u | None \<Rightarrow> first_candidate cs args kw))"

text \<open>\<open>reverse(viewname, args=args, kwargs=kwargs)\<close>: the namespace of the name is
  looked up first (an unknown one raises \<open>NoReverseMatch\<close>), then
  \<open>_reverse_with_prefix\<close> refuses positional and keyword arguments together
  (\<open>ValueError\<close>) before it tries the candidates.\<close>

definition reverse :: "url_entry list \<Rightarrow> string \<Rightarrow> string list \<Rightarrow> kwargs \<Rightarrow> exc + string" where
  "reverse conf viewname args kw =
     (let cands = (case py_split CHR '':'' viewname of
                     [n] \<Rightarrow> Some (root_candidates conf n)
                   | [ns, n] \<Rightarrow> ns_candidates conf ns n
                   | _ \<Rightarrow> None)
      in case cands of
           None \<Rightarrow> Inl (NoReverseMatch viewname)
         | Some cs \<Rightarrow>
             if args \<noteq> [] \<and> kw \<noteq> [] then Inl ValueError
             else (case first_candidate cs args kw of
                     Some u \<Rightarrow> Inr u
                   | None \<Rightarrow> Inl (NoReverseMatch viewname)))"

section \<open>Evaluation bundle\<close>

lemmas reverse_defs = reverse_def root_candidates_def ns_candidates_def candidate_pattern_def
  parse_pattern_def try_candidate_def is_name_char_def is_digit_def escape_leading_slashes_def
  resolve_def route_match_def parse_body.simps group_open_def group_close_def regex_special_def

section \<open>Parsing and printing patterns\<close>

text \<open>The parser's steps on a group, on a literal and at the end, and the two
  directions of the round trip between token lists and regex strings.\<close>

lemma takeWhile_name_append:
  "list_all is_name_char n \<Longrightarrow> \<not> is_name_char c \<Longrightarrow> takeWhile is_name_char (n @ c # s) = n"
  by (induction n) auto

lemma parse_body_open:
  assumes "take 4 s = group_open"
  shows "parse_body s =
           (let name = takeWhile is_name_char (drop 4 s); after = drop (4 + length name) s
            in if name \<noteq> [] \<and> take 5 after = group_close
               then map_option (\<lambda>(ts, e). (RGroup name # ts, e)) (parse_body (drop 5 after))
               else None)"
proof -
  obtain c cs where s: "s = c # cs" using assms by (cases s) (auto simp: group_open_def)
  have "s \<noteq> ''$''" using assms by (auto simp: group_open_def)
  then show ?thesis using assms unfolding s by (subst parse_body.simps) simp
qed

lemma parse_body_group:
  assumes "n \<noteq> []" and "list_all is_name_char n"
  shows "parse_body (group_open @ n @ group_close @ s) = map_option (\<lambda>(ts, e). (RGroup n # ts, e)) (parse_body s)"
proof -
  have t4: "take 4 (group_open @ n @ group_close @ s) = group_open"
    and d4: "drop 4 (group_open @ n @ group_close @ s) = n @ group_close @ s"
    by (simp_all add: group_open_def)
  have tw: "takeWhile is_name_char (n @ group_close @ s) = n"
    using assms(2) by (simp add: group_close_def takeWhile_name_append is_name_char_def is_digit_def)
  have "length group_open = 4" by (simp add: group_open_def)
  then have dn: "drop (4 + length n) (group_open @ n @ group_close @ s) = group_close @ s"
    by (simp add: drop_append)
  have t5: "take 5 (group_close @ s) = group_close" and d5: "drop 5 (group_close @ s) = s"
    by (simp_all add: group_close_def)
  show ?thesis
    unfolding parse_body_open [OF t4] Let_def d4 tw dn t5 d5 using assms(1) by simp
qed

lemma parse_body_char:
  assumes "c # cs \<noteq> ''$''" and "take 4 (c # cs) \<noteq> group_open"
  shows "parse_body (c # cs) =
           (if regex_special c then None else map_option (\<lambda>(ts, e). (RLit c # ts, e)) (parse_body cs))"
  by (subst parse_body.simps) (simp only: list.case assms not_False_eq_True if_False simp_thms)

lemma parse_body_lit:
  assumes "\<not> regex_special c"
  shows "parse_body (c # s) = map_option (\<lambda>(ts, e). (RLit c # ts, e)) (parse_body s)"
proof -
  have h: "c # s \<noteq> ''$''" "take 4 (c # s) \<noteq> group_open"
    using assms by (auto simp: regex_special_def group_open_def)
  show ?thesis unfolding parse_body_char [OF h] using assms by simp
qed

lemma parse_body_end: "parse_body (if e then ''$'' else []) = Some ([], e)"
  by (subst parse_body.simps) simp

lemma parse_print_toks:
  "list_all wf_tok ts \<Longrightarrow> parse_body (print_toks ts @ (if e then ''$'' else [])) = Some (ts, e)"
proof (induction ts rule: print_toks.induct)
  case 1
  then show ?case using parse_body_end by simp
next
  case (2 c ts)
  then show ?case by (simp add: parse_body_lit)
next
  case (3 n ts)
  then show ?case by (simp add: parse_body_group)
qed

lemma parse_body_print:
  "parse_body s = Some (ts, e) \<Longrightarrow> list_all wf_tok ts \<and> print_toks ts @ (if e then ''$'' else []) = s"
proof (induction s arbitrary: ts e rule: parse_body.induct)
  case (1 s)
  show ?case
  proof (cases s)
    case Nil
    then show ?thesis using "1.prems" by (simp add: parse_body.simps)
  next
    case (Cons c cs)
    show ?thesis
    proof (cases "s = ''$''")
      case True
      then show ?thesis using "1.prems" by (simp add: parse_body.simps)
    next
      case nd: False
      show ?thesis
      proof (cases "take 4 s = group_open")
        case True
        define name where "name = takeWhile is_name_char (drop 4 s)"
        define after where "after = drop (4 + length name) s"
        have ok: "name \<noteq> [] \<and> take 5 after = group_close"
          and rec: "map_option (\<lambda>(ts, e). (RGroup name # ts, e)) (parse_body (drop 5 after)) = Some (ts, e)"
          using "1.prems" unfolding parse_body_open [OF True] Let_def name_def [symmetric] after_def [symmetric]
          by (simp_all split: if_splits)
        obtain ts' where ts: "ts = RGroup name # ts'" and r: "parse_body (drop 5 after) = Some (ts', e)"
          using rec by auto
        have IH: "list_all wf_tok ts' \<and> print_toks ts' @ (if e then ''$'' else []) = drop 5 after"
          using "1.IH"(1) [OF Cons nd True name_def after_def ok r] .
        have s1: "s = group_open @ drop 4 s" using True by (metis append_take_drop_id)
        have s2: "drop 4 s = name @ drop (length name) (drop 4 s)"
          unfolding name_def by (metis takeWhile_dropWhile_id dropWhile_eq_drop)
        have s3: "after = group_close @ drop 5 after"
          using ok by (metis append_take_drop_id)
        have "s = group_open @ name @ after"
          using s1 s2 by (simp add: after_def add.commute drop_drop)
        moreover have "list_all is_name_char name"
          unfolding name_def list_all_iff by (auto dest: set_takeWhileD)
        ultimately show ?thesis
          using IH ts s3 ok by (metis list.pred_inject(2) print_toks.simps(3) wf_tok.simps(2) append.assoc)
      next
        case ng: False
        have pb: "parse_body s = (if regex_special c then None else map_option (\<lambda>(ts, e). (RLit c # ts, e)) (parse_body cs))"
          using parse_body_char [of c cs] nd ng unfolding Cons by blast
        then have "\<not> regex_special c" and r: "map_option (\<lambda>(ts, e). (RLit c # ts, e)) (parse_body cs) = Some (ts, e)"
          using "1.prems" by (simp_all split: if_splits)
        then obtain ts' where "ts = RLit c # ts'" "parse_body cs = Some (ts', e)" by auto
        then show ?thesis using "1.IH"(2) [OF Cons nd ng] Cons \<open>\<not> regex_special c\<close> by auto
      qed
    qed
  qed
qed

text \<open>The round trip on whole patterns, both ways.\<close>

lemma parse_print_pattern:
  "list_all wf_tok (pt_toks p) \<Longrightarrow> parse_pattern (print_pattern p) = Some p"
  by (simp add: parse_pattern_def print_pattern_def parse_print_toks)

lemma parse_pattern_wf:
  "parse_pattern s = Some p \<Longrightarrow> list_all wf_tok (pt_toks p) \<and> print_pattern p = s"
  by (auto simp: parse_pattern_def print_pattern_def dest!: parse_body_print split: list.splits if_splits)

lemma parsed_route_roundtrip:
  assumes "parse_pattern (ur_regex r) = Some p"
  shows "list_all wf_tok (pt_toks p) \<and> print_pattern p = ur_regex r \<and> parse_pattern (print_pattern p) = Some p"
  using parse_pattern_wf [OF assms] parse_print_pattern by blast

lemma parsed_routes_wf:
  assumes "list_all (\<lambda>r. parse_pattern (ur_regex r) \<noteq> None) rs"
  shows "list_all (\<lambda>r. \<exists>p. parse_pattern (ur_regex r) = Some p \<and> list_all wf_tok (pt_toks p)
                        \<and> print_pattern p = ur_regex r \<and> parse_pattern (print_pattern p) = Some p) rs"
  using assms by (induction rs) (auto dest: parsed_route_roundtrip)

section \<open>Matching digit groups\<close>

text \<open>A group \<open>\d+\<close> followed by a non-digit literal binds exactly the run of digits
  before it: the backtracking of \<open>rgroup\<close> through shorter runs finds nothing.\<close>

lemma takeWhile_digits_append:
  "list_all is_digit v \<Longrightarrow> \<not> is_digit c \<Longrightarrow> takeWhile is_digit (v @ c # s) = v"
  by (induction v) auto

lemma rgroup_short:
  assumes "list_all is_digit v" and "\<not> is_digit c" and "k < length v"
  shows "rgroup n (RLit c # ts) e (v @ c # s) acc k = None"
  using assms(3)
proof (induction k)
  case 0
  then show ?case by simp
next
  case (Suc k)
  have "drop (Suc k) (v @ c # s) = drop (Suc k) v @ c # s" using Suc.prems by simp
  moreover have "drop (Suc k) v \<noteq> []" using Suc.prems by simp
  moreover have "is_digit (hd (drop (Suc k) v))"
    using assms(1) Suc.prems by (simp add: hd_drop_conv_nth list_all_iff)
  ultimately have "rmatch (RLit c # ts) e (drop (Suc k) (v @ c # s)) acc' = None" for acc'
    using assms(2) by (cases "drop (Suc k) v") auto
  with Suc show ?case by simp
qed

lemma rmatch_group_digits:
  assumes "v \<noteq> []" and "list_all is_digit v" and "\<not> is_digit c"
  shows "rmatch (RGroup n # RLit c # ts) e (v @ c # s) acc = rmatch ts e s (acc @ [(n, v)])"
proof -
  obtain k where k: "length v = Suc k" using assms(1) by (cases v) auto
  have "rgroup n (RLit c # ts) e (v @ c # s) acc k = None"
    by (rule rgroup_short [OF assms(2,3)]) (simp add: k)
  then show ?thesis
    using k by (simp add: takeWhile_digits_append [OF assms(2,3)] split: option.splits)
qed

lemma rgroup_digits:
  assumes "v \<noteq> []" and "list_all is_digit v" and "\<not> is_digit c"
  shows "rgroup n (RLit c # ts) e (v @ c # s) acc (length (takeWhile is_digit (v @ c # s)))
         = rmatch ts e s (acc @ [(n, v)])"
  using rmatch_group_digits [OF assms, of n ts e s acc] by simp

lemma url_quote_safe: "list_all url_safe s \<Longrightarrow> url_quote s = s"
  by (induction s) (simp_all add: url_quote_def)

lemma digit_url_safe: "is_digit c \<Longrightarrow> url_safe c"
  by (simp add: url_safe_def is_name_char_def)

section \<open>Reversal results\<close>

text \<open>A reversed URL starts with the script prefix, so it is never empty.\<close>

lemma url_quote_slash: "url_quote (CHR ''/'' # s) = CHR ''/'' # url_quote s"
  by (simp add: url_quote_def url_safe_def)

lemma escape_leading_slashes_nonempty: "u \<noteq> [] \<Longrightarrow> escape_leading_slashes u \<noteq> []"
  by (simp add: escape_leading_slashes_def)

lemma try_candidate_nonempty: "try_candidate p args kw = Some u \<Longrightarrow> u \<noteq> []"
  by (auto simp: try_candidate_def Let_def url_quote_slash escape_leading_slashes_nonempty
           split: option.splits if_splits)

lemma first_candidate_nonempty: "first_candidate cs args kw = Some u \<Longrightarrow> u \<noteq> []"
  by (induction cs args kw rule: first_candidate.induct)
     (auto dest: try_candidate_nonempty split: option.splits)

lemma reverse_nonempty: "reverse conf v args kw = Inr u \<Longrightarrow> u \<noteq> []"
  by (auto simp: reverse_def Let_def dest: first_candidate_nonempty split: option.splits if_splits list.splits)

end
