(* ===== verification/Url_Helpers.thy ===== *)
theory Url_Helpers
  imports Url_Routing Auth_Api
begin

text \<open>
  The template helpers of \<open>src/shuup/front/template_helpers/urls.py\<close> over the routing
  model of \<open>Url_Routing\<close>: \<open>get_url\<close> (reverse, \<open>None\<close> on \<open>NoReverseMatch\<close>),
  \<open>has_url\<close> (its truth value) and \<open>model_url\<close> (the configured resolver of
  \<open>SHUUP_MODEL_URL_RESOLVER_SPEC\<close>, a parameter, \<open>None\<close> when not callable). Beside them,
  the routes Django REST framework's \<open>SimpleRouter\<close> derives from the registrations of
  \<open>populate_api\<close> (\<open>src/shuup/front/apps/auth/api.py\<close>): for a view set whose only
  action is \<open>create\<close>, the list route \<open>^prefix/$\<close> named \<open>basename-list\<close>.
\<close>

section \<open>urls.py\<close>

definition get_url :: "url_entry list \<Rightarrow> string \<Rightarrow> string list \<Rightarrow> kwargs \<Rightarrow> exc + string option" where
  "get_url conf url args kw =
     (case reverse conf url args kw of
        Inr u \<Rightarrow> Inr (Some u)
      | Inl (NoReverseMatch m) \<Rightarrow> Inr None
      | Inl e \<Rightarrow> Inl e)"

text \<open>\<open>bool(get_url(...))\<close>: \<open>None\<close> and the empty string are false.\<close>

definition has_url :: "url_entry list \<Rightarrow> string \<Rightarrow> string list \<Rightarrow> kwargs \<Rightarrow> exc + bool" where
  "has_url conf url args kw =
     map_sum id (\<lambda>u. case u of None \<Rightarrow> False | Some s \<Rightarrow> s \<noteq> []) (get_url conf url args kw)"

definition model_url ::
  "('c \<Rightarrow> 'm \<Rightarrow> bool \<Rightarrow> string option) option \<Rightarrow> 'c \<Rightarrow> 'm \<Rightarrow> bool \<Rightarrow> string option" where
  "model_url model_url_method context model absolute =
     (case model_url_method of
        None \<Rightarrow> None
      | Some f \<Rightarrow> (case f context model absolute of Some uri \<Rightarrow> Some uri | None \<Rightarrow> None))"

section \<open>The router of the password API\<close>

definition viewset_name :: "viewset \<Rightarrow> string" where
  "viewset_name v = (case v of SetPasswordViewSet \<Rightarrow> ''SetPasswordViewSet''
                              | PasswordResetViewSet \<Rightarrow> ''PasswordResetViewSet'')"

definition router_urls :: "(string \<times> viewset \<times> string) list \<Rightarrow> url_route list" where
  "router_urls regs =
     map (\<lambda>(prefix, v, basename). \<lparr>ur_regex = CHR ''^'' # prefix @ ''/$'', ur_view = viewset_name v,
                                   ur_name = basename @ ''-list''\<rparr>) regs"

text \<open>The front API mounted under \<open>^api/\<close>, its router holding the registrations
  of \<open>populate_api\<close>.\<close>

definition api_urlconf :: "url_entry list" where
  "api_urlconf = [Include ''^api/'' None (router_urls (populate_api []))]"

end
