(* ===== verification/Admin_Modules.thy ===== *)
theory Admin_Modules
  imports Url_Routing
begin

text \<open>
  The two admin modules of the sources as data: \<open>AddonModule\<close>
  (\<open>src/shuup/addons/admin_module/__init__.py\<close>) and \<open>StocksAdminModule\<close>
  (\<open>src/shuup/simple_supplier/admin_module/__init__.py\<close>), each with its \<open>get_urls\<close>
  (routes built by \<open>admin_url\<close> with their permission definitions) and
  \<open>get_menu_entries\<close>, and the admin URL configuration Shuup mounts them in: the
  routes of the modules, in module order, included under \<open>^sa/\<close> with the namespace
  \<open>shuup_admin\<close>. The application configuration of
  \<open>src/shuup/order_printouts/apps.py\<close> is its \<open>provides\<close> dictionary.
\<close>

section \<open>Admin routes and menu entries\<close>

datatype permission_def =
    AdminDefaultModelPermissionDef string string
  | AdminCustomModelPermissionDef string string string

record admin_route =
  ar_route :: url_route
  ar_permissions :: "permission_def list"

definition admin_url :: "string \<Rightarrow> string \<Rightarrow> string \<Rightarrow> permission_def list \<Rightarrow> admin_route" where
  "admin_url regex view name permissions =
     \<lparr>ar_route = \<lparr>ur_regex = regex, ur_view = view, ur_name = name\<rparr>, ar_permissions = permissions\<rparr>"

record menu_entry =
  me_text :: string
  me_icon :: "string option"
  me_url :: string
  me_category :: "string option"
  me_subcategory :: "string option"
  me_ordering :: int

definition MenuEntry :: "string \<Rightarrow> string option \<Rightarrow> string \<Rightarrow> string option \<Rightarrow> string option \<Rightarrow> int \<Rightarrow> menu_entry" where
  "MenuEntry text icon url category subcategory ord =
     \<lparr>me_text = text, me_icon = icon, me_url = url, me_category = category,
      me_subcategory = subcategory, me_ordering = ord\<rparr>"

definition ADDONS_MENU_CATEGORY :: string where "ADDONS_MENU_CATEGORY = ''addons''"

definition STOREFRONT_MENU_CATEGORY :: string where "STOREFRONT_MENU_CATEGORY = ''storefront''"

section \<open>AddonModule\<close>

definition addon_module_name :: string where "addon_module_name = ''Addons''"

definition addon_breadcrumbs_menu_entry :: menu_entry where
  "addon_breadcrumbs_menu_entry = MenuEntry addon_module_name None ''shuup_admin:addon.list'' None None 9999"

definition addon_get_urls :: "admin_route list" where
  "addon_get_urls =
     [admin_url ''^addons/$'' ''shuup.addons.admin_module.views.AddonListView'' ''addon.list''
        [AdminCustomModelPermissionDef ''Shop'' ''list_addons'' ''Can list addons''],
      admin_url ''^addons/add/$'' ''shuup.addons.admin_module.views.AddonUploadView'' ''addon.upload''
        [AdminCustomModelPermissionDef ''Shop'' ''addon_upload'' ''Can upload addons''],
      admin_url ''^addons/add/confirm/$'' ''shuup.addons.admin_module.views.AddonUploadConfirmView''
        ''addon.upload_confirm'' [AdminCustomModelPermissionDef ''Shop'' ''addon_upload'' ''Can upload addons''],
      admin_url ''^addons/reload/$'' ''shuup.addons.admin_module.views.ReloadView'' ''addon.reload''
        [AdminCustomModelPermissionDef ''Shop'' ''addon_reload_app'' ''Can reload application'']]"

definition addon_get_menu_entries :: "menu_entry list" where
  "addon_get_menu_entries =
     [MenuEntry ''Addons'' (Some ''fa fa-puzzle-piece'') ''shuup_admin:addon.list'' (Some ADDONS_MENU_CATEGORY) None 9999]"

section \<open>StocksAdminModule\<close>

definition stocks_module_name :: string where "stocks_module_name = ''Stock management''"

definition stocks_get_urls :: "admin_route list" where
  "stocks_get_urls =
     [admin_url (''^adjust-stock/(?P<supplier_id>'' @ CHR 0x5C # ''d+)/(?P<product_id>'' @ CHR 0x5C # ''d+)/'')
        ''shuup.simple_supplier.admin_module.views.process_stock_adjustment'' ''simple_supplier.stocks''
        [AdminDefaultModelPermissionDef ''StockAdjustment'' ''list''],
      admin_url (''^alert-limit/(?P<supplier_id>'' @ CHR 0x5C # ''d+)/(?P<product_id>'' @ CHR 0x5C # ''d+)/'')
        ''shuup.simple_supplier.admin_module.views.process_alert_limit'' ''simple_supplier.alert_limits''
        [AdminDefaultModelPermissionDef ''StockAdjustment'' ''list''],
      admin_url ''^stocks/'' ''shuup.simple_supplier.admin_module.views.StocksListView'' ''simple_supplier.stocks''
        [AdminDefaultModelPermissionDef ''StockAdjustment'' ''list''],
      admin_url ''^list-settings/'' ''shuup.admin.modules.settings.views.ListSettingsView''
        ''simple_supplier.list_settings'' [AdminDefaultModelPermissionDef ''StockAdjustment'' ''list'']]"

definition stocks_get_menu_entries :: "menu_entry list" where
  "stocks_get_menu_entries =
     [MenuEntry stocks_module_name (Some ''fa fa-cubes'') ''shuup_admin:simple_supplier.stocks''
        (Some STOREFRONT_MENU_CATEGORY) (Some ''settings'') 6]"

section \<open>The admin URL configuration\<close>

definition admin_conf :: "admin_route list \<Rightarrow> url_entry" where
  "admin_conf routes = Include ''^sa/'' (Some ''shuup_admin'') (map ar_route routes)"

text \<open>The admin site with the two modules of the sources registered, addons first.\<close>

definition admin_urlconf :: "url_entry list" where
  "admin_urlconf = [admin_conf (addon_get_urls @ stocks_get_urls)]"

section \<open>Order printouts\<close>

text \<open>\<open>shuup.order_printouts.apps.AppConfig\<close>: its name, label and the
  \<open>provides\<close> dictionary through which the admin finds the printouts module and
  the order section.\<close>

record app_config =
  ac_name :: string
  ac_verbose_name :: string
  ac_label :: string
  ac_provides :: "(string \<times> string list) list"

definition order_printouts_config :: app_config where
  "order_printouts_config =
     \<lparr>ac_name = ''shuup.order_printouts'', ac_verbose_name = ''Order printouts'',
      ac_label = ''shuup_order_printouts'',
      ac_provides =
        [(''admin_module'', [''shuup.order_printouts.admin_module:PrintoutsAdminModule'']),
         (''admin_order_section'', [''shuup.order_printouts.admin_module.section:PrintoutsSection''])]\<rparr>"

text \<open>\<open>_get_provide_specs_from_apps(category)\<close> over the installed applications, in
  order: the specs every application lists under the category, each kept once, at
  its first occurrence.\<close>

definition add_provide_specs :: "string list \<Rightarrow> string list \<Rightarrow> string list" where
  "add_provide_specs acc specs = fold (\<lambda>s l. if s \<in> set l then l else l @ [s]) specs acc"

definition get_provide_specs :: "app_config list \<Rightarrow> string \<Rightarrow> string list" where
  "get_provide_specs apps category =
     fold (\<lambda>a acc. add_provide_specs acc (case map_of (ac_provides a) category of Some specs \<Rightarrow> specs | None \<Rightarrow> []))
          apps []"

section \<open>Reversing and resolving the admin routes\<close>

text \<open>The definitions the evaluation of reversal and resolution on the admin
  configuration unfolds.\<close>

lemmas admin_route_defs = admin_urlconf_def admin_conf_def addon_get_urls_def stocks_get_urls_def admin_url_def

lemmas route_core = admin_route_defs reverse_defs

lemmas route_eval = route_core url_quote_def url_safe_def

lemma group_path_safe:
  assumes "list_all is_digit v1" "list_all is_digit v2"
  shows "url_quote (''/sa/adjust-stock/'' @ v1 @ ''/'' @ v2 @ ''/'') = ''/sa/adjust-stock/'' @ v1 @ ''/'' @ v2 @ ''/''"
    and "url_quote (''/sa/alert-limit/'' @ v1 @ ''/'' @ v2 @ ''/'') = ''/sa/alert-limit/'' @ v1 @ ''/'' @ v2 @ ''/''"
  using assms by (auto intro!: url_quote_safe simp: list_all_iff digit_url_safe url_safe_def is_name_char_def)

lemma roundtrip_groupless:
  assumes "r \<in> set (map ar_route addon_get_urls) \<or> r = ar_route (stocks_get_urls ! 2) \<or> r = ar_route (stocks_get_urls ! 3)"
    and "length vs = length (route_params r)"
  shows "\<exists>u. reverse admin_urlconf (''shuup_admin:'' @ ur_name r) [] (zip (route_params r) vs) = Inr u
           \<and> resolve admin_urlconf u = Some (ur_view r, zip (route_params r) vs)"
  using assms by (auto simp: route_eval admin_urlconf_def route_params_def)

lemma roundtrip_adjust:
  assumes "v1 \<noteq> []" "list_all is_digit v1" "v2 \<noteq> []" "list_all is_digit v2"
  shows "reverse admin_urlconf ''shuup_admin:simple_supplier.stocks'' [] [(''supplier_id'', v1), (''product_id'', v2)]
           = Inr (''/sa/adjust-stock/'' @ v1 @ ''/'' @ v2 @ ''/'')
       \<and> resolve admin_urlconf (''/sa/adjust-stock/'' @ v1 @ ''/'' @ v2 @ ''/'')
           = Some (''shuup.simple_supplier.admin_module.views.process_stock_adjustment'',
                   [(''supplier_id'', v1), (''product_id'', v2)])"
proof -
  have nd: "\<not> is_digit (CHR ''/'')" by (simp add: is_digit_def)
  show ?thesis
    using assms group_path_safe(1) [OF assms(2,4)]
    by (simp add: route_core admin_urlconf_def rgroup_digits [OF _ _ nd])
qed

lemma roundtrip_alert:
  assumes "v1 \<noteq> []" "list_all is_digit v1" "v2 \<noteq> []" "list_all is_digit v2"
  shows "reverse admin_urlconf ''shuup_admin:simple_supplier.alert_limits'' [] [(''supplier_id'', v1), (''product_id'', v2)]
           = Inr (''/sa/alert-limit/'' @ v1 @ ''/'' @ v2 @ ''/'')
       \<and> resolve admin_urlconf (''/sa/alert-limit/'' @ v1 @ ''/'' @ v2 @ ''/'')
           = Some (''shuup.simple_supplier.admin_module.views.process_alert_limit'',
                   [(''supplier_id'', v1), (''product_id'', v2)])"
proof -
  have nd: "\<not> is_digit (CHR ''/'')" by (simp add: is_digit_def)
  show ?thesis
    using assms group_path_safe(2) [OF assms(2,4)]
    by (simp add: route_core admin_urlconf_def rgroup_digits [OF _ _ nd])
qed


lemma admin_route_cases:
  assumes "r \<in> set (map ar_route (addon_get_urls @ stocks_get_urls))"
  obtains "r \<in> set (map ar_route addon_get_urls) \<or> r = ar_route (stocks_get_urls ! 2) \<or> r = ar_route (stocks_get_urls ! 3)"
    | "r = ar_route (stocks_get_urls ! 0)" | "r = ar_route (stocks_get_urls ! 1)"
  using assms unfolding stocks_get_urls_def by auto

lemma stocks_group_routes:
  "ur_name (ar_route (stocks_get_urls ! 0)) = ''simple_supplier.stocks''"
  "ur_view (ar_route (stocks_get_urls ! 0)) = ''shuup.simple_supplier.admin_module.views.process_stock_adjustment''"
  "route_params (ar_route (stocks_get_urls ! 0)) = [''supplier_id'', ''product_id'']"
  "ur_name (ar_route (stocks_get_urls ! 1)) = ''simple_supplier.alert_limits''"
  "ur_view (ar_route (stocks_get_urls ! 1)) = ''shuup.simple_supplier.admin_module.views.process_alert_limit''"
  "route_params (ar_route (stocks_get_urls ! 1)) = [''supplier_id'', ''product_id'']"
  by (simp_all add: route_core route_params_def)

section \<open>The provides lookup\<close>

lemma add_provide_specs_set: "set (add_provide_specs acc specs) = set acc \<union> set specs"
  unfolding add_provide_specs_def by (induction specs arbitrary: acc) auto

lemma add_provide_specs_distinct: "distinct acc \<Longrightarrow> distinct (add_provide_specs acc specs)"
  unfolding add_provide_specs_def by (induction specs arbitrary: acc) auto

lemma fold_provide_specs:
  "set (fold (\<lambda>a acc. add_provide_specs acc (case map_of (ac_provides a) c of Some specs \<Rightarrow> specs | None \<Rightarrow> [])) apps acc)
     = set acc \<union> (\<Union>a \<in> set apps. set (case map_of (ac_provides a) c of Some specs \<Rightarrow> specs | None \<Rightarrow> []))
   \<and> (distinct acc \<longrightarrow> distinct (fold (\<lambda>a acc. add_provide_specs acc (case map_of (ac_provides a) c of Some specs \<Rightarrow> specs | None \<Rightarrow> [])) apps acc))"
  by (induction apps arbitrary: acc) (auto simp: add_provide_specs_set add_provide_specs_distinct)

lemma get_provide_specs_set:
  "set (get_provide_specs apps c) = (\<Union>a \<in> set apps. set (case map_of (ac_provides a) c of Some specs \<Rightarrow> specs | None \<Rightarrow> []))"
  "distinct (get_provide_specs apps c)"
  using fold_provide_specs [of c apps "[]"] by (simp_all add: get_provide_specs_def)

end
