(* ===== verification/Migrations.thy ===== *)
theory Migrations
  imports Prelude "HOL-Library.AList"
begin

text \<open>
  The schema migrations \<open>0007_attributesfiltersettingsmodel\<close> and
  \<open>0010_auto_20180730_1619\<close> of \<open>src/shuup/front/apps/product_filter/migrations/\<close>
  over Django's migration state (Django 1.11, \<open>django.db.migrations\<close>): a project
  state maps \<open>(app_label, model_name_lower)\<close> to a model state with its fields and
  options, and the three operations the two migrations use act on it through their
  \<open>state_forwards\<close>, raising \<open>KeyError\<close> for a model the state lacks and
  \<open>AttributeError\<close> when \<open>RemoveField\<close> names a field the model lacks. The executor
  applies a migration of a plan once its dependencies are recorded as applied; the
  database side (\<open>database_forwards\<close>, the schema editor) is not modelled.
\<close>

section \<open>Model states\<close>

text \<open>The field classes of the migrations, with the arguments the migrations pass:
  \<open>AutoField(verbose_name)\<close> (auto-created primary key), \<open>BooleanField(default,
  verbose_name)\<close>, \<open>SmallIntegerField(choices, verbose_name)\<close> and
  \<open>ForeignKey(default, to)\<close> (deleting in cascade).\<close>

datatype mfield =
    AutoField string
  | BooleanField bool string
  | SmallIntegerField "(int \<times> string) list" string
  | ForeignKey int string

fun is_relation :: "mfield \<Rightarrow> bool" where
  "is_relation (ForeignKey d t) = True"
| "is_relation _ = False"

datatype optval = OStr string | OList "string list"

type_synonym options = "(string \<times> optval) list"

record model_state =
  ms_app :: string
  ms_name :: string
  ms_fields :: "(string \<times> mfield) list"
  ms_options :: options

type_synonym project_state = "((string \<times> string) \<times> model_state) list"

text \<open>\<open>str.lower()\<close> on the ASCII letters of model names.\<close>

definition py_lower :: "string \<Rightarrow> string" where
  "py_lower s = map (\<lambda>c. if CHR ''A'' \<le> c \<and> c \<le> CHR ''Z'' then char_of (of_char c + (32::nat)) else c) s"

text \<open>\<open>ModelState(app_label, name, fields, options)\<close>: the options default to a dictionary
  holding \<open>indexes = []\<close> (\<open>options.setdefault('indexes', [])\<close>).\<close>

definition ModelState :: "string \<Rightarrow> string \<Rightarrow> (string \<times> mfield) list \<Rightarrow> options \<Rightarrow> model_state" where
  "ModelState app name fs opts =
     \<lparr>ms_app = app, ms_name = name, ms_fields = fs,
      ms_options = (if map_of opts ''indexes'' = None then opts @ [(''indexes'', OList [])] else opts)\<rparr>"

definition model_key :: "model_state \<Rightarrow> string \<times> string" where
  "model_key m = (ms_app m, py_lower (ms_name m))"

text \<open>\<open>ProjectState.add_model\<close>: \<open>self.models[(app_label, name_lower)] = model_state\<close>.\<close>

definition add_model :: "model_state \<Rightarrow> project_state \<Rightarrow> project_state" where
  "add_model m ps = AList.update (model_key m) m ps"

text \<open>\<open>KeyError\<close> of \<open>state.models[app_label, name]\<close>, showing the tuple key.\<close>

definition model_key_error :: "string \<Rightarrow> string \<Rightarrow> exc" where
  "model_key_error app name = KeyError (''('' @ CHR 0x27 # app @ CHR 0x27 # '', '' @ CHR 0x27 # name @ [CHR 0x27, CHR '')''])"

section \<open>Operations\<close>

datatype operation =
    CreateModel string "(string \<times> mfield) list"
  | AlterModelOptions string options
  | RemoveField string string

definition ALTER_OPTION_KEYS :: "string list" where
  "ALTER_OPTION_KEYS =
     [''base_manager_name'', ''default_manager_name'', ''get_latest_by'', ''managed'', ''ordering'',
      ''permissions'', ''default_permissions'', ''select_on_save'', ''verbose_name'', ''verbose_name_plural'']"

text \<open>\<open>AlterModelOptions.state_forwards\<close> on the options: \<open>options.update(self.options)\<close>,
  then every key of \<open>ALTER_OPTION_KEYS\<close> the operation does not set is deleted.\<close>

definition alter_options :: "options \<Rightarrow> options \<Rightarrow> options" where
  "alter_options old new =
     filter (\<lambda>(k, v). k \<in> set (map fst new) \<or> k \<notin> set ALTER_OPTION_KEYS)
            (fold (\<lambda>(k, v) acc. AList.update k v acc) new old)"

text \<open>\<open>Operation.state_forwards(app_label, state)\<close> of the three operations.
  \<open>RemoveField\<close> keeps the fields of other names; when none had its name,
  \<open>old_field\<close> stays \<open>None\<close> and \<open>old_field.is_relation\<close> raises.\<close>

fun state_forwards :: "string \<Rightarrow> operation \<Rightarrow> project_state \<Rightarrow> exc + project_state" where
  "state_forwards app (CreateModel name fs) ps = Inr (add_model (ModelState app name fs []) ps)"
| "state_forwards app (AlterModelOptions name opts) ps =
     (case map_of ps (app, py_lower name) of
        None \<Rightarrow> Inl (model_key_error app (py_lower name))
      | Some m \<Rightarrow> Inr (AList.update (app, py_lower name) (m\<lparr>ms_options := alter_options (ms_options m) opts\<rparr>) ps))"
| "state_forwards app (RemoveField model name) ps =
     (case map_of ps (app, py_lower model) of
        None \<Rightarrow> Inl (model_key_error app (py_lower model))
      | Some m \<Rightarrow>
          (if name \<in> set (map fst (ms_fields m))
           then Inr (AList.update (app, py_lower model)
                       (m\<lparr>ms_fields := filter (\<lambda>(n, f). n \<noteq> name) (ms_fields m)\<rparr>) ps)
           else Inl (AttributeError (CHR 0x27 # ''NoneType'' @ CHR 0x27 # '' object has no attribute '' @ CHR 0x27 # ''is_relation'' @ [CHR 0x27]))))"

section \<open>Migrations and the executor\<close>

record migration =
  mg_app :: string
  mg_name :: string
  mg_deps :: "(string \<times> string) list"
  mg_ops :: "operation list"

definition mig_key :: "migration \<Rightarrow> string \<times> string" where
  "mig_key m = (mg_app m, mg_name m)"

definition migration_0007 :: migration where
  "migration_0007 =
     \<lparr>mg_app = ''product_filter'', mg_name = ''0007_attributesfiltersettingsmodel'',
      mg_deps = [(''shuup'', ''0045_disable_default_marketing_permission''),
                 (''product_filter'', ''0006_auto_20180714_1208'')],
      mg_ops = [CreateModel ''AttributesFilterSettingsModel''
                  [(''id'', AutoField ''ID''),
                   (''enabled'', BooleanField True ''Enabled''),
                   (''filter_type'', SmallIntegerField [(1, ''Checkbox''), (2, ''Droupbox''), (3, ''Range'')] ''Filter type''),
                   (''attribute'', ForeignKey 1 ''shuup.Attribute'')]]\<rparr>"

definition migration_0010 :: migration where
  "migration_0010 =
     \<lparr>mg_app = ''product_filter'', mg_name = ''0010_auto_20180730_1619'',
      mg_deps = [(''product_filter'', ''0009_auto_20180730_1600'')],
      mg_ops = [AlterModelOptions ''attributesfiltersettingsmodel''
                  [(''verbose_name'', OStr ''Filter attribute setting''),
                   (''verbose_name_plural'', OStr ''Filter attributes settings'')],
                AlterModelOptions ''categoriesfiltersettingsmodel''
                  [(''verbose_name'', OStr ''Filter category setting''),
                   (''verbose_name_plural'', OStr ''Filter categories settings'')],
                RemoveField ''categoriesfiltersettingsmodel'' ''filter_type'']\<rparr>"

text \<open>\<open>Migration.apply\<close> on the project state: the operations in order, the first
  exception aborting the migration.\<close>

fun apply_ops :: "string \<Rightarrow> operation list \<Rightarrow> project_state \<Rightarrow> exc + project_state" where
  "apply_ops app [] ps = Inr ps"
| "apply_ops app (op # ops) ps = ebind (state_forwards app op ps) (apply_ops app ops)"

definition apply_migration :: "migration \<Rightarrow> project_state \<Rightarrow> exc + project_state" where
  "apply_migration m ps = apply_ops (mg_app m) (mg_ops m) ps"

text \<open>The executor's state: the migrations the recorder lists as applied, in order, and
  the project state they have built.\<close>

record mstate =
  mg_applied :: "(string \<times> string) list"
  mg_project :: project_state

text \<open>One step of \<open>MigrationExecutor.migrate\<close> over the migrations \<open>ms\<close> of the
  loader: a migration not yet applied whose dependencies are all applied is applied
  and recorded.\<close>

inductive mig_step :: "migration list \<Rightarrow> mstate \<Rightarrow> mstate \<Rightarrow> bool" for ms where
  mig_apply: "m \<in> set ms \<Longrightarrow> mig_key m \<notin> set (mg_applied s)
          \<Longrightarrow> list_all (\<lambda>d. d \<in> set (mg_applied s)) (mg_deps m)
          \<Longrightarrow> apply_migration m (mg_project s) = Inr ps
          \<Longrightarrow> mig_step ms s \<lparr>mg_applied = mg_applied s @ [mig_key m], mg_project = ps\<rparr>"

inductive_cases mig_stepE: "mig_step ms s s'"

section \<open>Well-formed states\<close>

text \<open>A project state is well formed when its keys are distinct and each model sits
  under its own key with distinct field and option names. A \<open>CreateModel\<close> whose
  fields have distinct names keeps it (\<open>ModelState\<close> does not check it).\<close>

definition wf_model :: "(string \<times> string) \<times> model_state \<Rightarrow> bool" where
  "wf_model e = (case e of (k, m) \<Rightarrow>
     k = model_key m \<and> distinct (map fst (ms_fields m)) \<and> distinct (map fst (ms_options m)))"

definition wf_project :: "project_state \<Rightarrow> bool" where
  "wf_project ps = (distinct (map fst ps) \<and> list_all wf_model ps)"

fun wf_operation :: "operation \<Rightarrow> bool" where
  "wf_operation (CreateModel name fs) = distinct (map fst fs)"
| "wf_operation (AlterModelOptions name opts) = True"
| "wf_operation (RemoveField model name) = True"

definition wf_migration :: "migration \<Rightarrow> bool" where
  "wf_migration m = list_all wf_operation (mg_ops m)"

definition wf_mstate :: "mstate \<Rightarrow> bool" where
  "wf_mstate s = (wf_project (mg_project s) \<and> distinct (mg_applied s))"

section \<open>The operations of the two migrations\<close>

lemma py_lower_models:
  "py_lower ''AttributesFilterSettingsModel'' = ''attributesfiltersettingsmodel''"
  "py_lower ''attributesfiltersettingsmodel'' = ''attributesfiltersettingsmodel''"
  "py_lower ''categoriesfiltersettingsmodel'' = ''categoriesfiltersettingsmodel''"
  "py_lower ''CategoriesFilterSettingsModel'' = ''categoriesfiltersettingsmodel''"
  by (simp_all add: py_lower_def char_of_def bit_simps)

lemma apply_migration_0007:
  "apply_migration migration_0007 ps =
     Inr (AList.update (''product_filter'', ''attributesfiltersettingsmodel'')
            \<lparr>ms_app = ''product_filter'', ms_name = ''AttributesFilterSettingsModel'',
             ms_fields = [(''id'', AutoField ''ID''), (''enabled'', BooleanField True ''Enabled''),
                          (''filter_type'', SmallIntegerField [(1, ''Checkbox''), (2, ''Droupbox''), (3, ''Range'')] ''Filter type''),
                          (''attribute'', ForeignKey 1 ''shuup.Attribute'')],
             ms_options = [(''indexes'', OList [])]\<rparr> ps)"
  by (simp add: apply_migration_def migration_0007_def add_model_def ModelState_def model_key_def
                py_lower_models)

lemma apply_migration_0010:
  assumes "map_of ps (''product_filter'', ''attributesfiltersettingsmodel'') = Some a"
    and "map_of ps (''product_filter'', ''categoriesfiltersettingsmodel'') = Some c"
    and "''filter_type'' \<in> set (map fst (ms_fields c))"
  shows "apply_migration migration_0010 ps =
     Inr (AList.update (''product_filter'', ''categoriesfiltersettingsmodel'')
            (c\<lparr>ms_options := alter_options (ms_options c)
                  [(''verbose_name'', OStr ''Filter category setting''),
                   (''verbose_name_plural'', OStr ''Filter categories settings'')],
               ms_fields := filter (\<lambda>(n, f). n \<noteq> ''filter_type'') (ms_fields c)\<rparr>)
          (AList.update (''product_filter'', ''categoriesfiltersettingsmodel'')
            (c\<lparr>ms_options := alter_options (ms_options c)
                  [(''verbose_name'', OStr ''Filter category setting''),
                   (''verbose_name_plural'', OStr ''Filter categories settings'')]\<rparr>)
          (AList.update (''product_filter'', ''attributesfiltersettingsmodel'')
            (a\<lparr>ms_options := alter_options (ms_options a)
                  [(''verbose_name'', OStr ''Filter attribute setting''),
                   (''verbose_name_plural'', OStr ''Filter attributes settings'')]\<rparr>) ps)))"
  using assms by (simp add: apply_migration_def migration_0010_def py_lower_models update_conv')

text \<open>\<open>AlterModelOptions\<close> sets the options it names and drops every other key of
  \<open>ALTER_OPTION_KEYS\<close>; the remaining options are kept.\<close>

lemma map_of_fold_update:
  "map_of (fold (\<lambda>(k, v) acc. AList.update k v acc) new old) k =
     (case map_of (rev new) k of Some v \<Rightarrow> Some v | None \<Rightarrow> map_of old k)"
  by (induction new arbitrary: old) (auto simp: update_conv' map_add_def split: option.splits)

lemma map_of_filter_key:
  "map_of (filter (\<lambda>(k, v). P k) xs) k = (if P k then map_of xs k else None)"
  by (induction xs) auto

lemma map_of_rev_distinct:
  assumes "distinct (map fst xs)"
  shows "map_of (rev xs) k = map_of xs k"
proof (cases "map_of xs k")
  case None
  then have "k \<notin> fst ` set xs" by (simp add: map_of_eq_None_iff)
  then show ?thesis by (simp add: None map_of_eq_None_iff)
next
  case (Some v)
  have "distinct (map fst (rev xs))" using assms by (simp add: rev_map [symmetric])
  then show ?thesis using Some by (simp add: map_of_is_SomeI map_of_SomeD)
qed

lemma map_of_alter_options:
  assumes "distinct (map fst new)"
  shows "map_of (alter_options old new) k =
     (case map_of new k of Some v \<Rightarrow> Some v | None \<Rightarrow> if k \<in> set ALTER_OPTION_KEYS then None else map_of old k)"
proof (cases "map_of new k")
  case None
  then have "k \<notin> set (map fst new)" by (simp add: map_of_eq_None_iff)
  then show ?thesis using None assms
    by (simp add: alter_options_def map_of_filter_key map_of_fold_update map_of_rev_distinct)
next
  case (Some v)
  then have "k \<in> set (map fst new)" by (force dest: map_of_SomeD)
  then show ?thesis using Some assms
    by (simp add: alter_options_def map_of_filter_key map_of_fold_update map_of_rev_distinct)
qed

section \<open>Every step keeps the state well formed\<close>

lemma list_all_updateI:
  "list_all P xs \<Longrightarrow> P (k, v) \<Longrightarrow> list_all P (AList.update k v xs)"
  by (induction xs) auto

lemma wf_project_update:
  "wf_project ps \<Longrightarrow> wf_model (k, m) \<Longrightarrow> wf_project (AList.update k m ps)"
  by (simp add: wf_project_def distinct_update list_all_updateI)

lemma wf_project_lookup:
  "wf_project ps \<Longrightarrow> map_of ps k = Some m \<Longrightarrow> wf_model (k, m)"
  by (auto simp: wf_project_def list_all_iff dest: map_of_SomeD)

lemma distinct_fold_update:
  "distinct (map fst old) \<Longrightarrow> distinct (map fst (fold (\<lambda>(k, v) acc. AList.update k v acc) new old))"
  by (induction new arbitrary: old) (auto simp: distinct_update)

lemma distinct_alter_options:
  "distinct (map fst old) \<Longrightarrow> distinct (map fst (alter_options old new))"
  by (simp add: alter_options_def distinct_fold_update)

lemma wf_state_forwards:
  assumes "wf_project ps" and "wf_operation op" and "state_forwards app op ps = Inr ps'"
  shows "wf_project ps'"
proof (cases op)
  case (CreateModel name fs)
  then show ?thesis using assms
    by (auto simp: add_model_def ModelState_def wf_model_def model_key_def intro!: wf_project_update)
next
  case (AlterModelOptions name opts)
  then obtain m where m: "map_of ps (app, py_lower name) = Some m"
    and ps': "ps' = AList.update (app, py_lower name) (m\<lparr>ms_options := alter_options (ms_options m) opts\<rparr>) ps"
    using assms(3) by (auto split: option.splits)
  have "wf_model ((app, py_lower name), m)" by (rule wf_project_lookup [OF assms(1) m])
  then show ?thesis unfolding ps'
    by (auto simp: wf_model_def model_key_def distinct_alter_options intro!: wf_project_update [OF assms(1)])
next
  case (RemoveField model name)
  then obtain m where m: "map_of ps (app, py_lower model) = Some m"
    and ps': "ps' = AList.update (app, py_lower model) (m\<lparr>ms_fields := filter (\<lambda>(n, f). n \<noteq> name) (ms_fields m)\<rparr>) ps"
    using assms(3) by (auto split: option.splits if_splits)
  have "wf_model ((app, py_lower model), m)" by (rule wf_project_lookup [OF assms(1) m])
  then show ?thesis unfolding ps'
    by (auto simp: wf_model_def model_key_def case_prod_beta intro!: wf_project_update [OF assms(1)])
qed

lemma wf_apply_ops:
  "wf_project ps \<Longrightarrow> list_all wf_operation ops \<Longrightarrow> apply_ops app ops ps = Inr ps' \<Longrightarrow> wf_project ps'"
  by (induction app ops ps rule: apply_ops.induct) (auto simp: exc_simps dest: wf_state_forwards)

lemma mig_step_wf:
  assumes "mig_step ms s s'" and "list_all wf_migration ms" and "wf_mstate s"
  shows "wf_mstate s' \<and> (\<exists>m \<in> set ms. mg_applied s' = mg_applied s @ [mig_key m])"
  using assms(1)
proof (cases rule: mig_step.cases)
  case (mig_apply m ps)
  then have "wf_project ps"
    using assms(2,3) wf_apply_ops [of "mg_project s" "mg_ops m" "mg_app m" ps]
    by (auto simp: wf_mstate_def wf_migration_def apply_migration_def list_all_iff)
  then show ?thesis using mig_apply assms(3) by (auto simp: wf_mstate_def)
qed

section \<open>Running the two migrations\<close>

text \<open>From a state where the categories model still has its \<open>filter_type\<close> field and
  the dependencies are recorded, the executor applies \<open>0007\<close> and then \<open>0010\<close>.\<close>

lemma migration_keys_differ: "mig_key migration_0010 \<noteq> mig_key migration_0007"
  by (simp add: mig_key_def migration_0007_def migration_0010_def)

lemma migrations_run:
  assumes mem: "migration_0007 \<in> set ms'" "migration_0010 \<in> set ms'"
    and cat: "map_of (mg_project s) (''product_filter'', ''categoriesfiltersettingsmodel'') = Some c"
    and ft: "''filter_type'' \<in> set (map fst (ms_fields c))"
    and deps: "list_all (\<lambda>d. d \<in> set (mg_applied s)) (mg_deps migration_0007 @ mg_deps migration_0010)"
    and new: "mig_key migration_0007 \<notin> set (mg_applied s)" "mig_key migration_0010 \<notin> set (mg_applied s)"
  shows "\<exists>ps1 ps2.
           mig_step ms' s \<lparr>mg_applied = mg_applied s @ [mig_key migration_0007], mg_project = ps1\<rparr>
         \<and> mig_step ms' \<lparr>mg_applied = mg_applied s @ [mig_key migration_0007], mg_project = ps1\<rparr>
             \<lparr>mg_applied = mg_applied s @ [mig_key migration_0007, mig_key migration_0010], mg_project = ps2\<rparr>"
proof -
  obtain ps1 where a7: "apply_migration migration_0007 (mg_project s) = Inr ps1"
    and a: "map_of ps1 (''product_filter'', ''attributesfiltersettingsmodel'') \<noteq> None"
    and c: "map_of ps1 (''product_filter'', ''categoriesfiltersettingsmodel'') = Some c"
    using cat by (simp add: apply_migration_0007 update_conv')
  then obtain a where a': "map_of ps1 (''product_filter'', ''attributesfiltersettingsmodel'') = Some a" by auto
  let ?s1 = "\<lparr>mg_applied = mg_applied s @ [mig_key migration_0007], mg_project = ps1\<rparr>"
  have step1: "mig_step ms' s ?s1"
    using mig_step.mig_apply [OF mem(1) new(1) _ a7] deps by simp
  obtain ps2 where a10: "apply_migration migration_0010 ps1 = Inr ps2"
    using apply_migration_0010 [OF a' c ft] by simp
  have "mig_step ms' ?s1 \<lparr>mg_applied = mg_applied ?s1 @ [mig_key migration_0010], mg_project = ps2\<rparr>"
    using mig_step.mig_apply [of migration_0010 ms' ?s1 ps2] mem(2) a10 new(2) deps migration_keys_differ
    by (simp add: list_all_iff)
  then show ?thesis using step1 by auto
qed

end
