(* ===== verification/Spec2Isabelle.thy ===== *)
theory Spec2Isabelle
  imports Media_View Auth_Api Url_Helpers Admin_Modules Migrations
begin

text \<open>
  \<^bold>\<open>A verification library for the Shuup excerpt under \<open>src/shuup\<close>.\<close>

  \<^bold>\<open>The program.\<close> The excerpt is a set of plug-ins of a Django shop:
  the media browser of the admin (\<open>admin/modules/media/views.py\<close>), the password
  REST API (\<open>front/apps/auth/api.py\<close>), the URL template helpers
  (\<open>front/template_helpers/urls.py\<close>), two admin modules (\<open>addons/admin_module\<close> and
  \<open>simple_supplier/admin_module\<close>), the application configuration of the order
  printouts (\<open>order_printouts/apps.py\<close>) and two schema migrations of the product
  filter (\<open>front/apps/product_filter/migrations/0007\<close> and \<open>0010\<close>). They meet in the
  URL configuration: the admin modules contribute routes and menu entries that are
  reversed by name, the API registers its view sets with a router, and the templates
  reverse names through \<open>get_url\<close> and \<open>has_url\<close>.

  \<^bold>\<open>Theories.\<close>
  \<^item> \<open>Prelude\<close>: Python exceptions as the datatype \<open>exc\<close> and fallible code as
    \<open>exc + 'a\<close> sequenced by \<open>ebind\<close>; decoded JSON (\<open>jval\<close>), dictionary access,
    \<open>int()\<close>, \<open>str()\<close>, \<open>strip\<close>, \<open>split\<close>; Django's \<open>QuerySet.get\<close> over a table
    held as a list of rows. Shared rules are collected in \<open>exc_simps\<close> and \<open>qs_simps\<close>.
  \<^item> \<open>Media_Store\<close>: the filer tables and Shuup's \<open>MediaFolder\<close>/\<open>MediaFile\<close>
    rows (record \<open>media_db\<close>), the query filters \<open>_get_folder_query_filter\<close>,
    \<open>_get_file_query\<close>, the shared checks \<open>_is_folder_shared\<close>/\<open>_is_file_shared\<close>,
    the library calls that change the tables (\<open>ensure_media_folder\<close>,
    \<open>delete_folder\<close>, \<open>Folder.move_to\<close>, \<open>File.delete\<close>), and the invariant
    \<open>wf_db\<close> with its preservation lemmas.
  \<^item> \<open>Media_Handlers\<close>: every \<open>handle_post_*\<close> of \<open>MediaBrowserView\<close>, its lookups,
    guards and error paths, and \<open>handle_get_folder\<close>.
  \<^item> \<open>Media_Upload\<close>: \<open>get_or_create_folder\<close> (loop \<open>goc_loop\<close>), \<open>_process_form\<close>,
    \<open>media_upload\<close>; \<open>folder_path\<close> reads a folder's path back by following
    \<open>parent\<close> with fuel.
  \<^item> \<open>Media_View\<close>: \<open>MediaBrowserView.post\<close>, the dispatch by action name and the
    translation of \<open>ObjectDoesNotExist\<close> and \<open>Problem\<close> into responses.
  \<^item> \<open>Base64_Codec\<close>: CPython's \<open>binascii\<close> base64 (the non-strict decoding state
    machine \<open>a2b_loop\<close>) and Django's \<open>urlsafe_base64_encode\<close>/\<open>decode\<close>, with the
    round trip and the byte bound of decoded values.
  \<^item> \<open>Auth_Api\<close>: \<open>SetPasswordSerializer\<close> (DRF \<open>CharField\<close> validation and
    \<open>validate\<close>), \<open>SetPasswordViewSet.create\<close>, \<open>PasswordResetViewSet.create\<close>,
    \<open>populate_api\<close>. The token generator and the password hasher are parameters.
  \<^item> \<open>Url_Routing\<close>: Django's regex resolver and \<open>reverse\<close> for the patterns the
    sources use (literals, \<open>(?P<name>\d+)\<close> groups, \<open>^\<close>, optional \<open>$\<close>),
    with the parser and printer of patterns and the backtracking matcher.
  \<^item> \<open>Url_Helpers\<close>: \<open>get_url\<close>, \<open>has_url\<close>, \<open>model_url\<close>, and the routes DRF's
    router derives from \<open>populate_api\<close>.
  \<^item> \<open>Admin_Modules\<close>: \<open>AddonModule\<close> and \<open>StocksAdminModule\<close> (\<open>get_urls\<close>,
    \<open>get_menu_entries\<close>, breadcrumbs), the admin URL configuration they are
    mounted in (\<open>^sa/\<close>, namespace \<open>shuup_admin\<close>), and the order printouts
    \<open>AppConfig\<close> with the \<open>provides\<close> lookup.
  \<^item> \<open>Migrations\<close>: Django's migration state (models keyed by app label and
    lower-case name), \<open>CreateModel\<close>, \<open>AlterModelOptions\<close>, \<open>RemoveField\<close>, the two
    migrations of the sources, and the executor as the step relation \<open>mig_step\<close>.

  \<^bold>\<open>State and effects.\<close> Tables are lists of rows in key order with explicit
  key sequences; a handler takes the database and returns its response with the new
  database; an exception is the value \<open>Inl e\<close>. An exception the view catches
  (\<open>ObjectDoesNotExist\<close>, \<open>Problem\<close> in \<open>post\<close>; any exception in
  \<open>get_or_create_folder\<close>) keeps the database as it was at the raise; an exception
  that escapes the view (\<open>IntegrityError\<close> of a duplicate folder name or of a
  protected file, \<open>ValueError\<close> of a body that is not JSON) fails the request and
  carries no database: what was written before it is a matter of the transaction
  settings, which the sources do not fix. Dictionaries decoded from JSON and query
  dictionaries are association lists in which a key given twice keeps its last value,
  as \<open>json.loads\<close> and \<open>QueryDict.get\<close> do. \<open>strip()\<close> removes the characters for
  which Python's \<open>str.isspace\<close> holds among the code points below 256. The
  migration executor is an inductive step relation over the applied list and the
  project state.

  \<^bold>\<open>What is proved\<close> (this theory, claims C1 to C29, each with a witness on the
  sample data where it has hypotheses):
  \<^item> C1, C2: every POST to the media browser keeps the rows of the other shops
    (tenant isolation) and the invariant \<open>wf_db\<close>.
  \<^item> C3 to C6, C9 to C14: the behaviour of each folder and file handler on every
    branch, the sharing refusal, the unique-name \<open>IntegrityError\<close>, the missing-key
    and protected-file errors and the unknown action; C5: a folder delete loses no
    file.
  \<^item> C7, C8: the two checks of the view are ownership, and browsing a folder lists
    exactly its subfolders and public files visible to the shop (\<open>visible_to\<close>).
  \<^item> C15 to C18: the path round trip of \<open>get_or_create_folder\<close>, the upload into a
    visible folder, and the two upload findings (a root folder found by path is shared
    with the uploading shop; a failed upload leaves the folder it created).
  \<^item> C19 to C24: the password API's reset-link round trip (base64 user key and
    token), the token guard, trimming, the mismatch and invalid-link answers and the
    missing-field error.
  \<^item> C25 to C28: reverse-then-resolve for every admin route of the two modules, the
    prefix routes of the stock module, \<open>get_url\<close> raising \<open>ValueError\<close> on mixed
    arguments, and \<open>has_url\<close> against \<open>reverse\<close>.
  \<^item> C29: the executor applies migrations 0007 and 0010 and completes the plan.

  \<^bold>\<open>Bounds and fuel.\<close> \<open>folder_path\<close> follows parents with fuel \<open>id + 1\<close>: in a
  well-formed database a parent's key is smaller than its child's, so the chain from
  a folder has at most \<open>id\<close> links and the walk returns (\<open>folder_path_total\<close>).
  Python integers are \<open>int\<close>/\<open>nat\<close>; bytes are naturals below 256. Every other loop
  is structural recursion or a \<open>function\<close> with a measure (\<open>parse_body\<close>).

  \<^bold>\<open>Not modelled.\<close> \<open>handle_get_folders\<close>, \<open>MediaBrowserView.get\<close> and
  \<open>get_context_data\<close> render mptt trees and templates; storage of uploaded files on
  disk and thumbnails; the token generator, the password hasher and
  \<open>RecoverPasswordForm\<close> (outside the sources, parameters here); DRF requests whose
  data are not a dictionary; regex syntax beyond the subset the routes use (the
  parser rejects it); \<open>database_forwards\<close> of migrations (the schema editor) and
  the check of duplicate field names in \<open>CreateModel\<close> (well-formedness is a
  hypothesis instead); permission checks of the admin (the permission definitions
  are kept as data); gettext translation of names (strings are the source text).
\<close>

section \<open>A sample database\<close>

text \<open>
  Two shops. Folder 1 and its subfolder 4 belong to shop 1 alone, folder 2 is shared
  by both shops, folder 3 predates the media tables (no \<open>MediaFolder\<close>). File 1 is
  referenced by a protecting foreign key.
\<close>

definition demo_db :: media_db where
  "demo_db =
     \<lparr>folders = [\<lparr>fd_id = 1, fd_name = ''shop1'', fd_parent = None\<rparr>,
                 \<lparr>fd_id = 2, fd_name = ''common'', fd_parent = None\<rparr>,
                 \<lparr>fd_id = 3, fd_name = ''legacy'', fd_parent = None\<rparr>,
                 \<lparr>fd_id = 4, fd_name = ''sub'', fd_parent = Some 1\<rparr>],
      files = [\<lparr>fl_id = 1, fl_name = ''logo.png'', fl_folder = Some 1, fl_is_public = True, fl_is_image = True\<rparr>,
               \<lparr>fl_id = 2, fl_name = ''terms.pdf'', fl_folder = Some 2, fl_is_public = True, fl_is_image = False\<rparr>,
               \<lparr>fl_id = 3, fl_name = ''draft.txt'', fl_folder = Some 1, fl_is_public = False, fl_is_image = False\<rparr>],
      media_folders = [\<lparr>ml_target = 1, ml_shops = {1}\<rparr>, \<lparr>ml_target = 2, ml_shops = {1, 2}\<rparr>,
                       \<lparr>ml_target = 4, ml_shops = {1}\<rparr>],
      media_files = [\<lparr>ml_target = 1, ml_shops = {1}\<rparr>, \<lparr>ml_target = 2, ml_shops = {1, 2}\<rparr>,
                     \<lparr>ml_target = 3, ml_shops = {1}\<rparr>],
      next_folder_id = 5, next_file_id = 4, protected_files = [1]\<rparr>"

text \<open>Two uploads without a folder id, by shop 2: a text file into the path
  \<open>shop1\<close> (the name of shop 1's folder), and an empty file into a new path.\<close>

definition capture_upload :: upload_request where
  "capture_upload = \<lparr>ur_post = [(''path'', JStr ''shop1'')], ur_get = [],
     ur_file = Some \<lparr>up_name = ''a.txt'', up_content_type = ''text/plain'', up_size = 3, up_is_image = False\<rparr>\<rparr>"

definition empty_upload :: upload_request where
  "empty_upload = \<lparr>ur_post = [(''path'', JStr ''inbox'')], ur_get = [],
     ur_file = Some \<lparr>up_name = ''e.txt'', up_content_type = ''text/plain'', up_size = 0, up_is_image = False\<rparr>\<rparr>"

text \<open>Two users; the token generator accepts the token \<open>5k-abc\<close> for user 7 only,
  and the hasher marks its input.\<close>

definition demo_users :: auth_db where
  "demo_users = \<lparr>users = [\<lparr>usr_id = 3, usr_password = ''h0''\<rparr>, \<lparr>usr_id = 7, usr_password = ''h1''\<rparr>]\<rparr>"

definition demo_token :: "user_row \<Rightarrow> string \<Rightarrow> bool" where
  "demo_token u t = (usr_id u = 7 \<and> t = ''5k-abc'')"

text \<open>A migration state before \<open>0007\<close>: the dependencies of both migrations are
  recorded and the categories model still has its \<open>filter_type\<close> field.\<close>

definition demo_categories_model :: model_state where
  "demo_categories_model =
     ModelState ''product_filter'' ''CategoriesFilterSettingsModel''
       [(''id'', AutoField ''ID''), (''enabled'', BooleanField True ''Enabled''),
        (''filter_type'', SmallIntegerField [(1, ''Checkbox''), (2, ''Droupbox''), (3, ''Range'')] ''Filter type'')] []"

definition demo_mstate :: mstate where
  "demo_mstate =
     \<lparr>mg_applied = [(''shuup'', ''0045_disable_default_marketing_permission''),
                    (''product_filter'', ''0006_auto_20180714_1208''), (''product_filter'', ''0009_auto_20180730_1600'')],
      mg_project = [((''product_filter'', ''categoriesfiltersettingsmodel''), demo_categories_model)]\<rparr>"

lemma wf_demo_db: "wf_db demo_db"
  by (simp add: wf_db_def demo_db_def folder_keys_def file_keys_def)

lemmas demo_eval = demo_db_def post_def post_handler_for_def dict_index_def dict_get_def py_or_def
  pk_value_def qs_get_def get_folder_query_def get_folder_query_filter_def get_file_query_def
  file_query_filter_def is_folder_shared_def is_file_shared_def
  folder_name_value_def folder_name_taken_def unique_folder_error_def

lemma demo_rename:
  "post True 1 \<lparr>rq_post = [], rq_get = [],
     rq_body = Some [(''action'', JStr ''rename_folder''), (''id'', JInt 1), (''name'', JStr ''mine'')],
     rq_files = None\<rparr> demo_db
   = Inr (success_response True ''Folder was renamed.'', update_folder 1 (\<lambda>g. g\<lparr>fd_name := ''mine''\<rparr>) demo_db)"
  by (simp add: demo_eval handle_post_rename_folder_def)

section \<open>Properties of every request\<close>

text \<open>
  C1. Tenant isolation: with several shops enabled, a POST to the media browser on
  behalf of a shop (a JSON action or an upload) leaves every folder and every file
  that is not that shop's own (its media row naming exactly that shop) in the
  database under the same key and name: no other shop's object, and no shared one,
  is renamed or deleted.
\<close>

theorem post_tenant_isolation:
  assumes "multi" and "wf_db db" and "post multi shop req db = Inr (r, db')"
  shows "Media_Handlers.foreign_intact shop db db'"
  using post_cases [OF assms(3)]
proof (elim disjE exE conjE)
  assume "db' = db" then show ?thesis by (simp add: foreign_intact_refl)
next
  assume "db' = snd (media_upload shop \<lparr>ur_post = rq_post req, ur_get = rq_get req, ur_file = rq_files req\<rparr> db)"
  then show ?thesis by (simp add: rows_kept_intact rows_kept_media_upload)
next
  fix a h data
  assume hf: "post_handler_for a = Some h" and hr: "h multi shop data db = Inr (r, db')"
  show ?thesis by (rule handler_intact [OF hf assms(1,2) hr])
qed

theorem post_tenant_isolation_witness:
  "True \<and> wf_db demo_db
   \<and> post True 1 \<lparr>rq_post = [], rq_get = [],
       rq_body = Some [(''action'', JStr ''rename_folder''), (''id'', JInt 1), (''name'', JStr ''mine'')],
       rq_files = None\<rparr> demo_db
     = Inr (success_response True ''Folder was renamed.'', update_folder 1 (\<lambda>g. g\<lparr>fd_name := ''mine''\<rparr>) demo_db)
   \<and> foreign_intact 1 demo_db (update_folder 1 (\<lambda>g. g\<lparr>fd_name := ''mine''\<rparr>) demo_db)"
  using post_tenant_isolation [OF TrueI wf_demo_db demo_rename] wf_demo_db demo_rename by simp

text \<open>
  C2. Every POST keeps the database well formed: keys unique and below their
  sequences, every parent, folder and media reference resolving, and every folder's
  parent older than the folder.
\<close>

theorem post_preserves_wf:
  assumes "wf_db db" and "post multi shop req db = Inr (r, db')"
  shows "Media_Store.wf_db db'"
  using assms by (rule post_wf)

theorem post_preserves_wf_witness:
  "wf_db demo_db
   \<and> post True 1 \<lparr>rq_post = [], rq_get = [],
       rq_body = Some [(''action'', JStr ''rename_folder''), (''id'', JInt 1), (''name'', JStr ''mine'')],
       rq_files = None\<rparr> demo_db
     = Inr (success_response True ''Folder was renamed.'', update_folder 1 (\<lambda>g. g\<lparr>fd_name := ''mine''\<rparr>) demo_db)
   \<and> wf_db (update_folder 1 (\<lambda>g. g\<lparr>fd_name := ''mine''\<rparr>) demo_db)"
  using post_preserves_wf [OF wf_demo_db demo_rename] wf_demo_db demo_rename by simp

section \<open>Properties of each handler\<close>

text \<open>
  C3. Renaming a folder the shop can see: a shared folder is refused with
  \<open>success: false\<close> and nothing changes; a name another folder under the same
  parent already has is refused by filer's unique \<open>(parent, name)\<close> with
  \<open>IntegrityError\<close> (root folders are exempt: their parent is \<open>NULL\<close>); otherwise
  the folder, and only its name, is updated and the response reports success.
\<close>

theorem rename_folder_behaviour:
  assumes "wf_db db" and "f \<in> set (folders db)" and "get_folder_query_filter shop db f"
  shows "handle_post_rename_folder multi shop [(''id'', JInt (int (fd_id f))), (''name'', JStr n)] db =
    (if is_folder_shared multi db f
     then Inr (success_response False (''Can'' @ apos # ''t rename a shared folder.''), db)
     else if fd_parent f \<noteq> None
             \<and> (\<exists>g \<in> set (folders db). fd_id g \<noteq> fd_id f \<and> fd_parent g = fd_parent f \<and> fd_name g = n)
     then Inl (IntegrityError ''UNIQUE constraint failed: filer_folder.parent_id, filer_folder.name'')
     else Inr (success_response True ''Folder was renamed.'', update_folder (fd_id f) (\<lambda>g. g\<lparr>fd_name := n\<rparr>) db))"
  using lookup_folder_found [OF assms]
  by (simp add: handle_post_rename_folder_def dict_index_def pk_value_def folder_name_value_def
                folder_name_taken_def unique_folder_error_def list_ex_iff; blast)

theorem rename_folder_behaviour_witness:
  "wf_db demo_db \<and> \<lparr>fd_id = 4, fd_name = ''sub'', fd_parent = Some 1\<rparr> \<in> set (folders demo_db)
   \<and> get_folder_query_filter 1 demo_db \<lparr>fd_id = 4, fd_name = ''sub'', fd_parent = Some 1\<rparr>
   \<and> handle_post_rename_folder True 1 [(''id'', JInt 4), (''name'', JStr ''pics'')] demo_db
       = Inr (success_response True ''Folder was renamed.'', update_folder 4 (\<lambda>g. g\<lparr>fd_name := ''pics''\<rparr>) demo_db)"
  using rename_folder_behaviour [OF wf_demo_db, of "\<lparr>fd_id = 4, fd_name = ''sub'', fd_parent = Some 1\<rparr>" 1 True "''pics''"] wf_demo_db
  by (simp add: demo_eval)

text \<open>
  C4. Deleting a folder the shop can see: refused for a shared folder; when
  the folder has a parent and one of its subfolders cannot move there because the
  name is taken (by the folder itself, a sibling of it, or another subfolder),
  \<open>delete_folder\<close> raises filer's \<open>IntegrityError\<close>; otherwise the folder is deleted,
  its subfolders and files moving up, and the response carries the message and the
  old parent's id as \<open>newFolderId\<close> (\<open>null\<close> at the root).
\<close>

theorem delete_folder_behaviour:
  assumes "wf_db db" and "f \<in> set (folders db)" and "get_folder_query_filter shop db f"
  shows "handle_post_delete_folder multi shop [(''id'', JInt (int (fd_id f)))] db =
    (if is_folder_shared multi db f
     then Inr (success_response False (''Can'' @ apos # ''t delete a shared folder.''), db)
     else if fd_parent f \<noteq> None
             \<and> (\<exists>s \<in> set (folders db). fd_parent s = Some (fd_id f)
                  \<and> (\<exists>g \<in> set (folders db). fd_id g \<noteq> fd_id s
                        \<and> (fd_parent g = fd_parent f \<or> fd_parent g = Some (fd_id f)) \<and> fd_name g = fd_name s))
     then Inl (IntegrityError ''UNIQUE constraint failed: filer_folder.parent_id, filer_folder.name'')
     else Inr (JsonResponse [(''success'', JBool True), (''message'', JStr (fst (delete_folder_effect f db))),
                             (''newFolderId'', case fd_parent f of None \<Rightarrow> JNull | Some k \<Rightarrow> JInt (int k))] 200,
               snd (delete_folder_effect f db)))"
  using lookup_folder_found [OF assms] subfolders_clash_iff [OF assms(1,2)]
  by (simp add: handle_post_delete_folder_def dict_index_def pk_value_def split_beta delete_folder_def
                unique_folder_error_def; blast)

theorem delete_folder_behaviour_witness:
  "wf_db demo_db \<and> \<lparr>fd_id = 4, fd_name = ''sub'', fd_parent = Some 1\<rparr> \<in> set (folders demo_db) \<and> get_folder_query_filter 1 demo_db \<lparr>fd_id = 4, fd_name = ''sub'', fd_parent = Some 1\<rparr>
   \<and> handle_post_delete_folder True 1 [(''id'', JInt 4)] demo_db
       = Inr (JsonResponse [(''success'', JBool True), (''message'', JStr ''Folder sub deleted.''),
                            (''newFolderId'', JInt 1)] 200, snd (delete_folder_effect \<lparr>fd_id = 4, fd_name = ''sub'', fd_parent = Some 1\<rparr> demo_db))"
  using delete_folder_behaviour [OF wf_demo_db, of "\<lparr>fd_id = 4, fd_name = ''sub'', fd_parent = Some 1\<rparr>" 1 True] wf_demo_db
  by (simp add: demo_eval delete_folder_effect_def)

text \<open>
  C5. A delete-folder request loses no file: every file keeps its key
  and name; when a folder is deleted, no file is left pointing at it and exactly its key
  leaves the folder table (its subfolders stay, under its parent).
\<close>

theorem delete_folder_keeps_files:
  assumes "wf_db db" and "handle_post_delete_folder multi shop data db = Inr (r, db')"
  shows "map fl_id (files db') = map fl_id (files db) \<and> map fl_name (files db') = map fl_name (files db)
       \<and> (db' = db \<or> (\<exists>f \<in> set (folders db). list_all (\<lambda>x. fl_folder x \<noteq> Some (fd_id f)) (files db')
                                          \<and> folder_keys db' = folder_keys db - {fd_id f}))"
  using delete_folder_cases [OF assms(2)]
proof (elim disjE exE conjE)
  assume "db' = db" then show ?thesis by simp
next
  fix pk f
  assume q: "qs_get ''Folder'' fd_id (get_folder_query shop db None) pk = Inr f"
    and db': "db' = snd (delete_folder_effect f db)"
  have f: "f \<in> set (folders db)" using lookup_folder_visible [OF assms(1) q] by simp
  show ?thesis using delete_folder_files_kept [OF assms(1) f] f db' by blast
qed

theorem delete_folder_keeps_files_witness:
  "wf_db demo_db
   \<and> handle_post_delete_folder True 1 [(''id'', JInt 4)] demo_db
       = Inr (JsonResponse [(''success'', JBool True), (''message'', JStr ''Folder sub deleted.''),
                            (''newFolderId'', JInt 1)] 200, snd (delete_folder_effect \<lparr>fd_id = 4, fd_name = ''sub'', fd_parent = Some 1\<rparr> demo_db))
   \<and> map fl_id (files (snd (delete_folder_effect \<lparr>fd_id = 4, fd_name = ''sub'', fd_parent = Some 1\<rparr> demo_db))) = [1, 2, 3]
   \<and> folder_keys (snd (delete_folder_effect \<lparr>fd_id = 4, fd_name = ''sub'', fd_parent = Some 1\<rparr> demo_db)) = {1, 2, 3}"
proof -
  have h: "handle_post_delete_folder True 1 [(''id'', JInt 4)] demo_db
       = Inr (JsonResponse [(''success'', JBool True), (''message'', JStr ''Folder sub deleted.''),
                            (''newFolderId'', JInt 1)] 200, snd (delete_folder_effect \<lparr>fd_id = 4, fd_name = ''sub'', fd_parent = Some 1\<rparr> demo_db))"
    by (simp add: demo_eval handle_post_delete_folder_def delete_folder_def delete_folder_effect_def subfolders_clash_def
                  folder_by_id_def Let_def)
  have "map fl_id (files (snd (delete_folder_effect \<lparr>fd_id = 4, fd_name = ''sub'', fd_parent = Some 1\<rparr> demo_db))) = map fl_id (files demo_db)"
    using delete_folder_keeps_files [OF wf_demo_db h] by blast
  moreover have "folder_keys (snd (delete_folder_effect \<lparr>fd_id = 4, fd_name = ''sub'', fd_parent = Some 1\<rparr> demo_db)) = {1, 2, 3}"
    by (simp add: demo_db_def delete_folder_effect_def folder_keys_def)
  ultimately show ?thesis using wf_demo_db h by (simp add: demo_db_def)
qed

text \<open>
  C6. Creating a folder under a parent the shop can see: when the parent already
  has a child of that name, moving the new folder there breaks filer's unique
  \<open>(parent, name)\<close> and \<open>IntegrityError\<close> escapes; otherwise the response returns the
  new folder (next key of the sequence, the given name, the parent) and the folder is
  in the table, owned by that shop alone.
\<close>

theorem new_folder_owned:
  fixes n :: string
  assumes "wf_db db" and "p \<in> set (folders db)" and "get_folder_query_filter shop db p" and "0 < fd_id p"
  defines "nf \<equiv> \<lparr>fd_id = next_folder_id db, fd_name = n, fd_parent = Some (fd_id p)\<rparr>"
  shows "if \<exists>g \<in> set (folders db). fd_parent g = Some (fd_id p) \<and> fd_name g = n
         then handle_post_new_folder multi shop [(''parent'', JInt (int (fd_id p))), (''name'', JStr n)] db
                = Inl (IntegrityError ''UNIQUE constraint failed: filer_folder.parent_id, filer_folder.name'')
         else (\<exists>db'. handle_post_new_folder multi shop [(''parent'', JInt (int (fd_id p))), (''name'', JStr n)] db
                = Inr (JsonResponse [(''success'', JBool True), (''folder'', filer_folder_to_json_dict (Some nf))] 200, db')
              \<and> nf \<in> set (folders db') \<and> media_shops (media_folders db') (fd_id nf) = Some {shop})"
proof -
  have fresh: "next_folder_id db \<notin> set (map ml_target (media_folders db))"
    by (rule wf_next_folder_fresh [OF assms(1)])
  have lt: "\<forall>g \<in> set (folders db). fd_id g < next_folder_id db"
    using assms(1) by (simp add: wf_db_def list_all_iff)
  then have np: "next_folder_id db \<noteq> fd_id p" using assms(2) by auto
  note q = lookup_folder_found [OF assms(1-3)]
  show ?thesis
  proof (cases "\<exists>g \<in> set (folders db). fd_parent g = Some (fd_id p) \<and> fd_name g = n")
    case True
    then obtain g where g: "g \<in> set (folders db)" "fd_parent g = Some (fd_id p)" "fd_name g = n" by blast
    with lt have "fd_id g \<noteq> next_folder_id db" by auto
    with g q assms(4) True show ?thesis
      by (simp add: handle_post_new_folder_def dict_get_default_def dict_index_def folder_create_def
                    folder_move_to_def folder_name_value_def folder_name_taken_def unique_folder_error_def
                    list_ex_iff Let_def) blast
  next
    case False
    with q assms(4) fresh np show ?thesis
      by (auto simp: nf_def handle_post_new_folder_def dict_get_default_def dict_index_def folder_create_def
                     folder_move_to_def folder_name_value_def folder_name_taken_def unique_folder_error_def
                     list_ex_iff update_folder_def Let_def ensure_media_folder_fields ensure_media_folder_fresh
                     media_shops_append_fresh)
  qed
qed

theorem new_folder_owned_witness:
  "wf_db demo_db \<and> \<lparr>fd_id = 1, fd_name = ''shop1'', fd_parent = None\<rparr> \<in> set (folders demo_db) \<and> get_folder_query_filter 1 demo_db \<lparr>fd_id = 1, fd_name = ''shop1'', fd_parent = None\<rparr> \<and> 0 < (1::nat)
   \<and> handle_post_new_folder True 1 [(''parent'', JInt 1), (''name'', JStr ''sub'')] demo_db
       = Inl (IntegrityError ''UNIQUE constraint failed: filer_folder.parent_id, filer_folder.name'')
   \<and> (\<exists>db'. handle_post_new_folder True 1 [(''parent'', JInt 1), (''name'', JStr ''banners'')] demo_db
              = Inr (JsonResponse [(''success'', JBool True), (''folder'', filer_folder_to_json_dict
                       (Some \<lparr>fd_id = 5, fd_name = ''banners'', fd_parent = Some 1\<rparr>))] 200, db')
            \<and> \<lparr>fd_id = 5, fd_name = ''banners'', fd_parent = Some 1\<rparr> \<in> set (folders db')
            \<and> media_shops (media_folders db') 5 = Some {1})"
  using new_folder_owned [where p = "\<lparr>fd_id = 1, fd_name = ''shop1'', fd_parent = None\<rparr>" and shop = 1
                              and n = "''banners''" and multi = True, OF wf_demo_db]
        new_folder_owned [where p = "\<lparr>fd_id = 1, fd_name = ''shop1'', fd_parent = None\<rparr>" and shop = 1
                              and n = "''sub''" and multi = True, OF wf_demo_db] wf_demo_db
  by (simp add: demo_eval)

text \<open>
  C7. The view's two checks together are ownership: a folder passes the
  shop's query filter and is not shared exactly when its media row names that shop and no
  other.
\<close>

theorem sharing_owned_iff:
  assumes "wf_db db"
  shows "(get_folder_query_filter shop db f \<and> \<not> is_folder_shared True db f)
         \<longleftrightarrow> media_shops (media_folders db) (fd_id f) = Some {shop}"
  using visible_unshared_owned [of shop "media_shops (media_folders db) (fd_id f)"]
  by (auto simp: folder_filter_visible [OF assms] is_folder_shared_eq)

theorem sharing_owned_iff_witness:
  "wf_db demo_db
   \<and> ((get_folder_query_filter 1 demo_db \<lparr>fd_id = 1, fd_name = ''shop1'', fd_parent = None\<rparr> \<and> \<not> is_folder_shared True demo_db \<lparr>fd_id = 1, fd_name = ''shop1'', fd_parent = None\<rparr>)
        \<longleftrightarrow> media_shops (media_folders demo_db) 1 = Some {1})
   \<and> media_shops (media_folders demo_db) 1 = Some {1}"
  using sharing_owned_iff [OF wf_demo_db, of 1 "\<lparr>fd_id = 1, fd_name = ''shop1'', fd_parent = None\<rparr>"] wf_demo_db
  by (simp add: demo_db_def media_shops_def)

text \<open>
  C8. Browsing a folder returns exactly the subfolders of that folder,
  and the public files in it, whose media rows make them visible to the shop (the
  abstract visibility \<open>visible_to\<close> over the media row's shops).
\<close>

theorem get_folder_contents_spec:
  assumes "wf_db db" and "get_folder_contents shop i db = Inr (fo, subs, fs)"
  shows "set subs = {g \<in> set (folders db). fd_parent g = map_option fd_id fo
                       \<and> visible_to shop (media_shops (media_folders db) (fd_id g))}
       \<and> set fs = {x \<in> set (files db). fl_folder x = map_option fd_id fo \<and> fl_is_public x
                       \<and> visible_to shop (media_shops (media_files db) (fl_id x))}"
  using assms
  by (auto simp: get_folder_contents_def get_folder_query_def ebind_eq_Inr get_file_query_def
                 folder_filter_visible [OF assms(1)] file_filter_visible [OF assms(1)]
           split: if_splits dest!: qs_get_Inr)

theorem get_folder_contents_spec_witness:
  "wf_db demo_db \<and> get_folder_contents 2 0 demo_db = Inr (None, [\<lparr>fd_id = 2, fd_name = ''common'', fd_parent = None\<rparr>, \<lparr>fd_id = 3, fd_name = ''legacy'', fd_parent = None\<rparr>], [])
   \<and> set [\<lparr>fd_id = 2, fd_name = ''common'', fd_parent = None\<rparr>, \<lparr>fd_id = 3, fd_name = ''legacy'', fd_parent = None\<rparr>] = {g \<in> set (folders demo_db). fd_parent g = None
                       \<and> visible_to 2 (media_shops (media_folders demo_db) (fd_id g))}
   \<and> set [] = {x \<in> set (files demo_db). fl_folder x = None \<and> fl_is_public x
                       \<and> visible_to 2 (media_shops (media_files demo_db) (fl_id x))}"
proof -
  have h: "get_folder_contents 2 0 demo_db = Inr (None, [\<lparr>fd_id = 2, fd_name = ''common'', fd_parent = None\<rparr>, \<lparr>fd_id = 3, fd_name = ''legacy'', fd_parent = None\<rparr>], [])"
    by (simp add: demo_eval get_folder_contents_def)
  show ?thesis using get_folder_contents_spec [OF wf_demo_db h] wf_demo_db h by simp
qed

text \<open>
  C9. Renaming a file the shop can see: refused when shared, otherwise only
  its name changes.
\<close>

theorem rename_file_behaviour:
  assumes "wf_db db" and "x \<in> set (files db)" and "file_query_filter shop db x"
  shows "handle_post_rename_file multi shop [(''id'', JInt (int (fl_id x))), (''name'', JStr n)] db =
    (if is_file_shared multi db x
     then Inr (success_response False ''Can not rename a shared file.'', db)
     else Inr (success_response True ''File was renamed.'', update_file (fl_id x) (\<lambda>y. y\<lparr>fl_name := n\<rparr>) db))"
  using lookup_file_found [OF assms]
  by (simp add: handle_post_rename_file_def dict_index_def pk_value_def)

theorem rename_file_behaviour_witness:
  "wf_db demo_db \<and> \<lparr>fl_id = 1, fl_name = ''logo.png'', fl_folder = Some 1, fl_is_public = True, fl_is_image = True\<rparr> \<in> set (files demo_db) \<and> file_query_filter 1 demo_db \<lparr>fl_id = 1, fl_name = ''logo.png'', fl_folder = Some 1, fl_is_public = True, fl_is_image = True\<rparr>
   \<and> handle_post_rename_file True 1 [(''id'', JInt 1), (''name'', JStr ''brand.png'')] demo_db
       = Inr (success_response True ''File was renamed.'',
              update_file 1 (\<lambda>y. y\<lparr>fl_name := ''brand.png''\<rparr>) demo_db)"
  using rename_file_behaviour [OF wf_demo_db, of "\<lparr>fl_id = 1, fl_name = ''logo.png'', fl_folder = Some 1, fl_is_public = True, fl_is_image = True\<rparr>" 1 True "''brand.png''"] wf_demo_db
  by (simp add: demo_eval)

text \<open>
  C10. Deleting a file the shop can see: refused when shared; a file a
  protecting foreign key references raises \<open>Problem\<close> with the database error; otherwise
  the file and its media row are removed.
\<close>

theorem delete_file_behaviour:
  assumes "wf_db db" and "x \<in> set (files db)" and "file_query_filter shop db x"
  shows "handle_post_delete_file multi shop [(''id'', JInt (int (fl_id x)))] db =
    (if is_file_shared multi db x
     then Inr (success_response False ''Can not delete a shared file.'', db)
     else if fl_id x \<in> set (protected_files db) then Inl (Problem ''FOREIGN KEY constraint failed'')
     else Inr (success_response True ''File was deleted.'',
               db\<lparr>files := filter (\<lambda>y. fl_id y \<noteq> fl_id x) (files db),
                  media_files := filter (\<lambda>m. ml_target m \<noteq> fl_id x) (media_files db)\<rparr>))"
  using lookup_file_found [OF assms]
  by (simp add: handle_post_delete_file_def dict_index_def pk_value_def file_delete_def)

theorem delete_file_behaviour_witness:
  "wf_db demo_db \<and> \<lparr>fl_id = 1, fl_name = ''logo.png'', fl_folder = Some 1, fl_is_public = True, fl_is_image = True\<rparr> \<in> set (files demo_db) \<and> file_query_filter 1 demo_db \<lparr>fl_id = 1, fl_name = ''logo.png'', fl_folder = Some 1, fl_is_public = True, fl_is_image = True\<rparr>
   \<and> handle_post_delete_file True 1 [(''id'', JInt 1)] demo_db
       = Inl (Problem ''FOREIGN KEY constraint failed'')"
  using delete_file_behaviour [OF wf_demo_db, of "\<lparr>fl_id = 1, fl_name = ''logo.png'', fl_folder = Some 1, fl_is_public = True, fl_is_image = True\<rparr>" 1 True] wf_demo_db
  by (simp add: demo_eval)

text \<open>
  C11. Moving a file the shop can see into a folder the shop can see:
  refused when the file is shared; otherwise only the file's folder changes and the
  message names the old and new folders.
\<close>

theorem move_file_behaviour:
  assumes "wf_db db" and "x \<in> set (files db)" and "file_query_filter shop db x"
    and "g \<in> set (folders db)" and "get_folder_query_filter shop db g" and "0 < fd_id g"
  shows "handle_post_move_file multi shop [(''file_id'', JInt (int (fl_id x))), (''folder_id'', JInt (int (fd_id g)))] db =
    (if is_file_shared multi db x
     then Inr (success_response False (''Can'' @ apos # ''t move a shared file.''), db)
     else Inr (success_response True (fl_name x @ '' moved from '' @ get_folder_name (folder_by_id db (fl_folder x))
                                      @ '' to '' @ fd_name g @ ''.''),
               update_file (fl_id x) (\<lambda>y. y\<lparr>fl_folder := Some (fd_id g)\<rparr>) db))"
  using lookup_file_found [OF assms(1-3)] lookup_folder_found [OF assms(1,4,5)] assms(6)
  by (simp add: handle_post_move_file_def dict_index_def pk_value_def get_folder_name_def)

theorem move_file_behaviour_witness:
  "wf_db demo_db \<and> \<lparr>fl_id = 1, fl_name = ''logo.png'', fl_folder = Some 1, fl_is_public = True, fl_is_image = True\<rparr> \<in> set (files demo_db) \<and> file_query_filter 1 demo_db \<lparr>fl_id = 1, fl_name = ''logo.png'', fl_folder = Some 1, fl_is_public = True, fl_is_image = True\<rparr>
   \<and> \<lparr>fd_id = 4, fd_name = ''sub'', fd_parent = Some 1\<rparr> \<in> set (folders demo_db) \<and> get_folder_query_filter 1 demo_db \<lparr>fd_id = 4, fd_name = ''sub'', fd_parent = Some 1\<rparr> \<and> 0 < (4::nat)
   \<and> handle_post_move_file True 1 [(''file_id'', JInt 1), (''folder_id'', JInt 4)] demo_db
       = Inr (success_response True ''logo.png moved from shop1 to sub.'',
              update_file 1 (\<lambda>y. y\<lparr>fl_folder := Some 4\<rparr>) demo_db)"
  using move_file_behaviour [OF wf_demo_db, of "\<lparr>fl_id = 1, fl_name = ''logo.png'', fl_folder = Some 1, fl_is_public = True, fl_is_image = True\<rparr>" 1 "\<lparr>fd_id = 4, fd_name = ''sub'', fd_parent = Some 1\<rparr>" True] wf_demo_db
  by (simp add: demo_eval folder_by_id_def get_folder_name_def)

text \<open>
  C12. A rename or delete of a folder key the shop cannot see (missing, or
  owned by other shops) is answered with status 400 and Django's \<open>DoesNotExist\<close> message,
  and the database is unchanged.
\<close>

theorem post_missing_folder:
  assumes "\<forall>f \<in> set (folders db). get_folder_query_filter shop db f \<longrightarrow> int (fd_id f) \<noteq> k"
    and "a = ''rename_folder'' \<or> a = ''delete_folder''"
  shows "post multi shop \<lparr>rq_post = [], rq_get = [], rq_body = Some [(''action'', JStr a), (''id'', JInt k)],
                          rq_files = None\<rparr> db
         = Inr (JsonResponse [(''error'', JStr ''Folder matching query does not exist.'')] 400, db)"
proof -
  have "qs_get ''Folder'' fd_id (get_folder_query shop db None) (Some k) = Inl (DoesNotExist ''Folder'')"
    using assms(1) by (intro qs_get_none) (auto simp: get_folder_query_in)
  with assms(2) show ?thesis
    by (auto simp: post_def post_handler_for_def dict_get_def py_or_def dict_index_def pk_value_def
                   handle_post_rename_folder_def handle_post_delete_folder_def)
qed

theorem post_missing_folder_witness:
  "post True 2 \<lparr>rq_post = [], rq_get = [],
                    rq_body = Some [(''action'', JStr ''rename_folder''), (''id'', JInt 1)], rq_files = None\<rparr> demo_db
       = Inr (JsonResponse [(''error'', JStr ''Folder matching query does not exist.'')] 400, demo_db)"
  using post_missing_folder [of demo_db 2 1 "''rename_folder''" True]
  by (simp add: demo_eval)

text \<open>
  C13. Deleting an unshared file that a protecting foreign key references is
  answered with status 200 and the database's error message, and the database is
  unchanged.
\<close>

theorem post_protected_file:
  assumes "wf_db db" and "x \<in> set (files db)" and "file_query_filter shop db x"
    and "\<not> is_file_shared multi db x" and "fl_id x \<in> set (protected_files db)"
  shows "post multi shop \<lparr>rq_post = [], rq_get = [],
                          rq_body = Some [(''action'', JStr ''delete_file''), (''id'', JInt (int (fl_id x)))],
                          rq_files = None\<rparr> db
         = Inr (JsonResponse [(''error'', JStr ''FOREIGN KEY constraint failed'')] 200, db)"
  using lookup_file_found [OF assms(1-3)] assms(4,5)
  by (simp add: post_def post_handler_for_def dict_get_def py_or_def dict_index_def pk_value_def
                handle_post_delete_file_def file_delete_def)

theorem post_protected_file_witness:
  "wf_db demo_db \<and> \<lparr>fl_id = 1, fl_name = ''logo.png'', fl_folder = Some 1, fl_is_public = True, fl_is_image = True\<rparr> \<in> set (files demo_db) \<and> file_query_filter 1 demo_db \<lparr>fl_id = 1, fl_name = ''logo.png'', fl_folder = Some 1, fl_is_public = True, fl_is_image = True\<rparr>
   \<and> \<not> is_file_shared True demo_db \<lparr>fl_id = 1, fl_name = ''logo.png'', fl_folder = Some 1, fl_is_public = True, fl_is_image = True\<rparr> \<and> (1::nat) \<in> set (protected_files demo_db)
   \<and> post True 1 \<lparr>rq_post = [], rq_get = [],
                    rq_body = Some [(''action'', JStr ''delete_file''), (''id'', JInt 1)], rq_files = None\<rparr> demo_db
       = Inr (JsonResponse [(''error'', JStr ''FOREIGN KEY constraint failed'')] 200, demo_db)"
  using post_protected_file [OF wf_demo_db, of "\<lparr>fl_id = 1, fl_name = ''logo.png'', fl_folder = Some 1, fl_is_public = True, fl_is_image = True\<rparr>" 1 True] wf_demo_db
  by (simp add: demo_eval)

text \<open>
  C14. A JSON action with no handler is answered with the unknown-action
  error and changes nothing.
\<close>

theorem post_unknown_action:
  assumes "post_handler_for a = None"
  shows "post multi shop \<lparr>rq_post = [], rq_get = [], rq_body = Some (rest @ [(''action'', JStr a)]),
                          rq_files = None\<rparr> db
         = Inr (JsonResponse [(''error'', JStr (''Error! Unknown action `'' @ a @ ''`.''))] 200, db)"
  using assms by (simp add: post_def dict_get_def py_or_def)

theorem post_unknown_action_witness:
  "post_handler_for ''upload'' = None
   \<and> post False 1 \<lparr>rq_post = [], rq_get = [], rq_body = Some [(''action'', JStr ''upload'')], rq_files = None\<rparr> demo_db
       = Inr (JsonResponse [(''error'', JStr ''Error! Unknown action `upload`.'')] 200, demo_db)"
  using post_unknown_action [of "''upload''" False 1 "[]" demo_db]
  by (simp add: post_handler_for_def)

text \<open>
  C15. Round trip of \<open>get_or_create_folder\<close>: the folder it returns for a
  path has, read back up its parent chain, exactly the non-empty segments of the path.
\<close>

theorem get_or_create_folder_path:
  assumes "wf_db db" and "get_or_create_folder shop path db = (Inr (Some f), db')"
  shows "Media_Upload.folder_path db' f = Some (filter (\<lambda>s. s \<noteq> []) (py_split CHR ''/'' path))"
  using goc_loop_path [OF assms(1) refl _ assms(2) [unfolded get_or_create_folder_def]] by simp

theorem get_or_create_folder_path_witness:
  "wf_db demo_db
   \<and> get_or_create_folder 2 ''/shop1//new'' demo_db
       = (Inr (Some \<lparr>fd_id = 5, fd_name = ''new'', fd_parent = Some 1\<rparr>),
          snd (get_or_create_folder 2 ''/shop1//new'' demo_db))
   \<and> Media_Upload.folder_path (snd (get_or_create_folder 2 ''/shop1//new'' demo_db))
         \<lparr>fd_id = 5, fd_name = ''new'', fd_parent = Some 1\<rparr> = Some [''shop1'', ''new'']"
proof -
  have h: "get_or_create_folder 2 ''/shop1//new'' demo_db
       = (Inr (Some \<lparr>fd_id = 5, fd_name = ''new'', fd_parent = Some 1\<rparr>),
          snd (get_or_create_folder 2 ''/shop1//new'' demo_db))"
    by (simp add: get_or_create_folder_def demo_db_def folder_get_or_create_def folder_create_def
                  ensure_media_folder_def Let_def)
  show ?thesis using get_or_create_folder_path [OF wf_demo_db h] wf_demo_db h by simp
qed

text \<open>
  C16. A valid image uploaded into a folder the shop can see is stored as a
  new public image file in that folder, owned by the shop, and the response describes it.
\<close>

theorem upload_to_folder:
  fixes u :: uploaded_file
  assumes "wf_db db" and "g \<in> set (folders db)" and "get_folder_query_filter shop db g" and "0 < fd_id g"
    and "image_form_valid u"
  defines "x \<equiv> \<lparr>fl_id = next_file_id db, fl_name = up_name u, fl_folder = Some (fd_id g),
                fl_is_public = True, fl_is_image = True\<rparr>"
  shows "\<exists>db'. media_upload shop \<lparr>ur_post = [(''folder_id'', JInt (int (fd_id g)))], ur_get = [], ur_file = Some u\<rparr> db
               = (JsonResponse [(''file'', filer_file_to_json_dict x),
                                (''message'', JStr (up_name u @ '' uploaded to '' @ fd_name g @ ''.''))] 200, db')
              \<and> x \<in> set (files db') \<and> media_shops (media_files db') (fl_id x) = Some {shop}"
proof -
  have fresh: "next_file_id db \<notin> set (map ml_target (media_files db))"
    by (rule wf_next_file_fresh [OF assms(1)])
  from lookup_folder_found [OF assms(1-3)] assms(4) fresh show ?thesis
    by (simp add: x_def media_upload_def or_default_def py_or_def dict_get_def process_form_image [OF assms(5)]
                  upload_stored_def filer_from_upload_def get_folder_name_def Let_def ensure_media_file_fields
                  ensure_media_file_fresh media_shops_append_fresh)
qed

theorem upload_to_folder_witness:
  "wf_db demo_db \<and> \<lparr>fd_id = 4, fd_name = ''sub'', fd_parent = Some 1\<rparr> \<in> set (folders demo_db)
   \<and> get_folder_query_filter 1 demo_db \<lparr>fd_id = 4, fd_name = ''sub'', fd_parent = Some 1\<rparr> \<and> 0 < (4::nat)
   \<and> image_form_valid \<lparr>up_name = ''b.png'', up_content_type = ''image/png'', up_size = 10, up_is_image = True\<rparr>
   \<and> (\<exists>db'. media_upload 1 \<lparr>ur_post = [(''folder_id'', JInt 4)], ur_get = [],
                  ur_file = Some \<lparr>up_name = ''b.png'', up_content_type = ''image/png'', up_size = 10, up_is_image = True\<rparr>\<rparr> demo_db
              = (JsonResponse [(''file'', filer_file_to_json_dict
                    \<lparr>fl_id = 4, fl_name = ''b.png'', fl_folder = Some 4, fl_is_public = True, fl_is_image = True\<rparr>),
                  (''message'', JStr ''b.png uploaded to sub.'')] 200, db')
            \<and> \<lparr>fl_id = 4, fl_name = ''b.png'', fl_folder = Some 4, fl_is_public = True, fl_is_image = True\<rparr> \<in> set (files db')
            \<and> media_shops (media_files db') 4 = Some {1})"
  using upload_to_folder [where g = "\<lparr>fd_id = 4, fd_name = ''sub'', fd_parent = Some 1\<rparr>" and shop = 1
          and u = "\<lparr>up_name = ''b.png'', up_content_type = ''image/png'', up_size = 10, up_is_image = True\<rparr>",
          OF wf_demo_db] wf_demo_db
  by (simp add: demo_eval image_form_valid_def)

text \<open>
  C17. Uploading by path does not filter folders by shop: when a root folder is
  one shop's own and another shop uploads into the path naming it, the upload finds
  that folder and adds the uploading shop to its media row, whatever the file; the
  folder is then shared, and its owner can no longer rename it.
\<close>

theorem upload_path_captures_folder:
  fixes u :: "uploaded_file option"
  assumes "wf_db db" and "f \<in> set (folders db)"
    and "filter (\<lambda>g. fd_parent g = None \<and> fd_name g = fd_name f) (folders db) = [f]"
    and "fd_name f \<noteq> []" and "CHR ''/'' \<notin> set (fd_name f)"
    and "media_shops (media_folders db) (fd_id f) = Some {s1}" and "s2 \<noteq> s1"
  defines "db' \<equiv> snd (media_upload s2 \<lparr>ur_post = [(''path'', JStr (fd_name f))], ur_get = [], ur_file = u\<rparr> db)"
  shows "media_shops (media_folders db') (fd_id f) = Some {s1, s2}
       \<and> handle_post_rename_folder True s1 [(''id'', JInt (int (fd_id f))), (''name'', JStr n)] db'
           = Inr (success_response False (''Can'' @ apos # ''t rename a shared folder.''), db')"
proof -
  let ?db1 = "ensure_media_folder s2 (fd_id f) db"
  have "folder_get_or_create None (fd_name f) db = Inr ((f, False), db)"
    by (simp add: folder_get_or_create_def assms(3))
  then have up: "db' = snd (process_form s2 u (Some f) ?db1)"
    by (simp add: db'_def media_upload_path goc_single assms(4,5))
  have ms: "media_shops (media_folders db') (fd_id f) = Some {s1, s2}"
    using process_form_folders media_shops_ensure_existing [OF assms(6)] by (simp add: up insert_commute)
  have wf': "wf_db db'" unfolding db'_def by (rule wf_media_upload [OF assms(1)])
  have f': "f \<in> set (folders db')"
    using process_form_folders assms(2) by (simp add: up ensure_media_folder_fields)
  have "get_folder_query_filter s1 db' f" using folder_filter_visible [OF wf'] ms by simp
  note q = lookup_folder_found [OF wf' f' this]
  have "is_folder_shared True db' f" using ms assms(7) by (simp add: is_folder_shared_eq)
  with q ms show ?thesis by (simp add: handle_post_rename_folder_def dict_index_def pk_value_def)
qed

theorem upload_path_captures_folder_witness:
  "media_shops (media_folders (snd (media_upload 2 capture_upload demo_db))) 1 = Some {1, 2}
   \<and> handle_post_rename_folder True 1 [(''id'', JInt 1), (''name'', JStr ''mine'')]
         (snd (media_upload 2 capture_upload demo_db))
       = Inr (success_response False (''Can'' @ apos # ''t rename a shared folder.''),
              snd (media_upload 2 capture_upload demo_db))"
  using upload_path_captures_folder [OF wf_demo_db, of "\<lparr>fd_id = 1, fd_name = ''shop1'', fd_parent = None\<rparr>" 1 2
          "Some \<lparr>up_name = ''a.txt'', up_content_type = ''text/plain'', up_size = 3, up_is_image = False\<rparr>" "''mine''"]
  by (simp add: capture_upload_def demo_db_def media_shops_def)

text \<open>
  C18. An upload into a new one-segment path whose file fails validation is
  answered with status 400, yet the folder \<open>get_or_create_folder\<close> created for the
  path stays in the table with a media row of the uploading shop: nothing undoes it.
\<close>

theorem failed_upload_creates_folder:
  assumes "wf_db db" and "name \<noteq> []" and "CHR ''/'' \<notin> set name"
    and "\<not> (\<exists>g \<in> set (folders db). fd_parent g = None \<and> fd_name g = name)" and "up_size u = 0"
  shows "\<exists>err db'. media_upload shop \<lparr>ur_post = [(''path'', JStr name)], ur_get = [], ur_file = Some u\<rparr> db
                    = (JsonResponse [(''error'', err)] 400, db')
          \<and> folders db' = folders db @ [\<lparr>fd_id = next_folder_id db, fd_name = name, fd_parent = None\<rparr>]
          \<and> media_shops (media_folders db') (next_folder_id db) = Some {shop}"
proof -
  let ?nf = "\<lparr>fd_id = next_folder_id db, fd_name = name, fd_parent = None\<rparr>"
  let ?db1 = "ensure_media_folder shop (next_folder_id db) (snd (folder_create name None db))"
  have "filter (\<lambda>g. fd_parent g = None \<and> fd_name g = name) (folders db) = []"
    using assms(4) by (auto simp: filter_empty_conv)
  then have "folder_get_or_create None name db = Inr ((?nf, True), snd (folder_create name None db))"
    by (simp add: folder_get_or_create_def folder_create_def Let_def)
  then have up: "media_upload shop \<lparr>ur_post = [(''path'', JStr name)], ur_get = [], ur_file = Some u\<rparr> db
                 = process_form shop (Some u) (Some ?nf) ?db1"
    by (simp add: media_upload_path goc_single assms(2,3))
  obtain err where pf: "process_form shop (Some u) (Some ?nf) ?db1 = (JsonResponse [(''error'', err)] 400, ?db1)"
    using process_form_empty [OF assms(5)] by blast
  have fresh: "next_folder_id db \<notin> set (map ml_target (media_folders db))"
    by (rule wf_next_folder_fresh [OF assms(1)])
  then have ms: "media_shops (media_folders ?db1) (next_folder_id db) = Some {shop}"
    by (simp add: folder_create_def Let_def ensure_media_folder_fresh media_shops_append_fresh)
  have "folders ?db1 = folders db @ [?nf]"
    by (simp add: folder_create_def Let_def ensure_media_folder_fields)
  moreover have "media_upload shop \<lparr>ur_post = [(''path'', JStr name)], ur_get = [], ur_file = Some u\<rparr> db
                 = (JsonResponse [(''error'', err)] 400, ?db1)"
    using up pf by simp
  ultimately show ?thesis using ms by blast
qed

theorem failed_upload_creates_folder_witness:
  "\<exists>err db'. media_upload 2 empty_upload demo_db = (JsonResponse [(''error'', err)] 400, db')
     \<and> folders db' = folders demo_db @ [\<lparr>fd_id = 5, fd_name = ''inbox'', fd_parent = None\<rparr>]
     \<and> media_shops (media_folders db') 5 = Some {2}"
  using failed_upload_creates_folder [OF wf_demo_db, of "''inbox''"
          "\<lparr>up_name = ''e.txt'', up_content_type = ''text/plain'', up_size = 0, up_is_image = False\<rparr>" 2]
  by (simp add: empty_upload_def demo_db_def)

section \<open>The password API\<close>

lemma demo_reset_eval:
  "set_password_create (\<lambda>p. ''H:'' @ p) demo_token
     [(''uidb64'', JStr ''Nw''), (''token'', JStr ''5k-abc''), (''new_password1'', JStr '' s3cret ''),
      (''new_password2'', JStr ''s3cret'')] demo_users
   = (Response (Some (JObj [(''success'', JBool True)])) 200,
      \<lparr>users = [\<lparr>usr_id = 3, usr_password = ''h0''\<rparr>, \<lparr>usr_id = 7, usr_password = ''H:s3cret''\<rparr>]\<rparr>)"
  by (simp add: set_password_create_def set_password_is_valid_def set_password_fields_def
      set_password_validate_def char_field_def dict_get_def py_strip_def is_py_space_def link_user_def
      uid_of_def urlsafe_base64_decode_def utf8_encode_def urlsafe_b64decode_def a2b_base64_def
      urlsafe_decode_translate_def b64_val_def py_int_of_string_def digits_val_def is_digit_def
      qs_get_def demo_users_def demo_token_def save_user_def Response_def char_of_def bit_simps)

text \<open>
  C19. Following a reset link works: for a user of the table, the link
  \<open>urlsafe_base64_encode(force_bytes(user.pk))\<close> decodes back to the user's key (the
  base64 round trip of \<open>Base64_Codec\<close> and \<open>int()\<close> of the digits), so a request with that
  link, a token the generator accepts and two equal passwords that pass the field
  validation answers 200 and stores the new password's hash on exactly that user.
\<close>

theorem set_password_reset_link:
  assumes "distinct (map usr_id (users db))" and "u \<in> set (users db)" and "check_token u t"
    and "py_strip t = t" "t \<noteq> []" "CHR 0x00 \<notin> set t"
    and "py_strip p = p" "p \<noteq> []" "CHR 0x00 \<notin> set p"
  shows "set_password_create make_password check_token
           [(''uidb64'', JStr (urlsafe_base64_encode (map of_char (nat_str (usr_id u))))),
            (''token'', JStr t), (''new_password1'', JStr p), (''new_password2'', JStr p)] db
         = (Response (Some (JObj [(''success'', JBool True)])) 200,
            save_user (u\<lparr>usr_password := make_password p\<rparr>) db)"
  by (rule set_password_create_ok [where check_token = check_token, OF link_char_field [of "usr_id u"] link_user_found [OF assms(1,2)] assms(3)
             char_field_str [OF assms(4-6)] char_field_str [OF assms(7-9)]])

theorem set_password_reset_link_witness:
  "set_password_create (\<lambda>p. ''H:'' @ p) demo_token
     [(''uidb64'', JStr (urlsafe_base64_encode (map of_char (nat_str 7)))), (''token'', JStr ''5k-abc''),
      (''new_password1'', JStr ''s3cret''), (''new_password2'', JStr ''s3cret'')] demo_users
   = (Response (Some (JObj [(''success'', JBool True)])) 200,
      \<lparr>users = [\<lparr>usr_id = 3, usr_password = ''h0''\<rparr>, \<lparr>usr_id = 7, usr_password = ''H:s3cret''\<rparr>]\<rparr>)"
  using set_password_reset_link [where db = demo_users and u = "\<lparr>usr_id = 7, usr_password = ''h1''\<rparr>"
          and check_token = demo_token and t = "''5k-abc''" and p = "''s3cret''" and make_password = "\<lambda>p. ''H:'' @ p"]
  by (simp add: demo_users_def demo_token_def save_user_def py_strip_def is_py_space_def)

text \<open>
  C20. No password changes without a valid link: when the set-password view
  changes the user table, the request's fields passed validation, its link names a user
  of the table, the generator accepts its token for that user, the two passwords agree,
  and the only change is that user's new hash.
\<close>

theorem set_password_needs_token:
  assumes "set_password_create make_password check_token data db = (r, db')" and "db' \<noteq> db"
  shows "\<exists>d u. set_password_fields data = Inr d \<and> u \<in> set (users db)
           \<and> link_user db (sp_uidb64 d) = Some u \<and> check_token u (sp_token d)
           \<and> sp_new_password1 d = sp_new_password2 d
           \<and> db' = save_user (u\<lparr>usr_password := make_password (sp_new_password1 d)\<rparr>) db"
  using set_password_create_cases [OF assms(1)] assms(2) by (auto dest!: set_password_validate_Inr)

theorem set_password_needs_token_witness:
  "\<exists>d u. set_password_fields [(''uidb64'', JStr ''Nw''), (''token'', JStr ''5k-abc''),
            (''new_password1'', JStr '' s3cret ''), (''new_password2'', JStr ''s3cret'')] = Inr d
     \<and> u \<in> set (users demo_users) \<and> link_user demo_users (sp_uidb64 d) = Some u \<and> demo_token u (sp_token d)
     \<and> sp_new_password1 d = sp_new_password2 d
     \<and> \<lparr>users = [\<lparr>usr_id = 3, usr_password = ''h0''\<rparr>, \<lparr>usr_id = 7, usr_password = ''H:s3cret''\<rparr>]\<rparr>
        = save_user (u\<lparr>usr_password := ''H:'' @ sp_new_password1 d\<rparr>) demo_users"
  using set_password_needs_token [OF demo_reset_eval] by (simp add: demo_users_def)

text \<open>
  C21. The stored password is the submitted one with surrounding white space
  removed (the \<open>CharField\<close> default \<open>trim_whitespace\<close>): a successful request stores
  the hash of the stripped \<open>new_password1\<close>.
\<close>

theorem set_password_trims:
  assumes "set_password_create make_password check_token data db = (r, db')" and "db' \<noteq> db"
    and "dict_get data ''new_password1'' = Some (JStr s)"
  shows "\<exists>u \<in> set (users db). db' = save_user (u\<lparr>usr_password := make_password (py_strip s)\<rparr>) db"
proof -
  obtain d u where f: "set_password_fields data = Inr d" and v: "set_password_validate check_token db d = Inr (d, u)"
    and db': "db' = save_user (u\<lparr>usr_password := make_password (sp_new_password1 d)\<rparr>) db"
    using set_password_create_cases [OF assms(1)] assms(2) by blast
  have "char_field (Some (JStr s)) = Inr (sp_new_password1 d)"
    using set_password_fields_Inr [OF f] assms(3) by simp
  then have "sp_new_password1 d = py_strip s" by (rule char_field_JStr)
  with set_password_validate_Inr [OF v] db' show ?thesis by auto
qed

theorem set_password_trims_witness:
  "\<exists>u \<in> set (users demo_users).
     \<lparr>users = [\<lparr>usr_id = 3, usr_password = ''h0''\<rparr>, \<lparr>usr_id = 7, usr_password = ''H:s3cret''\<rparr>]\<rparr>
     = save_user (u\<lparr>usr_password := ''H:'' @ py_strip '' s3cret ''\<rparr>) demo_users"
  using set_password_trims [OF demo_reset_eval] by (simp add: demo_users_def dict_get_def)

text \<open>
  C22. Two different passwords are refused with status 400 and the
  non-field error \<open>Passwords do not match\<close>, and no user changes.
\<close>

theorem set_password_mismatch:
  assumes "set_password_fields data = Inr d" and "sp_new_password1 d \<noteq> sp_new_password2 d"
  shows "set_password_create make_password check_token data db
         = (Response (Some (JObj [(''non_field_errors'', JList [JStr ''Passwords do not match''])])) 400, db)"
  using assms by (simp add: set_password_create_def set_password_is_valid_def set_password_validate_def)

theorem set_password_mismatch_witness:
  "set_password_create (\<lambda>p. ''H:'' @ p) demo_token
     [(''uidb64'', JStr ''Nw''), (''token'', JStr ''5k-abc''), (''new_password1'', JStr ''a''),
      (''new_password2'', JStr ''b'')] demo_users
   = (Response (Some (JObj [(''non_field_errors'', JList [JStr ''Passwords do not match''])])) 400, demo_users)"
  using set_password_mismatch [where data = "[(''uidb64'', JStr ''Nw''), (''token'', JStr ''5k-abc''),
          (''new_password1'', JStr ''a''), (''new_password2'', JStr ''b'')]"
          and d = "\<lparr>sp_uidb64 = ''Nw'', sp_token = ''5k-abc'', sp_new_password1 = ''a'', sp_new_password2 = ''b''\<rparr>"]
  by (simp add: set_password_fields_def char_field_def dict_get_def py_strip_def is_py_space_def)

text \<open>
  C23. A link that names no user, or whose token the generator rejects for
  that user, is refused with status 400 and \<open>The recovery link is invalid.\<close>, and no user
  changes.
\<close>

theorem set_password_invalid_link:
  assumes "set_password_fields data = Inr d" and "sp_new_password1 d = sp_new_password2 d"
    and "\<forall>u. link_user db (sp_uidb64 d) = Some u \<longrightarrow> \<not> check_token u (sp_token d)"
  shows "set_password_create make_password check_token data db
         = (Response (Some (JObj [(''non_field_errors'', JList [JStr ''The recovery link is invalid.''])])) 400, db)"
  using assms by (auto simp: set_password_create_def set_password_is_valid_def set_password_validate_def
                       split: option.splits)

theorem set_password_invalid_link_witness:
  "set_password_create (\<lambda>p. ''H:'' @ p) demo_token
     [(''uidb64'', JStr ''!!''), (''token'', JStr ''5k-abc''), (''new_password1'', JStr ''a''),
      (''new_password2'', JStr ''a'')] demo_users
   = (Response (Some (JObj [(''non_field_errors'', JList [JStr ''The recovery link is invalid.''])])) 400,
      demo_users)"
  using set_password_invalid_link [where data = "[(''uidb64'', JStr ''!!''), (''token'', JStr ''5k-abc''),
          (''new_password1'', JStr ''a''), (''new_password2'', JStr ''a'')]"
          and d = "\<lparr>sp_uidb64 = ''!!'', sp_token = ''5k-abc'', sp_new_password1 = ''a'', sp_new_password2 = ''a''\<rparr>"
          and db = demo_users and check_token = demo_token]
  by (simp add: set_password_fields_def char_field_def dict_get_def py_strip_def is_py_space_def link_user_def
      uid_of_def urlsafe_base64_decode_def utf8_encode_def urlsafe_b64decode_def a2b_base64_def
      urlsafe_decode_translate_def b64_val_def py_int_of_string_def)

text \<open>
  C24. A request without a token is refused with status 400, the error
  dictionary names the token as required, and no user changes.
\<close>

theorem set_password_missing_field:
  assumes "dict_get data ''token'' = None"
  shows "\<exists>errs. set_password_create make_password check_token data db = (Response (Some (JObj errs)) 400, db)
           \<and> (''token'', JList [JStr ''This field is required.'']) \<in> set errs"
  using assms
  by (auto simp: set_password_create_def set_password_is_valid_def set_password_fields_def Let_def
                 field_error_def char_field_def split: sum.splits)

theorem set_password_missing_field_witness:
  "\<exists>errs. set_password_create (\<lambda>p. ''H:'' @ p) demo_token
     [(''uidb64'', JStr ''Nw''), (''new_password1'', JStr ''a''), (''new_password2'', JStr ''a'')] demo_users
     = (Response (Some (JObj errs)) 400, demo_users)
   \<and> (''token'', JList [JStr ''This field is required.'']) \<in> set errs"
  using set_password_missing_field [of "[(''uidb64'', JStr ''Nw''), (''new_password1'', JStr ''a''),
          (''new_password2'', JStr ''a'')]"]
  by (simp add: dict_get_def)

section \<open>URL routing, admin modules and template helpers\<close>

text \<open>
  C25. Every route of the addons and stock admin modules, reversed under the
  \<open>shuup_admin\<close> namespace with digit strings for its groups, yields a URL that
  resolves back to the route's view with the same keyword arguments; for
  \<open>simple_supplier.stocks\<close>, shared by two routes, the arguments select the route.
\<close>

theorem admin_reverse_resolve:
  assumes "r \<in> set (map ar_route (addon_get_urls @ stocks_get_urls))"
    and "length vs = length (route_params r)"
    and "list_all (\<lambda>v. v \<noteq> [] \<and> list_all is_digit v) vs"
  shows "\<exists>u. reverse admin_urlconf (''shuup_admin:'' @ ur_name r) [] (zip (route_params r) vs) = Inr u
           \<and> resolve admin_urlconf u = Some (ur_view r, zip (route_params r) vs)"
  using assms(1)
proof (cases rule: admin_route_cases)
  case 1
  then show ?thesis using assms(2) by (rule roundtrip_groupless)
next
  case 2
  then have r: "ur_name r = ''simple_supplier.stocks''"
      "ur_view r = ''shuup.simple_supplier.admin_module.views.process_stock_adjustment''"
      "route_params r = [''supplier_id'', ''product_id'']"
    by (simp_all only: stocks_group_routes)
  obtain v1 v2 where "vs = [v1, v2]" using assms(2) r(3) by (auto simp: length_Suc_conv)
  then show ?thesis using assms(3) roundtrip_adjust [of v1 v2] unfolding r by simp
next
  case 3
  then have r: "ur_name r = ''simple_supplier.alert_limits''"
      "ur_view r = ''shuup.simple_supplier.admin_module.views.process_alert_limit''"
      "route_params r = [''supplier_id'', ''product_id'']"
    by (simp_all only: stocks_group_routes)
  obtain v1 v2 where "vs = [v1, v2]" using assms(2) r(3) by (auto simp: length_Suc_conv)
  then show ?thesis using assms(3) roundtrip_alert [of v1 v2] unfolding r by simp
qed

lemma admin_reverse_resolve_witness:
  "\<exists>u. reverse admin_urlconf ''shuup_admin:simple_supplier.stocks'' [] [(''supplier_id'', ''12''), (''product_id'', ''7'')] = Inr u
     \<and> resolve admin_urlconf u = Some (''shuup.simple_supplier.admin_module.views.process_stock_adjustment'', [(''supplier_id'', ''12''), (''product_id'', ''7'')])"
  using admin_reverse_resolve [of "ar_route (stocks_get_urls ! 0)" "[''12'', ''7'']"]
  by (simp add: stocks_group_routes is_digit_def) (simp add: stocks_get_urls_def)

text \<open>
  C26. The stock list and settings routes have no \<open>$\<close>: any path that
  merely starts with \<open>/sa/stocks/\<close> resolves to the stock list view.
\<close>

theorem stocks_prefix_routes:
  "resolve admin_urlconf (''/sa/stocks/'' @ x) = Some (''shuup.simple_supplier.admin_module.views.StocksListView'', [])"
  by (simp add: route_core)

text \<open>
  C27. \<open>get_url\<close> does not return \<open>None\<close> for every failure: called with both
  positional and keyword arguments for a name without a namespace, or for any
  name in the admin's \<open>shuup_admin\<close> namespace, it raises the \<open>ValueError\<close> of
  \<open>reverse\<close> instead.
\<close>

theorem get_url_mixed_args:
  assumes "args \<noteq> []" and "kw \<noteq> []" and "CHR '':'' \<notin> set n"
  shows "get_url conf n args kw = Inl ValueError
       \<and> get_url admin_urlconf (''shuup_admin:'' @ n) args kw = Inl ValueError"
proof -
  have "py_split CHR '':'' (''shuup_admin:'' @ n) = [''shuup_admin'', n]"
    using py_split_append [of "CHR '':''" "''shuup_admin''" n] assms(3) by (simp add: py_split_single)
  then show ?thesis using assms
    by (simp add: get_url_def reverse_def py_split_single ns_candidates_def admin_urlconf_def admin_conf_def)
qed

theorem get_url_mixed_args_witness:
  "get_url admin_urlconf ''shuup_admin:simple_supplier.stocks'' [''1''] [(''product_id'', ''2'')] = Inl ValueError"
  using get_url_mixed_args [of "[''1'']" "[(''product_id'', ''2'')]" "''simple_supplier.stocks''" admin_urlconf]
  by simp

text \<open>
  C28. \<open>has_url\<close> is true exactly when reversal succeeds, false on
  \<open>NoReverseMatch\<close>, and propagates any other exception.
\<close>

theorem has_url_reverse:
  "has_url conf url args kw =
     (case reverse conf url args kw of Inr u \<Rightarrow> Inr True | Inl (NoReverseMatch m) \<Rightarrow> Inr False | Inl e \<Rightarrow> Inl e)"
  by (auto simp: has_url_def get_url_def dest: reverse_nonempty split: sum.splits exc.splits)

section \<open>Migrations of the product filter\<close>

lemmas demo_mig_eval = demo_mstate_def demo_categories_model_def ModelState_def migration_0007_def
  migration_0010_def mig_key_def

lemma demo_mstate_ready:
  "map_of (mg_project demo_mstate) (''product_filter'', ''categoriesfiltersettingsmodel'') = Some demo_categories_model"
  "''filter_type'' \<in> set (map fst (ms_fields demo_categories_model))"
  "list_all (\<lambda>d. d \<in> set (mg_applied demo_mstate)) (mg_deps migration_0007 @ mg_deps migration_0010)"
  "mig_key migration_0007 \<notin> set (mg_applied demo_mstate)"
  "mig_key migration_0010 \<notin> set (mg_applied demo_mstate)"
  by (simp_all add: demo_mig_eval)

text \<open>
  C29. From a state where the dependencies are applied and the categories model
  still has \<open>filter_type\<close>, the executor can apply both migrations, and then no
  step is left.
\<close>

theorem migrations_complete:
  assumes "map_of (mg_project s) (''product_filter'', ''categoriesfiltersettingsmodel'') = Some c"
    and "''filter_type'' \<in> set (map fst (ms_fields c))"
    and "list_all (\<lambda>d. d \<in> set (mg_applied s)) (mg_deps migration_0007 @ mg_deps migration_0010)"
    and "mig_key migration_0007 \<notin> set (mg_applied s)" "mig_key migration_0010 \<notin> set (mg_applied s)"
  shows "\<exists>s'. (mig_step [migration_0007, migration_0010])\<^sup>*\<^sup>* s s'
           \<and> mig_key migration_0007 \<in> set (mg_applied s') \<and> mig_key migration_0010 \<in> set (mg_applied s')
           \<and> \<not> (\<exists>s''. mig_step [migration_0007, migration_0010] s' s'')"
proof -
  obtain ps1 ps2 where
    st1: "mig_step [migration_0007, migration_0010] s \<lparr>mg_applied = mg_applied s @ [mig_key migration_0007], mg_project = ps1\<rparr>"
    and st2: "mig_step [migration_0007, migration_0010] \<lparr>mg_applied = mg_applied s @ [mig_key migration_0007], mg_project = ps1\<rparr>
             \<lparr>mg_applied = mg_applied s @ [mig_key migration_0007, mig_key migration_0010], mg_project = ps2\<rparr>"
    using migrations_run [where ms' = "[migration_0007, migration_0010]", OF _ _ assms] by auto
  let ?s2 = "\<lparr>mg_applied = mg_applied s @ [mig_key migration_0007, mig_key migration_0010], mg_project = ps2\<rparr>"
  have "(mig_step [migration_0007, migration_0010])\<^sup>*\<^sup>* s ?s2"
    using st1 st2 by (meson rtranclp.rtrancl_into_rtrancl rtranclp.rtrancl_refl)
  moreover have "\<not> (\<exists>s''. mig_step [migration_0007, migration_0010] ?s2 s'')"
    by (auto elim: mig_stepE)
  ultimately show ?thesis by auto
qed

theorem migrations_complete_witness:
  "\<exists>s'. (mig_step [migration_0007, migration_0010])\<^sup>*\<^sup>* demo_mstate s'
     \<and> mig_key migration_0007 \<in> set (mg_applied s') \<and> mig_key migration_0010 \<in> set (mg_applied s')
     \<and> \<not> (\<exists>s''. mig_step [migration_0007, migration_0010] s' s'')"
  by (rule migrations_complete [OF demo_mstate_ready])

end
